(* ===== verification/Rust_Prelude.thy ===== *)
theory Rust_Prelude
  imports Main "HOL-Library.Finite_Map" "HOL-Library.Sublist" "HOL-Library.List_Lexorder"
    "HOL-Library.Char_ord"
begin

text \<open>
  The part of Rust and of its standard library that the crates under \<^verbatim>\<open>src/\<close> use, shared by
  every component of the development:

  \<^item> \<open>res\<close>: the outcome of a call. \<open>Ok\<close> and \<open>Err\<close> are the constructors of
    \<^verbatim>\<open>Result\<close>; \<open>Panic\<close> is a call that does not return because it hits \<^verbatim>\<open>panic!\<close>,
    \<^verbatim>\<open>todo!\<close> or a failing \<^verbatim>\<open>unwrap\<close>.
  \<^item> \<open>fold_res\<close>: a \<^verbatim>\<open>for\<close> loop whose body updates a state and may leave by \<^verbatim>\<open>?\<close> or by
    a panic.
  \<^item> \<open>HashMap\<close>: a finite map (\<open>fmap\<close>). Its iteration order is not specified by Rust; code
    that iterates takes the order as an argument (locale \<open>hash_iteration\<close>).
  \<^item> string operations. A \<^verbatim>\<open>String\<close> or \<^verbatim>\<open>&str\<close> is the list of its UTF-8 bytes. All patterns the
    program searches for are ASCII, and no byte of a multi-byte UTF-8 sequence is an ASCII byte,
    so searching the bytes finds what Rust's search over characters finds.
\<close>

named_theorems rust_calls \<open>operations of a component that are calls to the system and nothing else\<close>

section \<open>Outcomes\<close>

datatype (dead 'a, dead 'e) res = Ok 'a | Err 'e | Panic string

text \<open>A \<^verbatim>\<open>std::io::Error\<close>, by its message.\<close>

type_synonym io_error = string

fun res_bind :: "('a, 'e) res \<Rightarrow> ('a \<Rightarrow> ('b, 'e) res) \<Rightarrow> ('b, 'e) res" where
  "res_bind (Ok a) f = f a"
| "res_bind (Err e) f = Err e"
| "res_bind (Panic m) f = Panic m"

fun map_res :: "('a \<Rightarrow> 'b) \<Rightarrow> ('a, 'e) res \<Rightarrow> ('b, 'e) res" where
  "map_res f (Ok a) = Ok (f a)"
| "map_res f (Err e) = Err e"
| "map_res f (Panic m) = Panic m"

fun map_err :: "('e \<Rightarrow> 'g) \<Rightarrow> ('a, 'e) res \<Rightarrow> ('a, 'g) res" where
  "map_err f (Ok a) = Ok a"
| "map_err f (Err e) = Err (f e)"
| "map_err f (Panic m) = Panic m"

text \<open>\<^verbatim>\<open>Result::unwrap\<close>: an error becomes a panic.\<close>

fun unwrap :: "('a, 'e) res \<Rightarrow> ('a, 'g) res" where
  "unwrap (Ok a) = Ok a"
| "unwrap (Err e) = Panic ''called `Result::unwrap()` on an `Err` value''"
| "unwrap (Panic m) = Panic m"

fun is_panic :: "('a, 'e) res \<Rightarrow> bool" where
  "is_panic (Panic m) = True"
| "is_panic _ = False"

fun is_err :: "('a, 'e) res \<Rightarrow> bool" where
  "is_err (Err e) = True"
| "is_err _ = False"

fun fold_res :: "('x \<Rightarrow> 's \<Rightarrow> ('s, 'e) res) \<Rightarrow> 'x list \<Rightarrow> 's \<Rightarrow> ('s, 'e) res" where
  "fold_res f [] s = Ok s"
| "fold_res f (x # xs) s = res_bind (f x s) (fold_res f xs)"

text \<open>\<^verbatim>\<open>assert!\<close> and \<^verbatim>\<open>assert_eq!\<close>.\<close>

definition assert_that :: "bool \<Rightarrow> (unit, 'e) res" where
  "assert_that b = (if b then Ok () else Panic ''assertion failed'')"

lemma res_bind_eq_Ok [simp]: "res_bind r f = Ok b \<longleftrightarrow> (\<exists>a. r = Ok a \<and> f a = Ok b)"
  by (cases r) auto

lemma is_panic_bind: "is_panic (res_bind r f) \<longleftrightarrow> is_panic r \<or> (\<exists>a. r = Ok a \<and> is_panic (f a))"
  by (cases r) auto

lemma is_panic_map_err [simp]: "is_panic (map_err f r) = is_panic r"
  by (cases r) auto

lemma map_res_eq_Ok [simp]: "map_res f r = Ok b \<longleftrightarrow> (\<exists>a. r = Ok a \<and> b = f a)"
  by (cases r) auto

lemma map_err_eq_Ok [simp]: "map_err f r = Ok b \<longleftrightarrow> r = Ok b"
  by (cases r) auto

lemma unwrap_eq_Ok [simp]: "unwrap r = Ok b \<longleftrightarrow> r = Ok b"
  by (cases r) auto

lemma is_panic_unwrap [simp]: "is_panic (unwrap r) \<longleftrightarrow> (\<forall>a. r \<noteq> Ok a)"
  by (cases r) auto

lemma is_panic_map_res [simp]: "is_panic (map_res f r) = is_panic r"
  by (cases r) auto

lemma res_total: "\<not> is_panic r \<Longrightarrow> \<not> is_err r \<Longrightarrow> \<exists>a. r = Ok a"
  by (cases r) auto

lemma fold_res_append:
  "fold_res f (xs @ ys) s = res_bind (fold_res f xs s) (fold_res f ys)"
proof (induction xs arbitrary: s)
  case (Cons x xs)
  then show ?case by (cases "f x s") auto
qed simp

lemma fold_res_single [simp]: "fold_res f [x] s = f x s"
  by (cases "f x s") auto

text \<open>The loop rule: what the body keeps, the loop keeps.\<close>

lemma fold_res_invariant:
  assumes "fold_res f xs s = Ok s'" and "P s"
    and "\<And>x t t'. x \<in> set xs \<Longrightarrow> P t \<Longrightarrow> f x t = Ok t' \<Longrightarrow> P t'"
  shows "P s'"
  using assms
proof (induction xs arbitrary: s)
  case (Cons x xs)
  then obtain t where "f x s = Ok t" "fold_res f xs t = Ok s'" by auto
  with Cons show ?case by (meson list.set_intros)
qed simp

lemma fold_res_no_panic:
  assumes "\<And>x t. x \<in> set xs \<Longrightarrow> P t \<Longrightarrow> \<not> is_panic (f x t)"
    and "\<And>x t t'. x \<in> set xs \<Longrightarrow> P t \<Longrightarrow> f x t = Ok t' \<Longrightarrow> P t'" and "P s"
  shows "\<not> is_panic (fold_res f xs s)"
  using assms
proof (induction xs arbitrary: s)
  case (Cons x xs)
  have "\<not> is_panic (f x s)" using Cons.prems by simp
  moreover have "\<not> is_panic (fold_res f xs t)" if "f x s = Ok t" for t
    using that by (intro Cons.IH) (meson list.set_intros Cons.prems)+
  ultimately show ?case by (auto simp: is_panic_bind)
qed simp

lemma fold_res_pure:
  assumes "\<And>x t. x \<in> set xs \<Longrightarrow> f x t = Ok (g x t)"
  shows "fold_res f xs s = Ok (fold g xs s)"
  using assms by (induction xs arbitrary: s) auto

lemma fold_res_cong:
  "xs = ys \<Longrightarrow> s = t \<Longrightarrow> (\<And>x u. x \<in> set ys \<Longrightarrow> f x u = g x u) \<Longrightarrow> fold_res f xs s = fold_res g ys t"
proof (induction xs arbitrary: ys s t)
  case (Cons x xs)
  then show ?case by (cases "g x t") auto
qed simp

section \<open>Lists\<close>

lemma map_filter_append [simp]:
  "List.map_filter f (xs @ ys) = List.map_filter f xs @ List.map_filter f ys"
  by (induction xs) (auto simp: List.map_filter_simps split: option.split)

lemma find_first: "find P xs = Some x \<Longrightarrow> \<exists>pre post. xs = pre @ x # post \<and> (\<forall>y \<in> set pre. \<not> P y) \<and> P x"
proof (induction xs)
  case (Cons y xs)
  show ?case
  proof (cases "P y")
    case True
    with Cons.prems show ?thesis by (intro exI [of _ "[]"] exI [of _ xs]) simp
  next
    case False
    with Cons obtain pre post where "xs = pre @ x # post" "\<forall>y \<in> set pre. \<not> P y" "P x" by auto
    with False show ?thesis by (intro exI [of _ "y # pre"] exI [of _ post]) simp
  qed
qed simp

section \<open>Hash maps\<close>

type_synonym ('k, 'v) HashMap = "('k, 'v) fmap"

text \<open>\<^verbatim>\<open>HashMap::insert\<close> and \<^verbatim>\<open>HashMap::remove\<close> return the value the key had before.\<close>

definition hm_insert :: "'k \<Rightarrow> 'v \<Rightarrow> ('k, 'v) HashMap \<Rightarrow> 'v option \<times> ('k, 'v) HashMap" where
  "hm_insert k v m = (fmlookup m k, fmupd k v m)"

definition hm_remove :: "'k \<Rightarrow> ('k, 'v) HashMap \<Rightarrow> 'v option \<times> ('k, 'v) HashMap" where
  "hm_remove k m = (fmlookup m k, fmdrop k m)"

text \<open>\<^verbatim>\<open>iter().collect()\<close> into a \<^verbatim>\<open>HashMap\<close>: pairs are inserted in order, a later one replaces
  an earlier one.\<close>

definition hm_collect :: "('k \<times> 'v) list \<Rightarrow> ('k, 'v) HashMap" where
  "hm_collect xs = fold (\<lambda>(k, v) m. fmupd k v m) xs fmempty"

lemma fmlookup_fold_fmupd:
  "fmlookup (fold (\<lambda>(k, v) m. fmupd k v m) xs m) k =
     (case map_of (rev xs) k of Some v \<Rightarrow> Some v | None \<Rightarrow> fmlookup m k)"
  by (induction xs arbitrary: m) (auto simp: map_add_def split: option.splits)

lemma fmlookup_hm_collect [simp]: "fmlookup (hm_collect xs) k = map_of (rev xs) k"
  by (simp add: hm_collect_def fmlookup_fold_fmupd split: option.splits)

lemma hm_collect_dom: "(fmlookup (hm_collect xs) k = None) \<longleftrightarrow> k \<notin> fst ` set xs"
  by (simp add: map_of_eq_None_iff)

text \<open>
  Iterating over a hash map: the entries in an order Rust does not specify. Whatever the order is,
  it lists every entry once.
\<close>

locale hash_iteration =
  fixes entries :: "('k, 'v) HashMap \<Rightarrow> ('k \<times> 'v) list"
  assumes entries_distinct: "distinct (map fst (entries m))"
    and entries_lookup: "map_of (entries m) k = fmlookup m k"
begin

lemma entries_set: "(k, v) \<in> set (entries m) \<longleftrightarrow> fmlookup m k = Some v"
  using entries_distinct [of m] by (simp add: entries_lookup [symmetric])

lemma keys_set: "k \<in> fst ` set (entries m) \<longleftrightarrow> fmlookup m k \<noteq> None"
  by (metis entries_lookup map_of_eq_None_iff)

text \<open>
  A loop over the entries that gives each key a new value computed from the old value at that key
  and the entry only: the order does not matter.
\<close>

lemma pointwise_fold_list:
  assumes "distinct (map fst xs)"
  shows "fmlookup (fold (\<lambda>(k, v) t. fmupd k (upd k (fmlookup t k) v) t) xs t) j =
    (case map_of xs j of Some v \<Rightarrow> Some (upd j (fmlookup t j) v) | None \<Rightarrow> fmlookup t j)"
  using assms
proof (induction xs arbitrary: t)
  case (Cons x xs)
  obtain k v where x: "x = (k, v)" by force
  with Cons.prems have "map_of xs k = None" by (simp add: map_of_eq_None_iff)
  with Cons x show ?case by (auto split: option.splits)
qed simp

lemma pointwise_fold:
  "fmlookup (fold (\<lambda>(k, v) t. fmupd k (upd k (fmlookup t k) v) t) (entries m) t) j =
    (case fmlookup m j of Some v \<Rightarrow> Some (upd j (fmlookup t j) v) | None \<Rightarrow> fmlookup t j)"
  by (simp add: pointwise_fold_list [OF entries_distinct] entries_lookup)

end

text \<open>The order of the keys is one possible order: the interface can be implemented.\<close>

interpretation sorted_iter: hash_iteration "sorted_list_of_fmap :: (string, 'v) HashMap \<Rightarrow> (string \<times> 'v) list"
proof
  fix m :: "(string, 'v) HashMap" and k
  show "distinct (map fst (sorted_list_of_fmap m))"
    by (simp add: sorted_list_of_fmap_def comp_def sorted_list_of_fset.rep_eq)
  show "map_of (sorted_list_of_fmap m) k = fmlookup m k"
    by (cases "fmlookup m k")
      (auto simp: sorted_list_of_fmap_def map_of_map_restrict sorted_list_of_fset.rep_eq
        restrict_map_def fmlookup_dom_iff fmdomI)
qed
end
