(* ===== verification/Rust_Strings.thy ===== *)
theory Rust_Strings
  imports Rust_Prelude
begin

text \<open>
  The methods of \<^verbatim>\<open>str\<close> and \<^verbatim>\<open>Path\<close> of Rust's standard library that the crates call, over UTF-8 byte
  lists, with the laws the components rely on: splitting and joining are inverse, removing and
  replacing leave no occurrence behind, trimming is idempotent.
\<close>

section \<open>Searching and splitting\<close>

text \<open>\<^verbatim>\<open>s.contains(c)\<close> and \<^verbatim>\<open>s.find(c)\<close> for an ASCII character.\<close>

definition str_contains :: "char \<Rightarrow> string \<Rightarrow> bool" where
  "str_contains c s = List.member s c"

fun str_find :: "char \<Rightarrow> string \<Rightarrow> nat option" where
  "str_find c [] = None"
| "str_find c (x # xs) = (if x = c then Some 0 else map_option Suc (str_find c xs))"

text \<open>\<^verbatim>\<open>s.split(c).collect()\<close>: always at least one part.\<close>

fun str_split :: "char \<Rightarrow> string \<Rightarrow> string list" where
  "str_split c [] = [[]]"
| "str_split c (x # xs) =
     (if x = c then [] # str_split c xs
      else (case str_split c xs of [] \<Rightarrow> [[x]] | p # ps \<Rightarrow> (x # p) # ps))"

text \<open>\<^verbatim>\<open>s.split_once(c)\<close>.\<close>

fun str_split_once :: "char \<Rightarrow> string \<Rightarrow> (string \<times> string) option" where
  "str_split_once c [] = None"
| "str_split_once c (x # xs) =
     (if x = c then Some ([], xs) else map_option (\<lambda>(a, b). (x # a, b)) (str_split_once c xs))"

text \<open>\<^verbatim>\<open>parts.join(sep)\<close>.\<close>

fun str_join :: "string \<Rightarrow> string list \<Rightarrow> string" where
  "str_join sep [] = []"
| "str_join sep [p] = p"
| "str_join sep (p # ps) = p @ sep @ str_join sep ps"

text \<open>\<^verbatim>\<open>s.contains(pat)\<close> for a string pattern.\<close>

fun str_contains_str :: "string \<Rightarrow> string \<Rightarrow> bool" where
  "str_contains_str pat [] = (pat = [])"
| "str_contains_str pat (x # xs) = (prefix pat (x # xs) \<or> str_contains_str pat xs)"

lemma str_contains_str_iff: "str_contains_str pat s \<longleftrightarrow> sublist pat s"
  by (induction s) (auto simp: sublist_Cons_right)

lemma str_contains_iff [simp]: "str_contains c s \<longleftrightarrow> c \<in> set s"
  by (simp add: str_contains_def)

lemma str_find_None [simp]: "str_find c s = None \<longleftrightarrow> c \<notin> set s"
  by (induction s) auto

lemma str_find_absent [simp]: "c \<notin> set s \<Longrightarrow> str_find c s = None"
  by simp

lemma str_find_Some: "str_find c s = Some i \<longleftrightarrow> i < length s \<and> s ! i = c \<and> c \<notin> set (take i s)"
proof (induction s arbitrary: i)
  case (Cons x xs)
  then show ?case by (cases i) auto
qed simp

lemma str_find_append: "c \<notin> set a \<Longrightarrow> str_find c (a @ c # b) = Some (length a)"
  by (induction a) auto

lemma str_split_not_Nil [simp]: "str_split c s \<noteq> []"
  by (induction s) (auto split: list.splits)

lemma str_split_no_sep: "p \<in> set (str_split c s) \<Longrightarrow> c \<notin> set p"
  by (induction s arbitrary: p) (auto split: list.splits if_splits)

lemma str_split_single: "c \<notin> set s \<Longrightarrow> str_split c s = [s]"
  by (induction s) auto

lemma hd_str_split: "hd (str_split c s) = takeWhile (\<lambda>x. x \<noteq> c) s"
  by (induction s) (auto split: list.split)

lemma str_split_append: "c \<notin> set a \<Longrightarrow> str_split c (a @ c # b) = a # str_split c b"
  by (induction a) auto

lemma str_join_Cons: "ps \<noteq> [] \<Longrightarrow> str_join sep (p # ps) = p @ sep @ str_join sep ps"
  by (cases ps) auto

lemma str_join_split [simp]: "str_join [c] (str_split c s) = s"
proof (induction s)
  case (Cons x xs)
  obtain p ps where ps: "str_split c xs = p # ps"
    by (meson neq_Nil_conv str_split_not_Nil)
  with Cons show ?case by (cases ps) (auto simp: str_join_Cons)
qed simp

lemma str_split_join:
  "ps \<noteq> [] \<Longrightarrow> (\<And>p. p \<in> set ps \<Longrightarrow> c \<notin> set p) \<Longrightarrow> str_split c (str_join [c] ps) = ps"
proof (induction ps)
  case (Cons p ps)
  then show ?case
    by (cases ps) (auto simp: str_split_single str_split_append)
qed simp

lemma length_str_split: "length (str_split c s) = Suc (count_list s c)"
  by (induction s) (auto split: list.splits)

lemma str_join_append_one: "ps \<noteq> [] \<Longrightarrow> str_join sep (ps @ [p]) = str_join sep ps @ sep @ p"
  by (induction ps rule: list_nonempty_induct) (auto simp: str_join_Cons)

lemma str_split_once_None [simp]: "str_split_once c s = None \<longleftrightarrow> c \<notin> set s"
  by (induction s) auto

lemma str_split_once_Some:
  "str_split_once c s = Some (a, b) \<longleftrightarrow> s = a @ c # b \<and> c \<notin> set a"
proof (induction s arbitrary: a)
  case (Cons x xs)
  then show ?case by (cases a) auto
qed simp

section \<open>Removing and replacing\<close>

text \<open>\<^verbatim>\<open>s.replace([c1, c2], "")\<close>: every listed character is dropped.\<close>

definition str_remove :: "char list \<Rightarrow> string \<Rightarrow> string" where
  "str_remove cs s = filter (\<lambda>c. \<not> List.member cs c) s"

lemma set_str_remove [simp]: "set (str_remove cs s) = set s - set cs"
  by (auto simp: str_remove_def)

lemma str_remove_id: "set s \<inter> set cs = {} \<Longrightarrow> str_remove cs s = s"
  by (auto simp: str_remove_def filter_id_conv)

lemma str_remove_idem [simp]: "str_remove cs (str_remove cs s) = str_remove cs s"
  by (simp add: str_remove_def)

lemma str_remove_append [simp]: "str_remove cs (s @ t) = str_remove cs s @ str_remove cs t"
  by (simp add: str_remove_def)

text \<open>
  \<^verbatim>\<open>s.replace(pat, to)\<close> and \<^verbatim>\<open>s.replacen(pat, to, 1)\<close> for a non-empty pattern: occurrences are
  found from the left and do not overlap. (Every pattern the program passes is non-empty; with the
  empty pattern these functions return the string as it is.)
\<close>

function str_replace :: "string \<Rightarrow> string \<Rightarrow> string \<Rightarrow> string" where
  "str_replace pat to [] = []"
| "str_replace pat to (x # xs) =
     (if pat \<noteq> [] \<and> prefix pat (x # xs)
      then to @ str_replace pat to (drop (length pat) (x # xs))
      else x # str_replace pat to xs)"
  by pat_completeness auto
termination
  by (relation "measure (\<lambda>(pat, to, s). length s)") auto

fun str_replace_first :: "string \<Rightarrow> string \<Rightarrow> string \<Rightarrow> string" where
  "str_replace_first pat to [] = []"
| "str_replace_first pat to (x # xs) =
     (if pat \<noteq> [] \<and> prefix pat (x # xs) then to @ drop (length pat) (x # xs)
      else x # str_replace_first pat to xs)"

lemma str_replace_absent:
  "pat \<noteq> [] \<Longrightarrow> \<not> sublist pat s \<Longrightarrow> str_replace pat to s = s"
  by (induction pat to s rule: str_replace.induct) (auto simp: sublist_Cons_right)

lemma str_replace_absent_char:
  assumes "c \<in> set pat" and "c \<notin> set s"
  shows "str_replace pat to s = s"
proof (rule str_replace_absent)
  show "pat \<noteq> []" using assms by auto
  show "\<not> sublist pat s" using assms set_mono_sublist by fastforce
qed

lemma str_replace_hit:
  assumes "pat \<noteq> []"
  shows "str_replace pat to (pat @ s) = to @ str_replace pat to s"
proof -
  obtain x xs where "pat = x # xs" using assms by (cases pat) auto
  then show ?thesis by simp
qed

lemma str_replace_first_hit:
  assumes "pat \<noteq> []"
  shows "str_replace_first pat to (pat @ s) = to @ s"
proof -
  obtain x xs where "pat = x # xs" using assms by (cases pat) auto
  then show ?thesis by simp
qed

lemma str_replace_first_absent:
  "pat \<noteq> [] \<Longrightarrow> \<not> sublist pat s \<Longrightarrow> str_replace_first pat to s = s"
  by (induction s) (auto simp: sublist_Cons_right)

lemma str_replace_first_skip:
  assumes "pat = c # p" and "c \<notin> set a"
  shows "str_replace_first pat to (a @ s) = a @ str_replace_first pat to s"
  using assms by (induction a) auto

section \<open>Trimming and letter case\<close>

text \<open>
  The characters \<^verbatim>\<open>char::is_whitespace\<close> accepts (Unicode \<^verbatim>\<open>White_Space\<close>), as UTF-8.
\<close>

definition whitespace_codes :: "string list" where
  "whitespace_codes =
     [[CHR 0x09], [CHR 0x0A], [CHR 0x0B], [CHR 0x0C], [CHR 0x0D], [CHR 0x20],
      [CHR 0xC2, CHR 0x85], [CHR 0xC2, CHR 0xA0], [CHR 0xE1, CHR 0x9A, CHR 0x80],
      [CHR 0xE2, CHR 0x80, CHR 0x80], [CHR 0xE2, CHR 0x80, CHR 0x81], [CHR 0xE2, CHR 0x80, CHR 0x82],
      [CHR 0xE2, CHR 0x80, CHR 0x83], [CHR 0xE2, CHR 0x80, CHR 0x84], [CHR 0xE2, CHR 0x80, CHR 0x85],
      [CHR 0xE2, CHR 0x80, CHR 0x86], [CHR 0xE2, CHR 0x80, CHR 0x87], [CHR 0xE2, CHR 0x80, CHR 0x88],
      [CHR 0xE2, CHR 0x80, CHR 0x89], [CHR 0xE2, CHR 0x80, CHR 0x8A], [CHR 0xE2, CHR 0x80, CHR 0xA8],
      [CHR 0xE2, CHR 0x80, CHR 0xA9], [CHR 0xE2, CHR 0x80, CHR 0xAF], [CHR 0xE2, CHR 0x81, CHR 0x9F],
      [CHR 0xE3, CHR 0x80, CHR 0x80]]"

text \<open>Drop codes of a list of non-empty codes from the front while one is there.\<close>

function trim_front :: "string list \<Rightarrow> string \<Rightarrow> string" where
  "trim_front codes s =
     (case find (\<lambda>w. w \<noteq> [] \<and> prefix w s) codes of
        None \<Rightarrow> s
      | Some w \<Rightarrow> trim_front codes (drop (length w) s))"
  by pat_completeness auto
termination
proof (relation "measure (\<lambda>(codes, s). length s)")
  fix codes s w
  assume "find (\<lambda>w. w \<noteq> [] \<and> prefix w s) codes = Some w"
  then have "w \<noteq> []" "prefix w s" by (auto simp: find_Some_iff)
  then have "length (drop (length w) s) < length s"
    by (cases s) (auto simp: prefix_def)
  then show "((codes, drop (length w) s), codes, s) \<in> measure (\<lambda>(codes, s). length s)"
    by simp
qed simp

declare trim_front.simps [simp del]

definition str_trim_start :: "string \<Rightarrow> string" where
  "str_trim_start s = trim_front whitespace_codes s"

definition str_trim_end :: "string \<Rightarrow> string" where
  "str_trim_end s = rev (trim_front (map rev whitespace_codes) (rev s))"

definition str_trim :: "string \<Rightarrow> string" where
  "str_trim s = str_trim_end (str_trim_start s)"

lemma trim_front_idem: "trim_front codes (trim_front codes s) = trim_front codes s"
proof (induction codes s rule: trim_front.induct)
  case (1 codes s)
  show ?case
  proof (cases "find (\<lambda>w. w \<noteq> [] \<and> prefix w s) codes")
    case None
    then show ?thesis by (simp add: trim_front.simps [of codes s])
  next
    case (Some w)
    with 1 show ?thesis by (simp add: trim_front.simps [of codes s])
  qed
qed

lemma str_trim_end_idem [simp]: "str_trim_end (str_trim_end s) = str_trim_end s"
  by (simp add: str_trim_end_def trim_front_idem)

lemma suffix_trim_front: "suffix (trim_front codes s) s"
proof (induction codes s rule: trim_front.induct)
  case (1 codes s)
  then show ?case
    by (subst trim_front.simps)
      (auto split: option.split intro: suffix_order.trans [OF _ suffix_drop])
qed

lemma prefix_str_trim_end: "prefix (str_trim_end s) s"
  using suffix_trim_front [of "map rev whitespace_codes" "rev s"]
  by (simp add: str_trim_end_def suffix_to_prefix)

text \<open>
  \<^verbatim>\<open>to_lowercase\<close> on the ASCII letters. A character outside ASCII keeps its bytes here; Rust may map it
  to another non-ASCII character, and the only ones it maps to something that holds an ASCII letter
  give \<open>k\<close> or \<open>i\<close>, which no string the program compares with contains.
\<close>

definition ascii_lower :: "char \<Rightarrow> char" where
  "ascii_lower c = (if 65 \<le> (of_char c :: nat) \<and> (of_char c :: nat) \<le> 90 then char_of ((of_char c :: nat) + 32) else c)"

definition str_to_lowercase :: "string \<Rightarrow> string" where
  "str_to_lowercase s = map ascii_lower s"

text \<open>Whether bytes are UTF-8: \<^verbatim>\<open>OsString::into_string\<close> and \<^verbatim>\<open>Path::to_str\<close> succeed exactly on those.\<close>

definition utf8_tail :: "nat \<Rightarrow> bool" where
  "utf8_tail n = (128 \<le> n \<and> n \<le> 191)"

fun utf8_bytes :: "nat list \<Rightarrow> bool" where
  "utf8_bytes [] = True"
| "utf8_bytes (a # s) =
     (if a < 128 then utf8_bytes s
      else if a < 194 then False
      else if a < 224 then (case s of b # t \<Rightarrow> utf8_tail b \<and> utf8_bytes t | _ \<Rightarrow> False)
      else if a < 240 then
        (case s of
           b # c # t \<Rightarrow> utf8_tail b \<and> (a = 224 \<longrightarrow> 160 \<le> b) \<and> (a = 237 \<longrightarrow> b < 160) \<and> utf8_tail c \<and> utf8_bytes t
         | _ \<Rightarrow> False)
      else if a < 245 then
        (case s of
           b # c # d # t \<Rightarrow> utf8_tail b \<and> (a = 240 \<longrightarrow> 144 \<le> b) \<and> (a = 244 \<longrightarrow> b < 144)
             \<and> utf8_tail c \<and> utf8_tail d \<and> utf8_bytes t
         | _ \<Rightarrow> False)
      else False)"

definition utf8_valid :: "string \<Rightarrow> bool" where
  "utf8_valid s = utf8_bytes (map of_char s)"

section \<open>Lines\<close>

text \<open>
  \<^verbatim>\<open>s.lines()\<close>: split at line feeds, a final line feed ends the last line, and one carriage return
  before a line feed belongs to the line ending.
\<close>

definition strip_cr :: "string \<Rightarrow> string" where
  "strip_cr l = (if l \<noteq> [] \<and> last l = CHR 0x0D then butlast l else l)"

definition str_lines :: "string \<Rightarrow> string list" where
  "str_lines s =
     (let ps = str_split (CHR 0x0A) s
      in map strip_cr (butlast ps) @ (if last ps = [] then [] else [last ps]))"

lemma str_lines_empty [simp]: "str_lines [] = []"
  by (simp add: str_lines_def)

lemma str_lines_join:
  assumes "\<And>l. l \<in> set ls \<Longrightarrow> CHR 0x0A \<notin> set l \<and> strip_cr l = l" and "ls \<noteq> []" and "last ls \<noteq> []"
  shows "str_lines (str_join [CHR 0x0A] ls) = ls"
proof -
  have split: "str_split (CHR 0x0A) (str_join [CHR 0x0A] ls) = ls"
    using assms by (intro str_split_join) auto
  have "map strip_cr (butlast ls) = butlast ls"
    using assms by (intro map_idI) (meson in_set_butlastD)
  then show ?thesis
    using assms by (simp add: str_lines_def split Let_def)
qed

lemma str_lines_no_newline:
  assumes "l \<in> set (str_lines s)"
  shows "CHR 0x0A \<notin> set l"
proof -
  let ?ps = "str_split (CHR 0x0A) s"
  consider p where "p \<in> set ?ps" "l = strip_cr p" | "l = last ?ps"
    using assms by (auto simp: str_lines_def Let_def dest: in_set_butlastD split: if_splits)
  then show ?thesis
  proof cases
    case 1
    then show ?thesis
      using str_split_no_sep [of p] by (auto simp: strip_cr_def dest: in_set_butlastD)
  next
    case 2
    then show ?thesis
      using str_split_no_sep last_in_set [OF str_split_not_Nil] by blast
  qed
qed

section \<open>Paths\<close>

text \<open>
  A \<^verbatim>\<open>Path\<close> is its string. Its components leave out empty parts and every \<^verbatim>\<open>.\<close> but a leading one;
  paths that differ only in those compare equal in Rust, so \<open>path_parent\<close> gives the normal form.
\<close>

definition path_has_root :: "string \<Rightarrow> bool" where
  "path_has_root p = (p \<noteq> [] \<and> hd p = CHR ''/'')"

fun drop_dots :: "string list \<Rightarrow> string list" where
  "drop_dots [] = []"
| "drop_dots (c # cs) = (if c = [] \<or> c = ''.'' then drop_dots cs else c # drop_dots cs)"

definition path_components :: "string \<Rightarrow> string list" where
  "path_components p =
     (case str_split (CHR ''/'') p of
        [] \<Rightarrow> []
      | c # cs \<Rightarrow> (if c = ''.'' then c # drop_dots cs else drop_dots (c # cs)))"

definition path_of_components :: "bool \<Rightarrow> string list \<Rightarrow> string" where
  "path_of_components root cs = (if root then ''/'' else []) @ str_join ''/'' cs"

definition path_parent :: "string \<Rightarrow> string option" where
  "path_parent p =
     (if path_components p = [] then None
      else Some (path_of_components (path_has_root p) (butlast (path_components p))))"

definition path_file_name :: "string \<Rightarrow> string option" where
  "path_file_name p =
     (let cs = path_components p
      in if cs = [] \<or> last cs = ''.'' \<or> last cs = ''..'' then None else Some (last cs))"

text \<open>\<^verbatim>\<open>Path::extension\<close>: what follows the last dot of the file name, unless that dot comes first.\<close>

definition path_extension :: "string \<Rightarrow> string option" where
  "path_extension p =
     (case path_file_name p of
        None \<Rightarrow> None
      | Some f \<Rightarrow>
          (let ps = str_split (CHR ''.'') f
           in if length ps < 2 \<or> (length ps = 2 \<and> hd ps = []) then None else Some (last ps)))"

text \<open>\<^verbatim>\<open>Path::join\<close>: an absolute argument replaces the base.\<close>

definition path_join :: "string \<Rightarrow> string \<Rightarrow> string" where
  "path_join base p =
     (if path_has_root p then p
      else if base = [] \<or> last base = CHR ''/'' then base @ p
      else base @ ''/'' @ p)"

lemma path_join_relative: "\<not> path_has_root p \<Longrightarrow> prefix base (path_join base p)"
  by (auto simp: path_join_def)

text \<open>The file name of a path that was joined from a directory and a plain name, and its extension.\<close>

lemma str_split_concat: "str_split c (a @ c # b) = str_split c a @ str_split c b"
proof (induction a)
  case (Cons x a)
  obtain p ps where "str_split c a = p # ps" by (meson neq_Nil_conv str_split_not_Nil)
  with Cons show ?case by simp
qed simp

lemma drop_dots_append [simp]: "drop_dots (xs @ ys) = drop_dots xs @ drop_dots ys"
  by (induction xs) auto

definition plain_name :: "string \<Rightarrow> bool" where
  "plain_name f \<longleftrightarrow> CHR ''/'' \<notin> set f \<and> f \<noteq> [] \<and> f \<noteq> ''.'' \<and> f \<noteq> ''..''"

lemma path_components_name:
  assumes "plain_name f"
  shows "path_components f = [f]" "\<exists>cs. path_components (a @ CHR ''/'' # f) = cs @ [f]"
proof -
  have f: "str_split (CHR ''/'') f = [f]" using assms by (simp add: str_split_single plain_name_def)
  then show "path_components f = [f]" using assms by (simp add: path_components_def plain_name_def)
  obtain p ps where "str_split (CHR ''/'') a = p # ps" by (meson neq_Nil_conv str_split_not_Nil)
  then show "\<exists>cs. path_components (a @ CHR ''/'' # f) = cs @ [f]"
    using f assms by (auto simp: path_components_def str_split_concat plain_name_def)
qed

lemma path_file_name_join:
  assumes "plain_name f"
  shows "path_file_name (path_join base f) = Some f"
proof -
  have root: "\<not> path_has_root f" using assms by (cases f) (auto simp: plain_name_def path_has_root_def)
  have "\<exists>cs. path_components (path_join base f) = cs @ [f]"
  proof (cases "base = []")
    case True
    then show ?thesis using root path_components_name(1) [OF assms] by (simp add: path_join_def)
  next
    case False
    then have "\<exists>a. path_join base f = a @ CHR ''/'' # f"
      using root by (cases base rule: rev_cases) (auto simp: path_join_def)
    then show ?thesis using path_components_name(2) [OF assms] by auto
  qed
  then show ?thesis using assms by (auto simp: path_file_name_def Let_def plain_name_def)
qed

lemma path_extension_join:
  assumes "plain_name (stem @ ''.'' @ mid @ ''.'' @ ext)" and "CHR ''.'' \<notin> set ext"
  shows "path_extension (path_join base (stem @ ''.'' @ mid @ ''.'' @ ext)) = Some ext"
proof -
  have "str_split (CHR ''.'') (stem @ ''.'' @ mid @ ''.'' @ ext) =
      str_split (CHR ''.'') stem @ str_split (CHR ''.'') mid @ [ext]"
    using assms(2) by (simp add: str_split_concat str_split_single)
  moreover obtain p ps q qs where "str_split (CHR ''.'') stem = p # ps" "str_split (CHR ''.'') mid = q # qs"
    by (meson neq_Nil_conv str_split_not_Nil)
  ultimately show ?thesis
    using path_file_name_join [OF assms(1), of base] by (simp add: path_extension_def Let_def)
qed

end
