(* ===== verification/Rust_IO.thy ===== *)
theory Rust_IO
  imports Rust_Strings
begin

text \<open>
  Code with effects. A computation takes the list of the calls made to the operating system so far and gives
  an outcome and the longer list, or \<open>None\<close> if it does not return. What a call answers is a parameter that may
  depend on all earlier calls, so a theorem holds for every behaviour of the system.
\<close>

type_synonym ('op, 'a, 'e) io = "'op list \<Rightarrow> (('a, 'e) res \<times> 'op list) option"

definition io_res :: "('a, 'e) res \<Rightarrow> ('op, 'a, 'e) io" where
  "io_res r = (\<lambda>tr. Some (r, tr))"

definition io_return :: "'a \<Rightarrow> ('op, 'a, 'e) io" where
  "io_return a = io_res (Ok a)"

text \<open>A computation without effects that may not return.\<close>

definition io_pure :: "('a, 'e) res option \<Rightarrow> ('op, 'a, 'e) io" where
  "io_pure r = (\<lambda>tr. map_option (\<lambda>x. (x, tr)) r)"

definition io_call :: "'op \<Rightarrow> ('op list \<Rightarrow> ('a, 'e) res) \<Rightarrow> ('op, 'a, 'e) io" where
  "io_call call answer = (\<lambda>tr. Some (answer tr, tr @ [call]))"

definition io_bind :: "('op, 'a, 'e) io \<Rightarrow> ('a \<Rightarrow> ('op, 'b, 'e) io) \<Rightarrow> ('op, 'b, 'e) io" where
  "io_bind c f = (\<lambda>tr.
     case c tr of
       None \<Rightarrow> None
     | Some (Ok a, tr') \<Rightarrow> f a tr'
     | Some (Err e, tr') \<Rightarrow> Some (Err e, tr')
     | Some (Panic x, tr') \<Rightarrow> Some (Panic x, tr'))"

text \<open>Asking for something that is not recorded.\<close>

definition io_ask :: "('op list \<Rightarrow> 'a) \<Rightarrow> ('op, 'a, 'e) io" where
  "io_ask f = (\<lambda>tr. Some (Ok (f tr), tr))"

text \<open>A loop whose body has effects.\<close>

fun io_fold :: "('x \<Rightarrow> 's \<Rightarrow> ('op, 's, 'e) io) \<Rightarrow> 'x list \<Rightarrow> 's \<Rightarrow> ('op, 's, 'e) io" where
  "io_fold f [] s = io_return s"
| "io_fold f (x # xs) s = io_bind (f x s) (io_fold f xs)"

definition io_map_err :: "('e \<Rightarrow> 'g) \<Rightarrow> ('op, 'a, 'e) io \<Rightarrow> ('op, 'a, 'g) io" where
  "io_map_err f c = (\<lambda>tr. map_option (\<lambda>(r, tr'). (map_err f r, tr')) (c tr))"

lemma io_simps [simp]:
  "io_return a tr = Some (Ok a, tr)"
  "io_res r tr = Some (r, tr)"
  "io_call call answer tr = Some (answer tr, tr @ [call])"
  "io_ask f tr = Some (Ok (f tr), tr)"
  by (simp_all add: io_return_def io_res_def io_call_def io_ask_def)

lemma io_bind_Ok:
  "io_bind c f tr = Some (Ok b, tr'') \<longleftrightarrow> (\<exists>a tr'. c tr = Some (Ok a, tr') \<and> f a tr' = Some (Ok b, tr''))"
  by (auto simp: io_bind_def split: option.splits res.splits)

lemma io_map_err_return [simp]: "io_map_err f (io_return a) = io_return a"
  by (simp add: io_map_err_def io_return_def io_res_def)

lemma io_bind_return [simp]: "io_bind (io_return a) f = f a"
  by (simp add: io_bind_def fun_eq_iff)

lemma io_bind_return_right [simp]: "io_bind c io_return = c"
  by (auto simp: io_bind_def fun_eq_iff split: option.split res.split)

lemma io_bind_step: "c tr = Some (Ok a, tr') \<Longrightarrow> io_bind c f tr = f a tr'"
  by (simp add: io_bind_def)

lemma io_map_err_bind: "io_map_err f (io_bind c g) = io_bind (io_map_err f c) (\<lambda>a. io_map_err f (g a))"
  by (auto simp: io_bind_def io_map_err_def fun_eq_iff split: option.split res.split)

lemma io_bind_call_Ok: "io_bind (io_call call (\<lambda>_. Ok a)) f tr = f a (tr @ [call])"
  by (simp add: io_bind_def)

text \<open>
  \<open>performs P c\<close>: every call the computation adds to the list satisfies \<open>P\<close>, and the calls made before stay
  as they are.
\<close>

definition performs :: "('op \<Rightarrow> bool) \<Rightarrow> ('op, 'a, 'e) io \<Rightarrow> bool" where
  "performs P c \<longleftrightarrow> (\<forall>tr r tr'. c tr = Some (r, tr') \<longrightarrow> (\<exists>new. tr' = tr @ new \<and> list_all P new))"

lemma performs_res [intro]: "performs P (io_res r)" "performs P (io_return a)" "performs P (io_pure q)" "performs P (io_ask g)"
  by (auto simp: performs_def io_pure_def)

lemma performs_call [intro]: "P call \<Longrightarrow> performs P (io_call call answer)"
  by (simp add: performs_def)

lemma performs_bind [intro]:
  assumes "performs P c" and "\<And>a. performs P (f a)"
  shows "performs P (io_bind c f)"
  unfolding performs_def
proof (intro allI impI)
  fix tr r tr' assume "io_bind c f tr = Some (r, tr')"
  then obtain q tr1 where q: "c tr = Some (q, tr1)"
    and step: "(\<exists>a. q = Ok a \<and> f a tr1 = Some (r, tr')) \<or> tr' = tr1"
    by (auto simp: io_bind_def split: option.splits res.splits)
  from assms(1) q obtain new where new: "tr1 = tr @ new" "list_all P new" unfolding performs_def by blast
  from step show "\<exists>new. tr' = tr @ new \<and> list_all P new"
  proof
    assume "\<exists>a. q = Ok a \<and> f a tr1 = Some (r, tr')"
    then obtain more where "tr' = tr1 @ more" "list_all P more"
      using assms(2) unfolding performs_def by blast
    with new show ?thesis by (intro exI [of _ "new @ more"]) simp
  qed (use new in blast)
qed

lemma performs_bind_res:
  assumes "\<And>a. r = Ok a \<Longrightarrow> performs P (f a)"
  shows "performs P (io_bind (io_res r) f)"
  using assms by (cases r) (auto simp: performs_def io_bind_def)

lemma performs_fold [intro]: "(\<And>x s. x \<in> set xs \<Longrightarrow> performs P (f x s)) \<Longrightarrow> performs P (io_fold f xs s)"
  by (induction xs arbitrary: s) auto

lemma performs_mono: "performs P c \<Longrightarrow> (\<And>x. P x \<Longrightarrow> Q x) \<Longrightarrow> performs Q c"
  unfolding performs_def list_all_iff by blast

lemma performs_map_err [intro]: "performs P c \<Longrightarrow> performs P (io_map_err f c)"
  unfolding performs_def io_map_err_def by auto

end
