(* ===== verification/Ips_Digest.thy ===== *)
theory Ips_Digest
  imports Rust_Strings
begin

text \<open>
  \<^verbatim>\<open>src/libips/src/digest/mod.rs\<close>: digests of package payloads, their text form
  \<^verbatim>\<open>source:algorithm:hash\<close> and their computation. The hash functions of the crates \<^verbatim>\<open>sha2\<close> and
  \<^verbatim>\<open>sha3\<close> are a parameter (\<open>hashers\<close>).
\<close>

section \<open>Text codes of enumerations\<close>

text \<open>
  What \<^verbatim>\<open>strum\<close> derives for an enumeration: a \<^verbatim>\<open>Display\<close> and a \<^verbatim>\<open>TryFrom<&str>\<close> that agree, with
  codes that never contain the separator of the text form.
\<close>

locale string_codec =
  fixes to_str :: "'a \<Rightarrow> string"
    and of_str :: "string \<Rightarrow> 'a option"
    and sep :: char
  assumes of_to_str: "of_str (to_str x) = Some x"
    and to_str_sep: "sep \<notin> set (to_str x)"
    and of_str_exact: "of_str s = Some x \<Longrightarrow> s = to_str x"
begin

lemma to_str_inject: "to_str x = to_str y \<longleftrightarrow> x = y"
  by (metis of_to_str option.inject)

lemma of_str_iff: "of_str s = Some x \<longleftrightarrow> s = to_str x"
  using of_str_exact of_to_str by blast

lemma of_str_None_iff: "of_str s = None \<longleftrightarrow> s \<notin> range to_str"
  by (metis not_None_eq of_str_iff rangeE rangeI)

end

section \<open>Data\<close>

datatype DigestAlgorithm = SHA1 | SHA256 | SHA512 | SHA512Half | SHA3256 | SHA3512Half | SHA3512

definition DEFAULT_ALGORITHM :: DigestAlgorithm where
  "DEFAULT_ALGORITHM = SHA512"

fun algorithm_to_string :: "DigestAlgorithm \<Rightarrow> string" where
  "algorithm_to_string SHA1 = ''sha1''"
| "algorithm_to_string SHA256 = ''sha256t''"
| "algorithm_to_string SHA512 = ''sha512t''"
| "algorithm_to_string SHA512Half = ''sha512t_256''"
| "algorithm_to_string SHA3256 = ''sha3256t''"
| "algorithm_to_string SHA3512Half = ''sha3512t_256''"
| "algorithm_to_string SHA3512 = ''sha3512t''"

definition algorithm_try_from :: "string \<Rightarrow> DigestAlgorithm option" where
  "algorithm_try_from s =
     (if s = ''sha1'' then Some SHA1
      else if s = ''sha256t'' then Some SHA256
      else if s = ''sha512t'' then Some SHA512
      else if s = ''sha512t_256'' then Some SHA512Half
      else if s = ''sha3256t'' then Some SHA3256
      else if s = ''sha3512t_256'' then Some SHA3512Half
      else if s = ''sha3512t'' then Some SHA3512
      else None)"

datatype DigestSource =
    GzipCompressed | GNUElf | GNUElfUnsigned | UncompressedFile | Unknown | PrimaryPayloadHash

fun source_to_string :: "DigestSource \<Rightarrow> string" where
  "source_to_string GzipCompressed = ''gzip''"
| "source_to_string GNUElf = ''gelf''"
| "source_to_string GNUElfUnsigned = ''gelf.unsigned''"
| "source_to_string UncompressedFile = ''file''"
| "source_to_string Unknown = ''unknown''"
| "source_to_string PrimaryPayloadHash = ''PrimaryPayloadHash''"

definition source_try_from :: "string \<Rightarrow> DigestSource option" where
  "source_try_from s =
     (if s = ''gzip'' then Some GzipCompressed
      else if s = ''gelf'' then Some GNUElf
      else if s = ''gelf.unsigned'' then Some GNUElfUnsigned
      else if s = ''file'' then Some UncompressedFile
      else if s = ''unknown'' then Some Unknown
      else if s = ''PrimaryPayloadHash'' then Some PrimaryPayloadHash
      else None)"

record Digest =
  hash :: string
  algorithm :: DigestAlgorithm
  source :: DigestSource

definition Digest_default :: Digest where
  "Digest_default = \<lparr>hash = [], algorithm = SHA1, source = PrimaryPayloadHash\<rparr>"

datatype DigestError =
    UnknownAlgorithm string
  | InvalidDigestFormat string string

interpretation algorithm_codec: string_codec algorithm_to_string algorithm_try_from "CHR '':''"
proof
  fix x show "algorithm_try_from (algorithm_to_string x) = Some x"
    by (cases x) (simp_all add: algorithm_try_from_def)
  show "CHR '':'' \<notin> set (algorithm_to_string x)" by (cases x) simp_all
  show "s = algorithm_to_string x" if "algorithm_try_from s = Some x" for s
    using that by (auto simp: algorithm_try_from_def split: if_splits)
qed

interpretation source_codec: string_codec source_to_string source_try_from "CHR '':''"
proof
  fix x show "source_try_from (source_to_string x) = Some x"
    by (cases x) (simp_all add: source_try_from_def)
  show "CHR '':'' \<notin> set (source_to_string x)" by (cases x) simp_all
  show "s = source_to_string x" if "source_try_from s = Some x" for s
    using that by (auto simp: source_try_from_def split: if_splits)
qed

section \<open>Parsing and printing\<close>

text \<open>\<^verbatim>\<open>impl FromStr for Digest\<close>. \<open>parts ! 2\<close> is in range after the length check.\<close>

definition digest_from_str :: "string \<Rightarrow> (Digest, DigestError) res" where
  "digest_from_str s =
     (if \<not> str_contains (CHR '':'') s
      then Ok \<lparr>hash = s, algorithm = SHA1, source = PrimaryPayloadHash\<rparr>
      else
        let parts = str_split (CHR '':'') s in
        if length parts < 3
        then Err (InvalidDigestFormat s ''cannot split into 3 parts'')
        else
          let src = (case source_try_from (parts ! 0) of Some x \<Rightarrow> x | None \<Rightarrow> Unknown) in
          case algorithm_try_from (parts ! 1) of
            None \<Rightarrow> Err (UnknownAlgorithm (parts ! 1))
          | Some a \<Rightarrow> Ok \<lparr>hash = parts ! 2, algorithm = a, source = src\<rparr>)"

text \<open>\<^verbatim>\<open>impl Display for Digest\<close>.\<close>

definition digest_to_string :: "Digest \<Rightarrow> string" where
  "digest_to_string d =
     source_to_string (source d) @ '':'' @ algorithm_to_string (algorithm d) @ '':'' @ hash d"

section \<open>Computing a digest\<close>

text \<open>The digest functions of \<^verbatim>\<open>sha2\<close> and \<^verbatim>\<open>sha3\<close>, printed with \<^verbatim>\<open>{:x}\<close>.\<close>

record hashers =
  Sha256 :: "string \<Rightarrow> string"
  Sha512Trunc256 :: "string \<Rightarrow> string"
  Sha512 :: "string \<Rightarrow> string"
  Sha3_256 :: "string \<Rightarrow> string"
  Sha3_512 :: "string \<Rightarrow> string"

definition digest_from_bytes ::
  "hashers \<Rightarrow> string \<Rightarrow> DigestAlgorithm \<Rightarrow> DigestSource \<Rightarrow> (Digest, DigestError) res" where
  "digest_from_bytes H b algo src =
     res_bind
       (case algo of
          SHA256 \<Rightarrow> Ok (Sha256 H b)
        | SHA512Half \<Rightarrow> Ok (Sha512Trunc256 H b)
        | SHA512 \<Rightarrow> Ok (Sha512 H b)
        | SHA3512Half \<Rightarrow> Ok (Sha3_256 H b)
        | SHA3256 \<Rightarrow> Ok (Sha3_256 H b)
        | SHA3512 \<Rightarrow> Ok (Sha3_512 H b)
        | x \<Rightarrow> Err (UnknownAlgorithm (algorithm_to_string x)))
       (\<lambda>h. Ok \<lparr>hash = h, algorithm = algo, source = src\<rparr>)"

text \<open>What the hash crates document: a digest prints as lower-case hexadecimal digits.\<close>

definition hex_digits :: string where
  "hex_digits = ''0123456789abcdef''"

definition hex_hashers :: "hashers \<Rightarrow> bool" where
  "hex_hashers H \<longleftrightarrow> (\<forall>b. set (Sha256 H b) \<union> set (Sha512Trunc256 H b) \<union> set (Sha512 H b)
     \<union> set (Sha3_256 H b) \<union> set (Sha3_512 H b) \<subseteq> set hex_digits)"

section \<open>Lemmas\<close>

lemma digest_to_string_parts:
  assumes "CHR '':'' \<notin> set (hash d)"
  shows "str_split (CHR '':'') (digest_to_string d) =
    [source_to_string (source d), algorithm_to_string (algorithm d), hash d]"
  using assms
  by (simp add: digest_to_string_def str_split_append source_codec.to_str_sep
      algorithm_codec.to_str_sep str_split_single)

text \<open>
  The three-field grammar of a digest string: with a source, an algorithm and a hash field (and
  whatever follows a third colon), the result depends on the algorithm field only.
\<close>

lemma digest_from_str_fields:
  assumes "CHR '':'' \<notin> set a" "CHR '':'' \<notin> set b"
  shows "digest_from_str (a @ CHR '':'' # b @ CHR '':'' # c) =
    (case algorithm_try_from b of
       None \<Rightarrow> Err (UnknownAlgorithm b)
     | Some alg \<Rightarrow> Ok \<lparr>hash = hd (str_split (CHR '':'') c), algorithm = alg,
         source = (case source_try_from a of Some x \<Rightarrow> x | None \<Rightarrow> Unknown)\<rparr>)"
proof -
  obtain p ps where "str_split (CHR '':'') c = p # ps"
    by (meson neq_Nil_conv str_split_not_Nil)
  then show ?thesis
    using assms by (simp add: digest_from_str_def str_split_append Let_def split: option.split)
qed

lemma digest_from_str_two_fields:
  assumes "CHR '':'' \<notin> set a" "CHR '':'' \<notin> set b"
  shows "digest_from_str (a @ CHR '':'' # b) =
    Err (InvalidDigestFormat (a @ CHR '':'' # b) ''cannot split into 3 parts'')"
  using assms by (simp add: digest_from_str_def str_split_append str_split_single)

lemma digest_from_str_no_panic: "\<not> is_panic (digest_from_str s)"
  by (simp add: digest_from_str_def Let_def split: option.split)

lemma digest_from_str_err: "is_err (digest_from_str s) \<longleftrightarrow> (\<forall>d. digest_from_str s \<noteq> Ok d)"
  using digest_from_str_no_panic [of s] by (cases "digest_from_str s") auto

lemma digest_from_str_legacy:
  "CHR '':'' \<notin> set s \<Longrightarrow>
     digest_from_str s = Ok \<lparr>hash = s, algorithm = SHA1, source = PrimaryPayloadHash\<rparr>"
  by (simp add: digest_from_str_def)

lemma digest_from_bytes_Ok:
  "digest_from_bytes H b algo src = Ok d \<Longrightarrow> algorithm d = algo \<and> source d = src"
  by (cases algo) (auto simp: digest_from_bytes_def)

lemma digest_from_bytes_hex:
  assumes "hex_hashers H" and "digest_from_bytes H b algo src = Ok d"
  shows "set (hash d) \<subseteq> set hex_digits"
  using assms by (cases algo) (auto simp: digest_from_bytes_def hex_hashers_def dest!: spec [of _ b])

lemma colon_not_hex: "CHR '':'' \<notin> set hex_digits"
  by (simp add: hex_digits_def)

lemma digest_roundtrip_aux:
  assumes "CHR '':'' \<notin> set (hash d)"
  shows "digest_from_str (digest_to_string d) = Ok d"
  using assms
  by (simp add: digest_to_string_def digest_from_str_fields source_codec.to_str_sep
      algorithm_codec.to_str_sep source_codec.of_to_str algorithm_codec.of_to_str str_split_single)

lemma digest_from_str_outcome:
  "digest_from_str s =
    (case str_split (CHR '':'') s of
       [] \<Rightarrow> Panic []
     | [h] \<Rightarrow> Ok \<lparr>hash = h, algorithm = SHA1, source = PrimaryPayloadHash\<rparr>
     | [_, _] \<Rightarrow> Err (InvalidDigestFormat s ''cannot split into 3 parts'')
     | a # b # h # _ \<Rightarrow>
         (if b \<in> range algorithm_to_string
          then Ok \<lparr>hash = h, algorithm = the (algorithm_try_from b),
                  source = (if a \<in> range source_to_string then the (source_try_from a) else Unknown)\<rparr>
          else Err (UnknownAlgorithm b)))"
  (is "?l = ?r")
proof (cases "CHR '':'' \<in> set s")
  case False
  then show ?thesis by (simp add: digest_from_str_def str_split_single)
next
  case True
  then have "2 \<le> length (str_split (CHR '':'') s)"
    using count_list_0_iff [of s "CHR '':''"] by (simp add: length_str_split)
  then obtain a b ps where parts: "str_split (CHR '':'') s = a # b # ps"
    by (cases "str_split (CHR '':'') s"; cases "tl (str_split (CHR '':'') s)") auto
  have src: "(case source_try_from a of Some x \<Rightarrow> x | None \<Rightarrow> Unknown) =
      (if a \<in> range source_to_string then the (source_try_from a) else Unknown)"
    using source_codec.of_str_None_iff [of a] by (auto split: option.split)
  show ?thesis
    using True parts src algorithm_codec.of_str_None_iff [of b]
    by (cases ps) (auto simp: digest_from_str_def Let_def split: option.split)
qed

text \<open>The strings that are not digests: one colon, or an unknown algorithm after the first of several.\<close>

definition malformed_digest :: "string \<Rightarrow> bool" where
  "malformed_digest s \<longleftrightarrow>
     (case str_split (CHR '':'') s of
        [_, _] \<Rightarrow> True
      | _ # b # _ # _ \<Rightarrow> b \<notin> {''sha1'', ''sha256t'', ''sha512t'', ''sha512t_256'', ''sha3256t'', ''sha3512t_256'', ''sha3512t''}
      | _ \<Rightarrow> False)"

lemma algorithm_names:
  "range algorithm_to_string = {''sha1'', ''sha256t'', ''sha512t'', ''sha512t_256'', ''sha3256t'', ''sha3512t_256'', ''sha3512t''}"
proof -
  have all: "UNIV = {SHA1, SHA256, SHA512, SHA512Half, SHA3256, SHA3512Half, SHA3512}" by (auto intro: DigestAlgorithm.exhaust)
  show ?thesis unfolding all by auto
qed

lemma digest_malformed: "is_err (digest_from_str s) \<longleftrightarrow> malformed_digest s"
  unfolding digest_from_str_outcome malformed_digest_def algorithm_names by (simp split: list.split)

section \<open>Properties\<close>

text \<open>
  C22: printing a digest and parsing the text gives the digest back, as long as its hash has no colon.
\<close>

theorem digest_roundtrip:
  assumes "CHR '':'' \<notin> set (hash d)"
  shows "digest_from_str (digest_to_string d) = Ok d"
  using assms by (rule digest_roundtrip_aux)

theorem digest_roundtrip_witness:
  "digest_from_str (digest_to_string \<lparr>hash = ''42007aae'', algorithm = SHA512Half, source = GNUElfUnsigned\<rparr>)
     = Ok \<lparr>hash = ''42007aae'', algorithm = SHA512Half, source = GNUElfUnsigned\<rparr>"
  by (rule digest_roundtrip) simp

text \<open>
  C23: the outcome of parsing a digest string, for every string. Without a colon it is a SHA-1 payload
  hash. With exactly one colon it is an error that quotes the string. With two or more colons, the
  second field decides: an unknown algorithm is an error that names it, otherwise the third field is
  the hash, what follows a third colon is dropped, and a source that is not known becomes
  \<open>Unknown\<close>. Parsing never panics.
\<close>

theorem digest_from_str_cases:
  "digest_from_str s =
    (case str_split (CHR '':'') s of
       [] \<Rightarrow> Panic []
     | [h] \<Rightarrow> Ok \<lparr>hash = h, algorithm = SHA1, source = PrimaryPayloadHash\<rparr>
     | [_, _] \<Rightarrow> Err (InvalidDigestFormat s ''cannot split into 3 parts'')
     | a # b # h # _ \<Rightarrow>
         (if b \<in> range algorithm_to_string
          then Ok \<lparr>hash = h, algorithm = the (algorithm_try_from b),
                  source = (if a \<in> range source_to_string then the (source_try_from a) else Unknown)\<rparr>
          else Err (UnknownAlgorithm b)))"
  by (rule digest_from_str_outcome)

text \<open>
  Computing a digest succeeds exactly for the algorithms other than SHA-1, the default one; then
  the digest records the algorithm and the source it was asked for, and its text form parses back to it.
\<close>

lemma digest_from_bytes_correct:
  assumes "hex_hashers H"
  shows "(\<exists>d. digest_from_bytes H b algo src = Ok d \<and> algorithm d = algo \<and> source d = src
            \<and> digest_from_str (digest_to_string d) = Ok d) \<longleftrightarrow> algo \<noteq> algorithm Digest_default"
proof (cases "algo = SHA1")
  case True
  then show ?thesis by (simp add: digest_from_bytes_def Digest_default_def)
next
  case False
  then obtain d where d: "digest_from_bytes H b algo src = Ok d"
    by (cases algo) (auto simp: digest_from_bytes_def)
  with assms have "CHR '':'' \<notin> set (hash d)"
    using digest_from_bytes_hex colon_not_hex by blast
  with d False show ?thesis
    using digest_roundtrip_aux digest_from_bytes_Ok by (auto simp: Digest_default_def)
qed

lemma digest_from_bytes_correct_witness:
  "(\<exists>d. digest_from_bytes \<lparr>Sha256 = \<lambda>_. ''00'', Sha512Trunc256 = \<lambda>_. ''01'', Sha512 = \<lambda>_. ''02'',
          Sha3_256 = \<lambda>_. ''03'', Sha3_512 = \<lambda>_. ''04''\<rparr> ''data'' SHA3512 PrimaryPayloadHash = Ok d
        \<and> algorithm d = SHA3512 \<and> source d = PrimaryPayloadHash
        \<and> digest_from_str (digest_to_string d) = Ok d) \<longleftrightarrow> SHA3512 \<noteq> algorithm Digest_default"
  by (rule digest_from_bytes_correct) (simp add: hex_hashers_def hex_digits_def)

end
