(* ===== verification/Ips_Payload.thy ===== *)
theory Ips_Payload
  imports Ips_Digest
begin

text \<open>
  \<^verbatim>\<open>src/libips/src/payload/mod.rs\<close>: the payload of a file action and its computation from a file.
  Reading the file (\<^verbatim>\<open>std::fs::read\<close>) and the object-file parser of the crate \<^verbatim>\<open>object\<close> are parameters.
\<close>

section \<open>Data\<close>

datatype PayloadError = PayloadIOError io_error | PayloadDigestError DigestError

datatype PayloadCompressionAlgorithm = Gzip | LZ4

datatype PayloadBits = Independent | Bits32 | Bits64

datatype PayloadArchitecture = NOARCH | I386 | SPARC | ARM | RISCV

record Payload =
  primary_identifier :: Digest
  additional_identifiers :: "Digest list"
  compression_algorithm :: PayloadCompressionAlgorithm
  bitness :: PayloadBits
  architecture :: PayloadArchitecture

definition Payload_default :: Payload where
  "Payload_default = \<lparr>primary_identifier = Digest_default, additional_identifiers = [],
     compression_algorithm = LZ4, bitness = Independent, architecture = NOARCH\<rparr>"

text \<open>
  What \<^verbatim>\<open>object::File\<close> tells about a binary: \<^verbatim>\<open>is_64()\<close> and \<^verbatim>\<open>architecture()\<close>, an enumeration of which
  the program names four members.
\<close>

datatype object_architecture = Obj_X86_64 | Obj_I386 | Obj_Aarch64 | Obj_Arm | Obj_Other string

record object_file =
  is_64 :: bool
  obj_architecture :: object_architecture

section \<open>Operations\<close>

definition is_elf :: "Payload \<Rightarrow> bool" where
  "is_elf p \<longleftrightarrow> architecture p = NOARCH \<and> bitness p = Independent"

definition object_class :: "object_file option \<Rightarrow> PayloadBits \<times> PayloadArchitecture" where
  "object_class ob =
     (case ob of
        Some bin \<Rightarrow>
          (if is_64 bin then Bits64 else Bits32,
           case obj_architecture bin of
             Obj_X86_64 \<Rightarrow> I386 | Obj_I386 \<Rightarrow> I386
           | Obj_Aarch64 \<Rightarrow> ARM | Obj_Arm \<Rightarrow> ARM
           | Obj_Other _ \<Rightarrow> NOARCH)
      | None \<Rightarrow> (Independent, NOARCH))"

definition compute_payload ::
  "(string \<Rightarrow> (string, io_error) res) \<Rightarrow> (string \<Rightarrow> object_file option) \<Rightarrow> hashers \<Rightarrow> string
     \<Rightarrow> (Payload, PayloadError) res" where
  "compute_payload fs_read parse_object H path =
     res_bind (map_err PayloadIOError (fs_read path)) (\<lambda>f.
       let (bits, arch) = object_class (parse_object f) in
       res_bind (map_err PayloadDigestError (digest_from_bytes H f SHA3512 PrimaryPayloadHash)) (\<lambda>d.
         Ok \<lparr>primary_identifier = d, additional_identifiers = [], compression_algorithm = LZ4,
             bitness = bits, architecture = arch\<rparr>))"

lemma object_class_Independent: "fst (object_class ob) = Independent \<longleftrightarrow> ob = None"
  by (simp add: object_class_def split: option.split)

lemma compute_payload_Ok:
  assumes "fs_read path = Ok f"
  shows "compute_payload fs_read parse_object H path =
    Ok \<lparr>primary_identifier = \<lparr>hash = Sha3_512 H f, algorithm = SHA3512, source = PrimaryPayloadHash\<rparr>,
        additional_identifiers = [], compression_algorithm = LZ4,
        bitness = fst (object_class (parse_object f)), architecture = snd (object_class (parse_object f))\<rparr>"
  using assms by (simp add: compute_payload_def digest_from_bytes_def Let_def split_beta)

section \<open>Properties\<close>

text \<open>
  C24: computing the payload of a file fails exactly when the file cannot be read, with that I/O error, and never
  panics. Otherwise the payload is identified by the SHA3-512 hash of the file's bytes, the identifier
  parses back from its text form, there are no further identifiers, and word size and architecture are those the
  object parser finds: 32 or 64 bits, Intel, ARM or neither for an object file, and neither for any other file.
\<close>

theorem compute_payload_correct:
  assumes "hex_hashers H"
  shows "case fs_read path of
      Err e \<Rightarrow> compute_payload fs_read parse_object H path = Err (PayloadIOError e)
    | Panic m \<Rightarrow> compute_payload fs_read parse_object H path = Panic m
    | Ok f \<Rightarrow> \<exists>p. compute_payload fs_read parse_object H path = Ok p
        \<and> primary_identifier p = \<lparr>hash = Sha3_512 H f, algorithm = SHA3512, source = PrimaryPayloadHash\<rparr>
        \<and> digest_from_str (digest_to_string (primary_identifier p)) = Ok (primary_identifier p)
        \<and> additional_identifiers p = [] \<and> compression_algorithm p = LZ4
        \<and> (case parse_object f of
             None \<Rightarrow> bitness p = Independent \<and> architecture p = NOARCH
           | Some bin \<Rightarrow> bitness p = (if is_64 bin then Bits64 else Bits32)
               \<and> (architecture p = I386 \<longleftrightarrow> obj_architecture bin \<in> {Obj_X86_64, Obj_I386})
               \<and> (architecture p = ARM \<longleftrightarrow> obj_architecture bin \<in> {Obj_Aarch64, Obj_Arm})
               \<and> architecture p \<in> {I386, ARM, NOARCH})"
proof (cases "fs_read path")
  case (Ok f)
  have "digest_from_bytes H f SHA3512 PrimaryPayloadHash =
      Ok \<lparr>hash = Sha3_512 H f, algorithm = SHA3512, source = PrimaryPayloadHash\<rparr>"
    by (simp add: digest_from_bytes_def)
  from digest_from_bytes_hex [OF assms this] have "CHR '':'' \<notin> set (Sha3_512 H f)"
    using colon_not_hex by auto
  then show ?thesis
    using Ok by (simp add: compute_payload_Ok digest_roundtrip_aux object_class_def
        split: option.split object_architecture.split)
qed (simp_all add: compute_payload_def)

theorem compute_payload_correct_witness:
  "\<exists>p. compute_payload (\<lambda>_. Ok ''ELF'') (\<lambda>_. Some \<lparr>is_64 = True, obj_architecture = Obj_Aarch64\<rparr>)
       \<lparr>Sha256 = \<lambda>_. ''00'', Sha512Trunc256 = \<lambda>_. ''01'', Sha512 = \<lambda>_. ''02'', Sha3_256 = \<lambda>_. ''03'', Sha3_512 = \<lambda>_. ''04''\<rparr>
       ''bin/ls'' = Ok p
     \<and> hash (primary_identifier p) = ''04'' \<and> bitness p = Bits64 \<and> architecture p = ARM"
proof -
  let ?H = "\<lparr>Sha256 = \<lambda>_. ''00'', Sha512Trunc256 = \<lambda>_. ''01'', Sha512 = \<lambda>_. ''02'', Sha3_256 = \<lambda>_. ''03'', Sha3_512 = \<lambda>_. ''04''\<rparr>"
  have "hex_hashers ?H" by (simp add: hex_hashers_def hex_digits_def)
  from compute_payload_correct [OF this, where fs_read = "\<lambda>_. Ok ''ELF''" and path = "''bin/ls''"
      and parse_object = "\<lambda>_. Some \<lparr>is_64 = True, obj_architecture = Obj_Aarch64\<rparr>"] show ?thesis by auto
qed

text \<open>
  \<^verbatim>\<open>is_elf\<close> answers the opposite of its name: for a computed payload it holds exactly when the
  object parser did \<^emph>\<open>not\<close> recognise the file, and never for a recognised 32- or 64-bit binary.
\<close>

theorem is_elf_computed:
  assumes "compute_payload fs_read parse_object H path = Ok p" and "fs_read path = Ok f"
  shows "is_elf p \<longleftrightarrow> parse_object f = None"
  using assms object_class_Independent [of "parse_object f"]
  by (auto simp: compute_payload_Ok is_elf_def object_class_def split: option.splits)

theorem is_elf_computed_witness:
  "\<not> is_elf \<lparr>primary_identifier = \<lparr>hash = ''04'', algorithm = SHA3512, source = PrimaryPayloadHash\<rparr>,
      additional_identifiers = [], compression_algorithm = LZ4, bitness = Bits64, architecture = I386\<rparr>"
proof -
  let ?H = "\<lparr>Sha256 = \<lambda>_. [], Sha512Trunc256 = \<lambda>_. [], Sha512 = \<lambda>_. [], Sha3_256 = \<lambda>_. [],
    Sha3_512 = \<lambda>_. ''04''\<rparr>"
  let ?obj = "\<lambda>f. if f = ''ELF'' then Some \<lparr>is_64 = True, obj_architecture = Obj_X86_64\<rparr> else None"
  have "compute_payload (\<lambda>_. Ok ''ELF'') ?obj ?H ''bin/ls'' =
    Ok \<lparr>primary_identifier = \<lparr>hash = ''04'', algorithm = SHA3512, source = PrimaryPayloadHash\<rparr>,
      additional_identifiers = [], compression_algorithm = LZ4, bitness = Bits64, architecture = I386\<rparr>"
    by (simp add: compute_payload_Ok object_class_def)
  from is_elf_computed [OF this, of "''ELF''"] show ?thesis by simp
qed

end
