(* ===== verification/Ips_Actions.thy ===== *)
theory Ips_Actions
  imports Ips_Payload
begin

text \<open>
  \<^verbatim>\<open>src/libips/src/actions/mod.rs\<close>, the actions of a package manifest: the untyped \<open>Action\<close> that the parser
  builds, the typed actions (\<open>Dir\<close>, \<open>File\<close>, \<open>Dependency\<close>, \<open>Attr\<close>, \<open>License\<close>, \<open>Link\<close>) and the
  conversions \<^verbatim>\<open>impl From<Action> for ...\<close>, facets (the trait \<^verbatim>\<open>FacetedAction\<close>) and the string helpers at
  the end of the file. Struct fields carry a prefix, since several structs share field names.
\<close>

section \<open>Data\<close>

datatype FileError = FilePathIsNoStringError

datatype ActionError =
    ActPayloadError PayloadError
  | ActFileError FileError
  | NotBooleanValue string
  | ActIOError io_error
  | ActParserError string

text \<open>An error type no operation of the library returns.\<close>

datatype ManifestError =
    UnknownAction nat string
  | InvalidAction nat string string

record Facet =
  facet_name :: string
  facet_value :: string

record Property =
  prop_key :: string
  prop_value :: string

datatype ActionKind =
    Kind_Attr | Kind_Dir | Kind_File | Kind_Dependency | Kind_User | Kind_Group | Kind_Driver
  | Kind_License | Kind_Link | Kind_Legacy | Kind_Unknown string | Kind_Transform

record Action =
  act_kind :: ActionKind
  act_payload :: Payload
  act_payload_string :: string
  act_properties :: "Property list"
  act_facets :: "(string, Facet) HashMap"

definition Action_new :: "ActionKind \<Rightarrow> Action" where
  "Action_new kind = \<lparr>act_kind = kind, act_payload = Payload_default, act_payload_string = [],
     act_properties = [], act_facets = fmempty\<rparr>"

definition ActionKind_default :: ActionKind where
  "ActionKind_default = Kind_Unknown []"

definition Action_default :: Action where
  "Action_default = Action_new ActionKind_default"

record Dir =
  dir_path :: string
  dir_group :: string
  dir_owner :: string
  dir_mode :: string
  dir_revert_tag :: string
  dir_salvage_from :: string
  dir_facets :: "(string, Facet) HashMap"

definition Dir_default :: Dir where
  "Dir_default = \<lparr>dir_path = [], dir_group = [], dir_owner = [], dir_mode = [], dir_revert_tag = [],
     dir_salvage_from = [], dir_facets = fmempty\<rparr>"

record File =
  file_payload :: "Payload option"
  file_path :: string
  file_group :: string
  file_owner :: string
  file_mode :: string
  file_preserve :: bool
  file_overlay :: bool
  file_original_name :: string
  file_revert_tag :: string
  file_sys_attr :: string
  file_properties :: "Property list"
  file_facets :: "(string, Facet) HashMap"

definition File_default :: File where
  "File_default = \<lparr>file_payload = None, file_path = [], file_group = [], file_owner = [], file_mode = [],
     file_preserve = False, file_overlay = False, file_original_name = [], file_revert_tag = [],
     file_sys_attr = [], file_properties = [], file_facets = fmempty\<rparr>"

record Dependency =
  dep_fmri :: string
  dep_dependency_type :: string
  dep_predicate :: string
  dep_root_image :: string
  dep_optional :: "Property list"
  dep_facets :: "(string, Facet) HashMap"

definition Dependency_default :: Dependency where
  "Dependency_default = \<lparr>dep_fmri = [], dep_dependency_type = [], dep_predicate = [],
     dep_root_image = [], dep_optional = [], dep_facets = fmempty\<rparr>"

record Attr =
  attr_key :: string
  attr_values :: "string list"
  attr_properties :: "(string, Property) HashMap"

definition Attr_default :: Attr where
  "Attr_default = \<lparr>attr_key = [], attr_values = [], attr_properties = fmempty\<rparr>"

record License =
  lic_payload :: string
  lic_properties :: "(string, Property) HashMap"

definition License_default :: License where
  "License_default = \<lparr>lic_payload = [], lic_properties = fmempty\<rparr>"

record Link =
  link_path :: string
  link_target :: string
  link_properties :: "(string, Property) HashMap"

definition Link_default :: Link where
  "Link_default = \<lparr>link_path = [], link_target = [], link_properties = fmempty\<rparr>"

section \<open>String helpers\<close>

definition get_action_kind :: "string \<Rightarrow> ActionKind" where
  "get_action_kind act =
     (if act = ''set'' then Kind_Attr
      else if act = ''depend'' then Kind_Dependency
      else if act = ''dir'' then Kind_Dir
      else if act = ''file'' then Kind_File
      else if act = ''license'' then Kind_License
      else if act = ''hardlink'' then Kind_Link
      else if act = ''link'' then Kind_Link
      else if act = ''driver'' then Kind_Driver
      else if act = ''group'' then Kind_Group
      else if act = ''user'' then Kind_User
      else if act = ''legacy'' then Kind_Legacy
      else if act = ''<transform'' then Kind_Transform
      else Kind_Unknown act)"

definition is_facet :: "string \<Rightarrow> bool" where
  "is_facet s = prefix ''facet.'' s"

definition get_facet_key :: "string \<Rightarrow> string" where
  "get_facet_key facet_string =
     (case str_find (CHR ''.'') facet_string of
        Some idx \<Rightarrow> drop (idx + 1) facet_string
      | None \<Rightarrow> facet_string)"

definition Facet_from_key_value :: "string \<Rightarrow> string \<Rightarrow> Facet" where
  "Facet_from_key_value key val = \<lparr>facet_name = get_facet_key key, facet_value = val\<rparr>"

text \<open>\<^verbatim>\<open>replace(['\"', '\\'], "")\<close>: quotes and backslashes are dropped.\<close>

abbreviation unquote :: "string \<Rightarrow> string" where
  "unquote s \<equiv> str_remove [CHR 0x22, CHR 0x5C] s"

text \<open>The two indexings \<^verbatim>\<open>v[0]\<close> and \<^verbatim>\<open>v[1]\<close> are in range once a \<^verbatim>\<open>=\<close> was found.\<close>

definition split_property :: "string \<Rightarrow> string \<times> string" where
  "split_property property_string =
     (case str_find (CHR ''='') property_string of
        Some _ \<Rightarrow>
          (let v = str_split (CHR ''='') property_string in (v ! 0, unquote (v ! 1)))
      | None \<Rightarrow> (property_string, []))"

definition string_to_bool :: "string \<Rightarrow> (bool, ActionError) res" where
  "string_to_bool orig =
     (let s = str_to_lowercase (str_trim orig) in
      if s = ''true'' then Ok True
      else if s = ''false'' then Ok False
      else if s = ''t'' then Ok True
      else if s = ''f'' then Ok False
      else Err (NotBooleanValue orig))"

section \<open>Facets\<close>

definition Action_add_facet :: "Facet \<Rightarrow> Action \<Rightarrow> bool \<times> Action" where
  "Action_add_facet facet a =
     (case hm_insert (facet_name facet) facet (act_facets a) of
        (old, m) \<Rightarrow> (old = None, a\<lparr>act_facets := m\<rparr>))"

definition Action_remove_facet :: "Facet \<Rightarrow> Action \<Rightarrow> bool \<times> Action" where
  "Action_remove_facet facet a =
     (case hm_remove (facet_name facet) (act_facets a) of
        (old, m) \<Rightarrow> (old = Some facet, a\<lparr>act_facets := m\<rparr>))"

definition Dir_add_facet :: "Facet \<Rightarrow> Dir \<Rightarrow> bool \<times> Dir" where
  "Dir_add_facet facet d =
     (case hm_insert (facet_name facet) facet (dir_facets d) of
        (old, m) \<Rightarrow> (old = None, d\<lparr>dir_facets := m\<rparr>))"

definition Dir_remove_facet :: "Facet \<Rightarrow> Dir \<Rightarrow> bool \<times> Dir" where
  "Dir_remove_facet facet d =
     (case hm_remove (facet_name facet) (dir_facets d) of
        (old, m) \<Rightarrow> (old = Some facet, d\<lparr>dir_facets := m\<rparr>))"

definition File_add_facet :: "Facet \<Rightarrow> File \<Rightarrow> bool \<times> File" where
  "File_add_facet facet f =
     (case hm_insert (facet_name facet) facet (file_facets f) of
        (old, m) \<Rightarrow> (old = None, f\<lparr>file_facets := m\<rparr>))"

definition File_remove_facet :: "Facet \<Rightarrow> File \<Rightarrow> bool \<times> File" where
  "File_remove_facet facet f =
     (case hm_remove (facet_name facet) (file_facets f) of
        (old, m) \<Rightarrow> (old = Some facet, f\<lparr>file_facets := m\<rparr>))"

definition Dependency_add_facet :: "Facet \<Rightarrow> Dependency \<Rightarrow> bool \<times> Dependency" where
  "Dependency_add_facet facet d =
     (case hm_insert (facet_name facet) facet (dep_facets d) of
        (old, m) \<Rightarrow> (old = None, d\<lparr>dep_facets := m\<rparr>))"

definition Dependency_remove_facet :: "Facet \<Rightarrow> Dependency \<Rightarrow> bool \<times> Dependency" where
  "Dependency_remove_facet facet d =
     (case hm_remove (facet_name facet) (dep_facets d) of
        (old, m) \<Rightarrow> (old = Some facet, d\<lparr>dep_facets := m\<rparr>))"

section \<open>Conversions from actions\<close>

text \<open>
  The properties a conversion loops over: those of the action and, when the action has a payload string,
  the property that string spells, which comes last.
\<close>

definition push_payload :: "Action \<Rightarrow> Property list" where
  "push_payload act =
     (if act_payload_string act \<noteq> []
      then act_properties act @
        [case split_property (act_payload_string act) of (k, v) \<Rightarrow> \<lparr>prop_key = k, prop_value = v\<rparr>]
      else act_properties act)"

definition dir_step :: "Property \<Rightarrow> Dir \<Rightarrow> Dir" where
  "dir_step prop dir =
     (let k = prop_key prop; v = prop_value prop in
      if k = ''path'' then dir\<lparr>dir_path := v\<rparr>
      else if k = ''owner'' then dir\<lparr>dir_owner := v\<rparr>
      else if k = ''group'' then dir\<lparr>dir_group := v\<rparr>
      else if k = ''mode'' then dir\<lparr>dir_mode := v\<rparr>
      else if k = ''revert-tag'' then dir\<lparr>dir_revert_tag := v\<rparr>
      else if k = ''salvage-from'' then dir\<lparr>dir_salvage_from := v\<rparr>
      else if is_facet k then snd (Dir_add_facet (Facet_from_key_value k v) dir)
      else dir)"

definition Dir_from :: "Action \<Rightarrow> Dir" where
  "Dir_from act = fold dir_step (push_payload act) Dir_default"

definition dep_step :: "Property \<Rightarrow> Dependency \<Rightarrow> Dependency" where
  "dep_step prop dep =
     (let k = prop_key prop; v = prop_value prop in
      if k = ''fmri'' then dep\<lparr>dep_fmri := v\<rparr>
      else if k = ''type'' then dep\<lparr>dep_dependency_type := v\<rparr>
      else if k = ''predicate'' then dep\<lparr>dep_predicate := v\<rparr>
      else if k = ''root-image'' then dep\<lparr>dep_root_image := v\<rparr>
      else if is_facet k then snd (Dependency_add_facet (Facet_from_key_value k v) dep)
      else dep\<lparr>dep_optional := dep_optional dep @ [prop]\<rparr>)"

definition Dependency_from :: "Action \<Rightarrow> Dependency" where
  "Dependency_from act = fold dep_step (push_payload act) Dependency_default"

definition attr_step :: "Property \<Rightarrow> Attr \<Rightarrow> Attr" where
  "attr_step prop attr =
     (let k = prop_key prop; v = prop_value prop in
      if k = ''name'' then attr\<lparr>attr_key := v\<rparr>
      else if k = ''value'' then attr\<lparr>attr_values := attr_values attr @ [v]\<rparr>
      else attr\<lparr>attr_properties :=
        snd (hm_insert k \<lparr>prop_key = k, prop_value = v\<rparr> (attr_properties attr))\<rparr>)"

definition Attr_from :: "Action \<Rightarrow> Attr" where
  "Attr_from act = fold attr_step (push_payload act) Attr_default"

definition lic_step :: "Property \<Rightarrow> License \<Rightarrow> License" where
  "lic_step prop license =
     license\<lparr>lic_properties :=
       snd (hm_insert (prop_key prop) \<lparr>prop_key = prop_key prop, prop_value = prop_value prop\<rparr>
         (lic_properties license))\<rparr>"

definition License_from :: "Action \<Rightarrow> License" where
  "License_from act =
     fold lic_step (act_properties act)
       (if act_payload_string act \<noteq> []
        then License_default\<lparr>lic_payload := act_payload_string act\<rparr> else License_default)"

definition link_step :: "Property \<Rightarrow> Link \<Rightarrow> Link" where
  "link_step prop link =
     (let k = prop_key prop; v = prop_value prop in
      if k = ''path'' then link\<lparr>link_path := v\<rparr>
      else if k = ''target'' then link\<lparr>link_target := v\<rparr>
      else link\<lparr>link_properties :=
        snd (hm_insert k \<lparr>prop_key = k, prop_value = v\<rparr> (link_properties link))\<rparr>)"

definition Link_from :: "Action \<Rightarrow> Link" where
  "Link_from act = fold link_step (push_payload act) Link_default"

text \<open>
  \<^verbatim>\<open>impl From<Action> for File\<close>. The loop carries the file and its payload. A malformed digest, in the
  payload string or in a hash property, makes \<^verbatim>\<open>unwrap\<close> panic.
\<close>

definition bool_or_false :: "string \<Rightarrow> bool" where
  "bool_or_false v = (case string_to_bool v of Ok b \<Rightarrow> b | _ \<Rightarrow> False)"

definition file_step :: "Property \<Rightarrow> File \<times> Payload \<Rightarrow> (File \<times> Payload, ActionError) res" where
  "file_step prop st =
     (let (file, p) = st; k = prop_key prop; v = prop_value prop in
      if k = ''path'' then Ok (file\<lparr>file_path := v\<rparr>, p)
      else if k = ''owner'' then Ok (file\<lparr>file_owner := v\<rparr>, p)
      else if k = ''group'' then Ok (file\<lparr>file_group := v\<rparr>, p)
      else if k = ''mode'' then Ok (file\<lparr>file_mode := v\<rparr>, p)
      else if k = ''revert-tag'' then Ok (file\<lparr>file_revert_tag := v\<rparr>, p)
      else if k = ''original_name'' then Ok (file\<lparr>file_original_name := v\<rparr>, p)
      else if k = ''sysattr'' then Ok (file\<lparr>file_sys_attr := v\<rparr>, p)
      else if k = ''overlay'' then Ok (file\<lparr>file_overlay := bool_or_false v\<rparr>, p)
      else if k = ''preserve'' then Ok (file\<lparr>file_preserve := bool_or_false v\<rparr>, p)
      else if k = ''chash'' \<or> k = ''pkg.content-hash'' then
        res_bind (unwrap (digest_from_str v)) (\<lambda>d.
          Ok (file, p\<lparr>additional_identifiers := additional_identifiers p @ [d]\<rparr>))
      else if is_facet k then Ok (snd (File_add_facet (Facet_from_key_value k v) file), p)
      else Ok (file\<lparr>file_properties := file_properties file @ [\<lparr>prop_key = k, prop_value = v\<rparr>]\<rparr>, p))"

text \<open>What happens to the payload string before the loop: the properties, the file, the payload.\<close>

definition file_payload_string ::
  "Action \<Rightarrow> (Property list \<times> File \<times> Payload, ActionError) res" where
  "file_payload_string act =
     (let ps = act_payload_string act; props = act_properties act; p = act_payload act in
      if ps \<noteq> [] then
        if str_contains (CHR ''/'') ps then
          if str_contains (CHR ''='') ps then
            (case split_property ps of (k, v) \<Rightarrow>
               Ok (props @ [\<lparr>prop_key = k, prop_value = v\<rparr>], File_default, p))
          else
            Ok (props, File_default\<lparr>file_properties :=
              [\<lparr>prop_key = ''original-path'', prop_value = unquote ps\<rparr>]\<rparr>, p)
        else
          res_bind (unwrap (digest_from_str ps)) (\<lambda>d.
            Ok (props, File_default, p\<lparr>primary_identifier := d\<rparr>))
      else Ok (props, File_default, p))"

definition File_from :: "Action \<Rightarrow> (File, ActionError) res" where
  "File_from act =
     res_bind (file_payload_string act) (\<lambda>(props, file0, p0).
       res_bind (fold_res file_step props (file0, p0)) (\<lambda>(file, p).
         Ok (file\<lparr>file_payload := (if hash (primary_identifier p) = [] then None else Some p)\<rparr>)))"

text \<open>\<^verbatim>\<open>File::read_from_path\<close>; \<open>to_str\<close> is \<^verbatim>\<open>Path::to_str\<close>, \<open>None\<close> for a path that is not UTF-8.\<close>

definition File_read_from_path ::
  "(string \<Rightarrow> (Payload, PayloadError) res) \<Rightarrow> (string \<Rightarrow> string option) \<Rightarrow> string
     \<Rightarrow> (File, ActionError) res" where
  "File_read_from_path compute to_str p =
     (case to_str p of
        Some str \<Rightarrow>
          res_bind (map_err ActPayloadError (compute p)) (\<lambda>pl.
            Ok (File_default\<lparr>file_path := str, file_payload := Some pl\<rparr>))
      | None \<Rightarrow> Err (ActFileError FilePathIsNoStringError))"

fun get_original_path_loop :: "Property list \<Rightarrow> string option" where
  "get_original_path_loop [] = None"
| "get_original_path_loop (p # ps) =
     (if prop_key p = ''original-path'' then Some (prop_value p) else get_original_path_loop ps)"

definition get_original_path :: "File \<Rightarrow> string option" where
  "get_original_path f = get_original_path_loop (file_properties f)"

lemma Property_eta [simp]: "\<lparr>prop_key = prop_key p, prop_value = prop_value p\<rparr> = p"
  by (cases p) simp

section \<open>The interface \<^verbatim>\<open>FacetedAction\<close>\<close>

text \<open>
  What the four implementations of the trait promise, over the facets an action holds: adding binds the
  facet's name and tells whether the name was free, removing unbinds the name and tells whether it was
  bound to exactly this facet; nothing else of the action changes. \<open>clear\<close> is the action without its facets.
\<close>

datatype facet_op = Add_Facet Facet | Remove_Facet Facet

fun op_name :: "facet_op \<Rightarrow> string" where
  "op_name (Add_Facet f) = facet_name f"
| "op_name (Remove_Facet f) = facet_name f"

text \<open>What a name is bound to after an operation on it, and what the operation answers.\<close>

fun op_binds :: "facet_op \<Rightarrow> Facet option" where
  "op_binds (Add_Facet f) = Some f"
| "op_binds (Remove_Facet f) = None"

fun op_answer :: "facet_op \<Rightarrow> Facet option \<Rightarrow> bool" where
  "op_answer (Add_Facet f) old \<longleftrightarrow> old = None"
| "op_answer (Remove_Facet f) old \<longleftrightarrow> old = Some f"

text \<open>The last operation on a name decides.\<close>

definition bound_after :: "facet_op list \<Rightarrow> string \<Rightarrow> Facet option \<Rightarrow> Facet option" where
  "bound_after ops n old = (case filter (\<lambda>x. op_name x = n) ops of [] \<Rightarrow> old | xs \<Rightarrow> op_binds (last xs))"

lemma bound_after_Nil [simp]: "bound_after [] n old = old"
  by (simp add: bound_after_def)

lemma bound_after_Cons [simp]:
  "bound_after (x # ops) n old = bound_after ops n (if op_name x = n then op_binds x else old)"
  by (auto simp: bound_after_def split: list.split)

fun run_facet_ops ::
  "(Facet \<Rightarrow> 'a \<Rightarrow> bool \<times> 'a) \<Rightarrow> (Facet \<Rightarrow> 'a \<Rightarrow> bool \<times> 'a) \<Rightarrow> facet_op list \<Rightarrow> 'a \<Rightarrow> bool list \<times> 'a" where
  "run_facet_ops add remove [] a = ([], a)"
| "run_facet_ops add remove (x # ops) a =
     (let (b, a') = (case x of Add_Facet f \<Rightarrow> add f a | Remove_Facet f \<Rightarrow> remove f a);
          (bs, a'') = run_facet_ops add remove ops a'
      in (b # bs, a''))"

text \<open>Every facet is stored under its own name.\<close>

definition facets_keyed :: "(string, Facet) HashMap \<Rightarrow> bool" where
  "facets_keyed fs \<longleftrightarrow> (\<forall>n f. fmlookup fs n = Some f \<longrightarrow> facet_name f = n)"

locale faceted_action =
  fixes facets :: "'a \<Rightarrow> (string, Facet) HashMap"
    and clear :: "'a \<Rightarrow> 'a"
    and add_facet :: "Facet \<Rightarrow> 'a \<Rightarrow> bool \<times> 'a"
    and remove_facet :: "Facet \<Rightarrow> 'a \<Rightarrow> bool \<times> 'a"
  assumes facets_add: "facets (snd (add_facet f a)) = fmupd (facet_name f) f (facets a)"
    and result_add: "fst (add_facet f a) \<longleftrightarrow> fmlookup (facets a) (facet_name f) = None"
    and facets_remove: "facets (snd (remove_facet f a)) = fmdrop (facet_name f) (facets a)"
    and result_remove: "fst (remove_facet f a) \<longleftrightarrow> fmlookup (facets a) (facet_name f) = Some f"
    and clear_add: "clear (snd (add_facet f a)) = clear a"
    and clear_remove: "clear (snd (remove_facet f a)) = clear a"
begin

lemmas contract = facets_add result_add facets_remove result_remove clear_add clear_remove

abbreviation step :: "facet_op \<Rightarrow> 'a \<Rightarrow> bool \<times> 'a" where
  "step x a \<equiv> (case x of Add_Facet f \<Rightarrow> add_facet f a | Remove_Facet f \<Rightarrow> remove_facet f a)"

lemma step_contract:
  "clear (snd (step x a)) = clear a"
  "fst (step x a) \<longleftrightarrow> op_answer x (fmlookup (facets a) (op_name x))"
  "fmlookup (facets (snd (step x a))) n = (if op_name x = n then op_binds x else fmlookup (facets a) n)"
  by (cases x; simp add: contract)+

lemma keyed_step: "facets_keyed (facets a) \<Longrightarrow> facets_keyed (facets (snd (step x a)))"
  by (cases x) (auto simp: facets_keyed_def step_contract(3) simp del: facet_op.case split: if_splits)

lemma run_Cons: "run_facet_ops add_facet remove_facet (x # ops) a =
    (fst (step x a) # fst (run_facet_ops add_facet remove_facet ops (snd (step x a))),
     snd (run_facet_ops add_facet remove_facet ops (snd (step x a))))"
  by (simp add: Let_def split_beta)

lemma run_keyed: "facets_keyed (facets a) \<Longrightarrow> facets_keyed (facets (snd (run_facet_ops add_facet remove_facet ops a)))"
  by (induction ops arbitrary: a) (simp_all add: run_Cons keyed_step del: run_facet_ops.simps(2))

lemma run_facets:
  "clear (snd (run_facet_ops add_facet remove_facet ops a)) = clear a
   \<and> fmlookup (facets (snd (run_facet_ops add_facet remove_facet ops a))) n = bound_after ops n (fmlookup (facets a) n)"
  by (induction ops arbitrary: a) (simp_all add: run_Cons step_contract del: run_facet_ops.simps(2))

lemma run_answers:
  "fst (run_facet_ops add_facet remove_facet ops a) =
     map (\<lambda>k. op_answer (ops ! k) (bound_after (take k ops) (op_name (ops ! k)) (fmlookup (facets a) (op_name (ops ! k)))))
       [0..<length ops]"
proof (induction ops arbitrary: a)
  case (Cons x ops)
  then show ?case
    by (simp add: run_Cons step_contract map_upt_Suc del: run_facet_ops.simps(2) upt_Suc cong: map_cong)
qed simp

lemma remove_after_add: "fst (remove_facet f (snd (add_facet f a)))"
  by (simp add: contract)

end

interpretation act_fa: faceted_action act_facets "\<lambda>a. a\<lparr>act_facets := fmempty\<rparr>" Action_add_facet Action_remove_facet
  by unfold_locales (simp_all add: Action_add_facet_def Action_remove_facet_def hm_insert_def hm_remove_def)

interpretation dir_fa: faceted_action dir_facets "\<lambda>d. d\<lparr>dir_facets := fmempty\<rparr>" Dir_add_facet Dir_remove_facet
  by unfold_locales (simp_all add: Dir_add_facet_def Dir_remove_facet_def hm_insert_def hm_remove_def)

interpretation file_fa: faceted_action file_facets "\<lambda>f. f\<lparr>file_facets := fmempty\<rparr>" File_add_facet File_remove_facet
  by unfold_locales (simp_all add: File_add_facet_def File_remove_facet_def hm_insert_def hm_remove_def)

interpretation dep_fa: faceted_action dep_facets "\<lambda>d. d\<lparr>dep_facets := fmempty\<rparr>" Dependency_add_facet Dependency_remove_facet
  by unfold_locales
    (simp_all add: Dependency_add_facet_def Dependency_remove_facet_def hm_insert_def hm_remove_def)

section \<open>Loops over properties\<close>

text \<open>The value of the last property with a key, or a default.\<close>

definition last_value :: "string \<Rightarrow> 'b \<Rightarrow> (string \<Rightarrow> 'b) \<Rightarrow> Property list \<Rightarrow> 'b" where
  "last_value k d conv ps =
     (case filter (\<lambda>p. prop_key p = k) ps of [] \<Rightarrow> d | qs \<Rightarrow> conv (prop_value (last qs)))"

lemma last_value_Nil [simp]: "last_value k d conv [] = d"
  by (simp add: last_value_def)

lemma last_value_Cons:
  "last_value k d conv (p # ps) =
     last_value k (if prop_key p = k then conv (prop_value p) else d) conv ps"
  by (auto simp: last_value_def split: list.split)

lemma last_value_snoc:
  "last_value k d conv (ps @ [p]) = (if prop_key p = k then conv (prop_value p) else last_value k d conv ps)"
  by (induction ps arbitrary: d) (auto simp: last_value_Cons)

text \<open>
  A loop over properties whose body writes one field for one key and leaves it alone otherwise: the
  last property with that key wins. The body may leave the loop early.
\<close>

locale prop_field =
  fixes step :: "Property \<Rightarrow> 's \<Rightarrow> ('s, 'e) res"
    and field :: "'s \<Rightarrow> 'b"
    and k :: string
    and conv :: "string \<Rightarrow> 'b"
  assumes field_step: "step p s = Ok s' \<Longrightarrow> field s' = (if prop_key p = k then conv (prop_value p) else field s)"
begin

lemma field_loop: "fold_res step ps s = Ok s' \<Longrightarrow> field s' = last_value k (field s) conv ps"
proof (induction ps arbitrary: s)
  case (Cons p ps)
  then obtain t where t: "step p s = Ok t" "fold_res step ps t = Ok s'" by auto
  with Cons.IH show ?case by (simp add: field_step [OF t(1)] last_value_Cons)
qed simp

end

locale prop_field_pure =
  fixes step :: "Property \<Rightarrow> 's \<Rightarrow> 's"
    and field :: "'s \<Rightarrow> 'b"
    and k :: string
    and conv :: "string \<Rightarrow> 'b"
  assumes field_step_pure: "field (step p s) = (if prop_key p = k then conv (prop_value p) else field s)"

sublocale prop_field_pure \<subseteq> loop: prop_field "\<lambda>p s. Ok (step p s)" field k conv
  by unfold_locales (auto simp: field_step_pure)

context prop_field_pure begin

lemma field_fold: "field (fold step ps s) = last_value k (field s) conv ps"
  using loop.field_loop [of ps s "fold step ps s"] by (simp add: fold_res_pure)

end

text \<open>Loops that append to a list field what a property contributes.\<close>

locale prop_append =
  fixes step :: "Property \<Rightarrow> 's \<Rightarrow> ('s, 'e) res"
    and field :: "'s \<Rightarrow> 'b list"
    and out :: "Property \<Rightarrow> 'b list"
  assumes append_step: "step p s = Ok s' \<Longrightarrow> field s' = field s @ out p"
begin

lemma append_loop: "fold_res step ps s = Ok s' \<Longrightarrow> field s' = field s @ concat (map out ps)"
proof (induction ps arbitrary: s)
  case (Cons p ps)
  then obtain t where "step p s = Ok t" "fold_res step ps t = Ok s'" by auto
  with Cons.IH show ?case by (simp add: append_step)
qed simp

end

text \<open>
  Loops that enter a property into a map field under a name computed from its key. \<open>entry\<close> gives the
  name and the value, or nothing.
\<close>

locale prop_map =
  fixes step :: "Property \<Rightarrow> 's \<Rightarrow> ('s, 'e) res"
    and field :: "'s \<Rightarrow> (string, 'b) HashMap"
    and entry :: "Property \<Rightarrow> (string \<times> 'b) option"
  assumes map_step: "step p s = Ok s' \<Longrightarrow>
    field s' = (case entry p of None \<Rightarrow> field s | Some (n, v) \<Rightarrow> fmupd n v (field s))"
begin

lemma map_loop:
  "fold_res step ps s = Ok s' \<Longrightarrow>
   fmlookup (field s') n =
     (case map_of (rev (List.map_filter entry ps)) n of Some v \<Rightarrow> Some v | None \<Rightarrow> fmlookup (field s) n)"
proof (induction ps arbitrary: s)
  case (Cons p ps)
  then obtain t where t: "step p s = Ok t" "fold_res step ps t = Ok s'" by auto
  with Cons.IH show ?case
    by (auto simp: map_step [OF t(1)] List.map_filter_simps map_add_def split: option.splits)
qed simp

end

section \<open>The loops of the conversions\<close>

lemma is_facet_iff: "is_facet k \<longleftrightarrow> (\<exists>n. k = ''facet.'' @ n)"
  by (auto simp: is_facet_def prefix_def)

lemma get_facet_key_facet [simp]: "get_facet_key (''facet.'' @ n) = n"
  by (simp add: get_facet_key_def)

text \<open>A key that is one of the literals the conversions match on is no facet.\<close>

lemma named_key_not_facet [simp]: "k \<noteq> [] \<Longrightarrow> hd k \<noteq> CHR ''f'' \<Longrightarrow> \<not> is_facet k"
  by (auto simp: is_facet_iff)

text \<open>What a facet property contributes to the facet map.\<close>

definition facet_entry :: "Property \<Rightarrow> (string \<times> Facet) option" where
  "facet_entry p =
     (if is_facet (prop_key p)
      then Some (get_facet_key (prop_key p), Facet_from_key_value (prop_key p) (prop_value p)) else None)"

lemma map_of_rev_facets:
  "map_of (rev (List.map_filter facet_entry ps)) n =
     last_value (''facet.'' @ n) None (\<lambda>v. Some \<lparr>facet_name = n, facet_value = v\<rparr>) ps"
proof (induction ps rule: rev_induct)
  case (snoc p ps)
  show ?case
  proof (cases "facet_entry p")
    case None
    then have "prop_key p \<noteq> ''facet.'' @ n" by (auto simp: facet_entry_def is_facet_iff)
    with None snoc show ?thesis by (simp add: last_value_snoc List.map_filter_simps)
  next
    case (Some e)
    then obtain m where "prop_key p = ''facet.'' @ m"
      "e = (m, \<lparr>facet_name = m, facet_value = prop_value p\<rparr>)"
      by (auto simp: facet_entry_def is_facet_iff Facet_from_key_value_def get_facet_key_def split: if_splits)
    with Some snoc show ?thesis by (auto simp: last_value_snoc List.map_filter_simps)
  qed
qed (simp add: List.map_filter_simps)

lemmas dir_step_defs = dir_step_def Let_def Dir_add_facet_def hm_insert_def
lemmas dep_step_defs = dep_step_def Let_def Dependency_add_facet_def hm_insert_def
lemmas link_step_defs = link_step_def Let_def hm_insert_def
lemmas attr_step_defs = attr_step_def Let_def hm_insert_def
lemmas file_step_defs = file_step_def Let_def File_add_facet_def hm_insert_def

interpretation dir_path_loop: prop_field_pure dir_step dir_path "''path''" id
  by unfold_locales (auto simp: dir_step_defs)
interpretation dir_owner_loop: prop_field_pure dir_step dir_owner "''owner''" id
  by unfold_locales (auto simp: dir_step_defs)
interpretation dir_group_loop: prop_field_pure dir_step dir_group "''group''" id
  by unfold_locales (auto simp: dir_step_defs)
interpretation dir_mode_loop: prop_field_pure dir_step dir_mode "''mode''" id
  by unfold_locales (auto simp: dir_step_defs)
interpretation dir_revert_tag_loop: prop_field_pure dir_step dir_revert_tag "''revert-tag''" id
  by unfold_locales (auto simp: dir_step_defs)
interpretation dir_salvage_from_loop: prop_field_pure dir_step dir_salvage_from "''salvage-from''" id
  by unfold_locales (auto simp: dir_step_defs)
interpretation dep_fmri_loop: prop_field_pure dep_step dep_fmri "''fmri''" id
  by unfold_locales (auto simp: dep_step_defs)
interpretation dep_dependency_type_loop: prop_field_pure dep_step dep_dependency_type "''type''" id
  by unfold_locales (auto simp: dep_step_defs)
interpretation dep_predicate_loop: prop_field_pure dep_step dep_predicate "''predicate''" id
  by unfold_locales (auto simp: dep_step_defs)
interpretation dep_root_image_loop: prop_field_pure dep_step dep_root_image "''root-image''" id
  by unfold_locales (auto simp: dep_step_defs)
interpretation link_path_loop: prop_field_pure link_step link_path "''path''" id
  by unfold_locales (auto simp: link_step_defs)
interpretation link_target_loop: prop_field_pure link_step link_target "''target''" id
  by unfold_locales (auto simp: link_step_defs)
interpretation attr_key_loop: prop_field_pure attr_step attr_key "''name''" id
  by unfold_locales (auto simp: attr_step_defs)
interpretation file_path_loop: prop_field file_step "\<lambda>s. file_path (fst s)" "''path''" id
  by unfold_locales (auto simp: file_step_defs split: if_splits)
interpretation file_owner_loop: prop_field file_step "\<lambda>s. file_owner (fst s)" "''owner''" id
  by unfold_locales (auto simp: file_step_defs split: if_splits)
interpretation file_group_loop: prop_field file_step "\<lambda>s. file_group (fst s)" "''group''" id
  by unfold_locales (auto simp: file_step_defs split: if_splits)
interpretation file_mode_loop: prop_field file_step "\<lambda>s. file_mode (fst s)" "''mode''" id
  by unfold_locales (auto simp: file_step_defs split: if_splits)
interpretation file_revert_tag_loop: prop_field file_step "\<lambda>s. file_revert_tag (fst s)" "''revert-tag''" id
  by unfold_locales (auto simp: file_step_defs split: if_splits)
interpretation file_original_name_loop: prop_field file_step "\<lambda>s. file_original_name (fst s)" "''original_name''" id
  by unfold_locales (auto simp: file_step_defs split: if_splits)
interpretation file_sys_attr_loop: prop_field file_step "\<lambda>s. file_sys_attr (fst s)" "''sysattr''" id
  by unfold_locales (auto simp: file_step_defs split: if_splits)
interpretation file_overlay_loop: prop_field file_step "\<lambda>s. file_overlay (fst s)" "''overlay''" bool_or_false
  by unfold_locales (auto simp: file_step_defs split: if_splits)
interpretation file_preserve_loop: prop_field file_step "\<lambda>s. file_preserve (fst s)" "''preserve''" bool_or_false
  by unfold_locales (auto simp: file_step_defs split: if_splits)

interpretation dir_facet_loop: prop_map "\<lambda>p s. Ok (dir_step p s)" dir_facets facet_entry
  by unfold_locales (auto simp: dir_step_defs facet_entry_def Facet_from_key_value_def is_facet_def)

interpretation dep_facet_loop: prop_map "\<lambda>p s. Ok (dep_step p s)" dep_facets facet_entry
  by unfold_locales (auto simp: dep_step_defs facet_entry_def Facet_from_key_value_def is_facet_def)

interpretation file_facet_loop: prop_map file_step "\<lambda>s. file_facets (fst s)" facet_entry
  by unfold_locales
    (auto simp: file_step_defs facet_entry_def Facet_from_key_value_def is_facet_def split: if_splits)

text \<open>Where a property goes that is neither named nor a facet.\<close>

definition plain_props :: "string list \<Rightarrow> Property list \<Rightarrow> Property list" where
  "plain_props named ps = filter (\<lambda>p. prop_key p \<notin> set named \<and> \<not> prefix ''facet.'' (prop_key p)) ps"

abbreviation plain_prop :: "string list \<Rightarrow> Property \<Rightarrow> Property list" where
  "plain_prop named p \<equiv> plain_props named [p]"

lemma concat_plain_prop: "concat (map (plain_prop named) ps) = plain_props named ps"
  by (induction ps) (auto simp: plain_props_def)

definition file_keys :: "string list" where
  "file_keys = [''path'', ''owner'', ''group'', ''mode'', ''revert-tag'', ''original_name'', ''sysattr'',
     ''overlay'', ''preserve'', ''chash'', ''pkg.content-hash'']"

definition dep_keys :: "string list" where
  "dep_keys = [''fmri'', ''type'', ''predicate'', ''root-image'']"

interpretation dep_optional_loop: prop_append "\<lambda>p s. Ok (dep_step p s)" dep_optional "plain_prop dep_keys"
  by unfold_locales (auto simp: dep_step_defs plain_props_def is_facet_def dep_keys_def)

interpretation file_properties_loop: prop_append file_step "\<lambda>s. file_properties (fst s)" "plain_prop file_keys"
  by unfold_locales (auto simp: file_step_defs plain_props_def is_facet_def file_keys_def split: if_splits)

text \<open>The digests of the hash properties.\<close>

definition hash_key :: "string \<Rightarrow> bool" where
  "hash_key k \<longleftrightarrow> k = ''chash'' \<or> k = ''pkg.content-hash''"

definition hash_digests :: "Property list \<Rightarrow> (Digest, DigestError) res list" where
  "hash_digests ps = map (\<lambda>p. digest_from_str (prop_value p)) (filter (\<lambda>p. hash_key (prop_key p)) ps)"

interpretation file_hashes_loop: prop_append file_step "\<lambda>s. map Ok (additional_identifiers (snd s))"
  "\<lambda>p. hash_digests [p]"
  by unfold_locales (auto simp: file_step_defs hash_digests_def hash_key_def split: if_splits)

lemma concat_hash_digests: "concat (map (\<lambda>p. hash_digests [p]) ps) = hash_digests ps"
  by (induction ps) (auto simp: hash_digests_def)

interpretation attr_values_loop: prop_append "\<lambda>p s. Ok (attr_step p s)" attr_values
  "\<lambda>p. if prop_key p = ''value'' then [prop_value p] else []"
  by unfold_locales (auto simp: attr_step_defs)

text \<open>Maps of properties by key, without the named keys.\<close>

definition prop_entry :: "string list \<Rightarrow> Property \<Rightarrow> (string \<times> Property) option" where
  "prop_entry named p = (if prop_key p \<in> set named then None else Some (prop_key p, p))"

lemma map_of_rev_props:
  "map_of (rev (List.map_filter (prop_entry named) ps)) n =
     (if n \<in> set named then None
      else last_value n None (\<lambda>v. Some \<lparr>prop_key = n, prop_value = v\<rparr>) ps)"
proof (induction ps rule: rev_induct)
  case (snoc p ps)
  then show ?case
    by (auto simp: prop_entry_def List.map_filter_simps last_value_snoc)
qed (simp add: List.map_filter_simps)

interpretation attr_props_loop: prop_map "\<lambda>p s. Ok (attr_step p s)" attr_properties
  "prop_entry [''name'', ''value'']"
  by unfold_locales (auto simp: attr_step_defs prop_entry_def)

interpretation link_props_loop: prop_map "\<lambda>p s. Ok (link_step p s)" link_properties
  "prop_entry [''path'', ''target'']"
  by unfold_locales (auto simp: link_step_defs prop_entry_def)

interpretation lic_props_loop: prop_map "\<lambda>p s. Ok (lic_step p s)" lic_properties "prop_entry []"
  by unfold_locales (auto simp: lic_step_def hm_insert_def prop_entry_def)

section \<open>Lemmas about the conversions\<close>

lemma split_property_no_eq: "CHR ''='' \<notin> set s \<Longrightarrow> split_property s = (s, [])"
  by (simp add: split_property_def del: str_find_None)

lemma split_property_eq:
  assumes "CHR ''='' \<notin> set k"
  shows "split_property (k @ CHR ''='' # v) = (k, unquote (hd (str_split (CHR ''='') v)))"
proof -
  obtain p ps where "str_split (CHR ''='') v = p # ps" by (meson neq_Nil_conv str_split_not_Nil)
  with assms show ?thesis by (simp add: split_property_def str_find_append str_split_append)
qed

text \<open>
  The property a payload string spells: the part before the first equals sign, and the part between it and the next
  one without quotes and backslashes.
\<close>

definition spelled_property :: "string \<Rightarrow> Property" where
  "spelled_property s =
     \<lparr>prop_key = takeWhile (\<lambda>c. c \<noteq> CHR ''='') s,
      prop_value = unquote (takeWhile (\<lambda>c. c \<noteq> CHR ''='') (tl (dropWhile (\<lambda>c. c \<noteq> CHR ''='') s)))\<rparr>"

lemma split_property_spelled: "split_property s = (prop_key (spelled_property s), prop_value (spelled_property s))"
proof (cases "CHR ''='' \<in> set s")
  case True
  then obtain k v where s: "s = k @ CHR ''='' # v" and k: "CHR ''='' \<notin> set k" by (meson split_list_first)
  then have "takeWhile (\<lambda>c. c \<noteq> CHR ''='') s = k" "dropWhile (\<lambda>c. c \<noteq> CHR ''='') s = CHR ''='' # v"
    by (auto simp: takeWhile_append dropWhile_append)
  then show ?thesis by (simp add: s split_property_eq [OF k] spelled_property_def hd_str_split)
next
  case False
  then have w: "takeWhile (\<lambda>c. c \<noteq> CHR ''='') s = s" "dropWhile (\<lambda>c. c \<noteq> CHR ''='') s = []"
    by (auto simp: takeWhile_eq_all_conv dropWhile_eq_Nil_conv)
  show ?thesis unfolding spelled_property_def w by (simp add: split_property_no_eq [OF False] str_remove_def)
qed

text \<open>The properties of an action, followed by the one its payload string spells.\<close>

definition all_properties :: "Action \<Rightarrow> Property list" where
  "all_properties act = act_properties act
     @ (if act_payload_string act = [] then [] else [spelled_property (act_payload_string act)])"

lemma push_payload_all: "push_payload act = all_properties act"
  by (simp add: push_payload_def all_properties_def split_property_spelled)

lemma file_step_not_Err: "file_step p s \<noteq> Err e"
  by (cases "digest_from_str (prop_value p)") (auto simp: file_step_def Let_def split: prod.split)

lemma file_step_panic:
  "is_panic (file_step p s) \<longleftrightarrow> hash_key (prop_key p) \<and> (\<forall>d. digest_from_str (prop_value p) \<noteq> Ok d)"
  by (cases "digest_from_str (prop_value p)")
    (auto simp: file_step_def Let_def hash_key_def split: prod.split)

lemma file_loop_panic:
  "is_panic (fold_res file_step ps s) \<longleftrightarrow>
     (\<exists>p \<in> set ps. hash_key (prop_key p) \<and> (\<forall>d. digest_from_str (prop_value p) \<noteq> Ok d))"
proof (induction ps arbitrary: s)
  case (Cons p ps)
  show ?case
  proof (cases "file_step p s")
    case (Ok t)
    then have "\<not> is_panic (file_step p s)" by simp
    then show ?thesis using Ok Cons.IH [of t] unfolding file_step_panic by auto
  next
    case (Panic m)
    then have "is_panic (file_step p s)" by simp
    then show ?thesis using Panic unfolding file_step_panic by auto
  qed (simp add: file_step_not_Err)
qed simp

lemma file_loop_not_Err: "fold_res file_step ps s \<noteq> Err e"
proof (induction ps arbitrary: s)
  case (Cons p ps)
  then show ?case using file_step_not_Err [of p s] by (cases "file_step p s") auto
qed simp

lemma file_loop_primary:
  "fold_res file_step ps s = Ok s' \<Longrightarrow> primary_identifier (snd s') = primary_identifier (snd s)"
  by (erule fold_res_invariant [where P = "\<lambda>t. primary_identifier (snd t) = primary_identifier (snd s)"])
    (auto simp: file_step_def Let_def split: if_splits prod.splits)

lemma file_loop_panic_digests: "is_panic (fold_res file_step ps s) \<longleftrightarrow> list_ex is_err (hash_digests ps)"
  by (auto simp: file_loop_panic hash_digests_def list_ex_iff digest_from_str_err)

text \<open>How a file action's payload string is read.\<close>

datatype payload_form = No_Payload | Payload_Property string string | Original_Path string | Payload_Digest string

definition payload_form_of :: "Action \<Rightarrow> payload_form" where
  "payload_form_of act =
     (let ps = act_payload_string act in
      if ps = [] then No_Payload
      else if CHR ''/'' \<notin> set ps then Payload_Digest ps
      else if CHR ''='' \<in> set ps then Payload_Property (prop_key (spelled_property ps)) (prop_value (spelled_property ps))
      else Original_Path (unquote ps))"

definition form_properties :: "payload_form \<Rightarrow> Property list" where
  "form_properties fm =
     (case fm of Payload_Property k v \<Rightarrow> [\<lparr>prop_key = k, prop_value = v\<rparr>] | _ \<Rightarrow> [])"

definition form_originals :: "payload_form \<Rightarrow> Property list" where
  "form_originals fm =
     (case fm of Original_Path p \<Rightarrow> [\<lparr>prop_key = ''original-path'', prop_value = p\<rparr>] | _ \<Rightarrow> [])"

definition form_digest :: "Payload \<Rightarrow> payload_form \<Rightarrow> (Digest, DigestError) res" where
  "form_digest pl fm =
     (case fm of Payload_Digest d \<Rightarrow> digest_from_str d | _ \<Rightarrow> Ok (primary_identifier pl))"

lemma file_payload_string_form:
  "file_payload_string act =
     res_bind (unwrap (form_digest (act_payload act) (payload_form_of act))) (\<lambda>d.
       Ok (act_properties act @ form_properties (payload_form_of act),
           File_default\<lparr>file_properties := form_originals (payload_form_of act)\<rparr>,
           act_payload act\<lparr>primary_identifier := d\<rparr>))"
proof -
  have "File_default\<lparr>file_properties := []\<rparr> = File_default" by (simp add: File_default_def)
  then show ?thesis
    by (auto simp: file_payload_string_def payload_form_of_def form_properties_def form_originals_def
        form_digest_def Let_def split_property_spelled split: prod.split)
qed

lemma form_digest_no_panic: "\<not> is_panic (form_digest pl fm)"
  by (simp add: form_digest_def digest_from_str_no_panic split: payload_form.split)

lemma File_from_panic:
  "is_panic (File_from act) \<longleftrightarrow>
     is_err (form_digest (act_payload act) (payload_form_of act))
     \<or> list_ex is_err (hash_digests (act_properties act @ form_properties (payload_form_of act)))"
proof (cases "form_digest (act_payload act) (payload_form_of act)")
  case (Ok d)
  then show ?thesis
    by (simp add: File_from_def file_payload_string_form is_panic_bind file_loop_panic_digests split: prod.split)
next
  case (Panic m)
  then show ?thesis using form_digest_no_panic [of "act_payload act" "payload_form_of act"] by simp
qed (simp add: File_from_def file_payload_string_form)

text \<open>A file action with a malformed digest: as its payload string, or as the value of a hash property.\<close>

definition malformed_file :: "Action \<Rightarrow> bool" where
  "malformed_file act \<longleftrightarrow>
     (case payload_form_of act of Payload_Digest d \<Rightarrow> malformed_digest d | _ \<Rightarrow> False)
     \<or> list_ex (\<lambda>p. (prop_key p = ''chash'' \<or> prop_key p = ''pkg.content-hash'') \<and> malformed_digest (prop_value p))
         (act_properties act @ form_properties (payload_form_of act))"

lemma File_from_malformed: "is_panic (File_from act) \<longleftrightarrow> malformed_file act"
proof -
  have "list_ex is_err (hash_digests ps) \<longleftrightarrow>
      list_ex (\<lambda>p. (prop_key p = ''chash'' \<or> prop_key p = ''pkg.content-hash'') \<and> malformed_digest (prop_value p)) ps" for ps
    by (auto simp: hash_digests_def hash_key_def list_ex_iff digest_malformed)
  moreover have "is_err (form_digest (act_payload act) fm) \<longleftrightarrow>
      (case fm of Payload_Digest d \<Rightarrow> malformed_digest d | _ \<Rightarrow> False)" for fm
    by (simp add: form_digest_def digest_malformed split: payload_form.split)
  ultimately show ?thesis unfolding malformed_file_def File_from_panic by blast
qed

lemma File_from_no_err: "\<not> is_err (File_from act)"
proof -
  have "\<not> is_err (res_bind (fold_res file_step ps s) (\<lambda>(x, p). Ok (k x p)))" for ps s and k :: "File \<Rightarrow> Payload \<Rightarrow> File"
    using file_loop_not_Err [of ps s] by (cases "fold_res file_step ps s") auto
  then show ?thesis
    by (cases "form_digest (act_payload act) (payload_form_of act)")
      (auto simp: File_from_def file_payload_string_form)
qed

lemma Link_from_spec:
  "link_path (Link_from act) = last_value ''path'' [] id (push_payload act)"
  "link_target (Link_from act) = last_value ''target'' [] id (push_payload act)"
  "fmlookup (link_properties (Link_from act)) n =
     (if n = ''path'' \<or> n = ''target'' then None
      else last_value n None (\<lambda>v. Some \<lparr>prop_key = n, prop_value = v\<rparr>) (push_payload act))"
  using link_props_loop.map_loop [of "push_payload act" Link_default "Link_from act" n]
  by (simp_all add: Link_from_def link_path_loop.field_fold link_target_loop.field_fold fold_res_pure
      map_of_rev_props Link_default_def split: option.splits if_splits)

lemma concat_values:
  "concat (map (\<lambda>p. if prop_key p = ''value'' then [prop_value p] else []) ps) =
     map prop_value (filter (\<lambda>p. prop_key p = ''value'') ps)"
  by (induction ps) auto

lemma Attr_from_spec:
  "attr_key (Attr_from act) = last_value ''name'' [] id (push_payload act)"
  "attr_values (Attr_from act) = map prop_value (filter (\<lambda>p. prop_key p = ''value'') (push_payload act))"
  "fmlookup (attr_properties (Attr_from act)) n =
     (if n = ''name'' \<or> n = ''value'' then None
      else last_value n None (\<lambda>v. Some \<lparr>prop_key = n, prop_value = v\<rparr>) (push_payload act))"
  using attr_props_loop.map_loop [of "push_payload act" Attr_default "Attr_from act" n]
    attr_values_loop.append_loop [of "push_payload act" Attr_default "Attr_from act"]
  by (simp_all add: Attr_from_def attr_key_loop.field_fold fold_res_pure concat_values
      map_of_rev_props Attr_default_def split: option.splits if_splits)

lemma lic_payload_fold: "lic_payload (fold lic_step ps l) = lic_payload l"
  by (induction ps arbitrary: l) (auto simp: lic_step_def)

lemma License_from_spec:
  "lic_payload (License_from act) = act_payload_string act"
  "fmlookup (lic_properties (License_from act)) n =
     last_value n None (\<lambda>v. Some \<lparr>prop_key = n, prop_value = v\<rparr>) (act_properties act)"
  using lic_props_loop.map_loop [of "act_properties act" "if act_payload_string act \<noteq> []
    then License_default\<lparr>lic_payload := act_payload_string act\<rparr> else License_default" "License_from act" n]
  by (simp_all add: License_from_def lic_payload_fold fold_res_pure map_of_rev_props License_default_def
      split: option.splits if_splits)

lemma Dir_from_spec:
  "dir_path (Dir_from act) = last_value ''path'' [] id (push_payload act)
   \<and> dir_owner (Dir_from act) = last_value ''owner'' [] id (push_payload act)
   \<and> dir_group (Dir_from act) = last_value ''group'' [] id (push_payload act)
   \<and> dir_mode (Dir_from act) = last_value ''mode'' [] id (push_payload act)
   \<and> dir_revert_tag (Dir_from act) = last_value ''revert-tag'' [] id (push_payload act)
   \<and> dir_salvage_from (Dir_from act) = last_value ''salvage-from'' [] id (push_payload act)
   \<and> (\<forall>n. fmlookup (dir_facets (Dir_from act)) n =
          last_value (''facet.'' @ n) None (\<lambda>v. Some \<lparr>facet_name = n, facet_value = v\<rparr>) (push_payload act))"
  using dir_facet_loop.map_loop [of "push_payload act" Dir_default "Dir_from act"]
  by (simp add: Dir_from_def dir_path_loop.field_fold dir_owner_loop.field_fold dir_group_loop.field_fold
      dir_mode_loop.field_fold dir_revert_tag_loop.field_fold dir_salvage_from_loop.field_fold
      fold_res_pure map_of_rev_facets Dir_default_def split: option.splits)

lemma Dependency_from_spec:
  "dep_fmri (Dependency_from act) = last_value ''fmri'' [] id (push_payload act)
   \<and> dep_dependency_type (Dependency_from act) = last_value ''type'' [] id (push_payload act)
   \<and> dep_predicate (Dependency_from act) = last_value ''predicate'' [] id (push_payload act)
   \<and> dep_root_image (Dependency_from act) = last_value ''root-image'' [] id (push_payload act)
   \<and> dep_optional (Dependency_from act) = plain_props dep_keys (push_payload act)
   \<and> (\<forall>n. fmlookup (dep_facets (Dependency_from act)) n =
          last_value (''facet.'' @ n) None (\<lambda>v. Some \<lparr>facet_name = n, facet_value = v\<rparr>) (push_payload act))"
  using dep_facet_loop.map_loop [of "push_payload act" Dependency_default "Dependency_from act"]
    dep_optional_loop.append_loop [of "push_payload act" Dependency_default "Dependency_from act"]
  by (simp add: Dependency_from_def dep_fmri_loop.field_fold dep_dependency_type_loop.field_fold
      dep_predicate_loop.field_fold dep_root_image_loop.field_fold concat_plain_prop
      fold_res_pure map_of_rev_facets Dependency_default_def split: option.splits)

lemma File_from_spec:
  assumes "File_from act = Ok f"
    and "props = act_properties act @ form_properties (payload_form_of act)"
  shows "file_path f = last_value ''path'' [] id props
   \<and> file_owner f = last_value ''owner'' [] id props
   \<and> file_group f = last_value ''group'' [] id props
   \<and> file_mode f = last_value ''mode'' [] id props
   \<and> file_revert_tag f = last_value ''revert-tag'' [] id props
   \<and> file_original_name f = last_value ''original_name'' [] id props
   \<and> file_sys_attr f = last_value ''sysattr'' [] id props
   \<and> file_overlay f = last_value ''overlay'' False bool_or_false props
   \<and> file_preserve f = last_value ''preserve'' False bool_or_false props
   \<and> file_properties f = form_originals (payload_form_of act) @ plain_props file_keys props
   \<and> (\<forall>n. fmlookup (file_facets f) n =
          last_value (''facet.'' @ n) None (\<lambda>v. Some \<lparr>facet_name = n, facet_value = v\<rparr>) props)
   \<and> (case file_payload f of
        None \<Rightarrow> \<exists>d. form_digest (act_payload act) (payload_form_of act) = Ok d \<and> hash d = []
      | Some p \<Rightarrow> Ok (primary_identifier p) = form_digest (act_payload act) (payload_form_of act)
          \<and> hash (primary_identifier p) \<noteq> []
          \<and> map Ok (additional_identifiers p) =
              map Ok (additional_identifiers (act_payload act)) @ hash_digests props)"
proof -
  obtain d st where d: "form_digest (act_payload act) (payload_form_of act) = Ok d"
    and loop: "fold_res file_step props (File_default\<lparr>file_properties := form_originals (payload_form_of act)\<rparr>,
      act_payload act\<lparr>primary_identifier := d\<rparr>) = Ok st"
    and f: "f = (fst st)\<lparr>file_payload := (if hash (primary_identifier (snd st)) = [] then None else Some (snd st))\<rparr>"
    using assms by (auto simp: File_from_def file_payload_string_form)
  note loops = file_path_loop.field_loop [OF loop] file_owner_loop.field_loop [OF loop]
    file_group_loop.field_loop [OF loop] file_mode_loop.field_loop [OF loop]
    file_revert_tag_loop.field_loop [OF loop] file_original_name_loop.field_loop [OF loop]
    file_sys_attr_loop.field_loop [OF loop] file_overlay_loop.field_loop [OF loop]
    file_preserve_loop.field_loop [OF loop] file_properties_loop.append_loop [OF loop]
    file_facet_loop.map_loop [OF loop] file_hashes_loop.append_loop [OF loop] file_loop_primary [OF loop]
  show ?thesis
    using loops d
    by (simp add: f concat_plain_prop concat_hash_digests map_of_rev_facets File_default_def
        split: option.splits)
qed

section \<open>Properties\<close>

text \<open>
  C25: converting directory, dependency, link, attribute and license actions. Every attribute of the result is the
  value of the last property with its key, the payload string counting as the last property of all; every facet name is bound to
  the value of the last property \<^verbatim>\<open>facet.NAME\<close>. Of a dependency every property that is neither a known attribute nor
  a facet is kept, in order, among the optional ones; of a directory such properties have no effect. The values of an
  attribute action are all kept in order, every other property of it and of a link can be looked up under its key
  with its last value, and a license keeps its payload string as it is.
\<close>

theorem plain_actions_from_correct:
  "dir_path (Dir_from act) = last_value ''path'' [] id (all_properties act)
   \<and> dir_owner (Dir_from act) = last_value ''owner'' [] id (all_properties act)
   \<and> dir_group (Dir_from act) = last_value ''group'' [] id (all_properties act)
   \<and> dir_mode (Dir_from act) = last_value ''mode'' [] id (all_properties act)
   \<and> dir_revert_tag (Dir_from act) = last_value ''revert-tag'' [] id (all_properties act)
   \<and> dir_salvage_from (Dir_from act) = last_value ''salvage-from'' [] id (all_properties act)
   \<and> (\<forall>n. fmlookup (dir_facets (Dir_from act)) n =
          last_value (''facet.'' @ n) None (\<lambda>v. Some \<lparr>facet_name = n, facet_value = v\<rparr>) (all_properties act))
   \<and> dep_fmri (Dependency_from act) = last_value ''fmri'' [] id (all_properties act)
   \<and> dep_dependency_type (Dependency_from act) = last_value ''type'' [] id (all_properties act)
   \<and> dep_predicate (Dependency_from act) = last_value ''predicate'' [] id (all_properties act)
   \<and> dep_root_image (Dependency_from act) = last_value ''root-image'' [] id (all_properties act)
   \<and> dep_optional (Dependency_from act) = plain_props dep_keys (all_properties act)
   \<and> (\<forall>n. fmlookup (dep_facets (Dependency_from act)) n =
          last_value (''facet.'' @ n) None (\<lambda>v. Some \<lparr>facet_name = n, facet_value = v\<rparr>) (all_properties act))
   \<and> link_path (Link_from act) = last_value ''path'' [] id (all_properties act)
   \<and> link_target (Link_from act) = last_value ''target'' [] id (all_properties act)
   \<and> (\<forall>n. fmlookup (link_properties (Link_from act)) n =
        (if n = ''path'' \<or> n = ''target'' then None
         else last_value n None (\<lambda>v. Some \<lparr>prop_key = n, prop_value = v\<rparr>) (all_properties act)))
   \<and> attr_key (Attr_from act) = last_value ''name'' [] id (all_properties act)
   \<and> attr_values (Attr_from act) =
        map prop_value (filter (\<lambda>p. prop_key p = ''value'') (all_properties act))
   \<and> (\<forall>n. fmlookup (attr_properties (Attr_from act)) n =
        (if n = ''name'' \<or> n = ''value'' then None
         else last_value n None (\<lambda>v. Some \<lparr>prop_key = n, prop_value = v\<rparr>) (all_properties act)))
   \<and> lic_payload (License_from act) = act_payload_string act
   \<and> (\<forall>n. fmlookup (lic_properties (License_from act)) n =
        last_value n None (\<lambda>v. Some \<lparr>prop_key = n, prop_value = v\<rparr>) (act_properties act))"
  unfolding push_payload_all [symmetric]
  by (simp only: Dir_from_spec Dependency_from_spec Link_from_spec Attr_from_spec License_from_spec simp_thms)

definition sample_dir_action :: Action where
  "sample_dir_action = (Action_new Kind_Dir)\<lparr>
     act_properties := [\<lparr>prop_key = ''path'', prop_value = ''usr''\<rparr>, \<lparr>prop_key = ''mode'', prop_value = ''0755''\<rparr>],
     act_payload_string := ''path=bin=x''\<rparr>"

theorem plain_actions_from_correct_witness:
  "dir_path (Dir_from sample_dir_action) = ''bin'' \<and> dir_mode (Dir_from sample_dir_action) = ''0755''
   \<and> attr_values (Attr_from sample_dir_action) = [] \<and> lic_payload (License_from sample_dir_action) = ''path=bin=x''"
proof -
  have "all_properties sample_dir_action =
      [\<lparr>prop_key = ''path'', prop_value = ''usr''\<rparr>, \<lparr>prop_key = ''mode'', prop_value = ''0755''\<rparr>,
       \<lparr>prop_key = ''path'', prop_value = ''bin''\<rparr>]" by code_simp
  with plain_actions_from_correct [of sample_dir_action] show ?thesis
    by (simp add: last_value_def) (simp add: sample_dir_action_def)
qed

text \<open>
  C13: converting a file action that does not panic. The payload string is a digest when it has no slash,
  a further property when it has a slash and an equals sign, and the original path otherwise. Attributes
  and facets are as for directories, with unreadable booleans read as false; hash properties go, in
  order, to the payload's additional identifiers; the remaining properties are kept in order after the
  original path; and the file has a payload exactly when the primary hash is not empty.
\<close>

theorem File_from_correct:
  assumes "File_from act = Ok f"
    and "props = act_properties act @ form_properties (payload_form_of act)"
  shows "file_path f = last_value ''path'' [] id props
   \<and> file_owner f = last_value ''owner'' [] id props
   \<and> file_group f = last_value ''group'' [] id props
   \<and> file_mode f = last_value ''mode'' [] id props
   \<and> file_revert_tag f = last_value ''revert-tag'' [] id props
   \<and> file_original_name f = last_value ''original_name'' [] id props
   \<and> file_sys_attr f = last_value ''sysattr'' [] id props
   \<and> file_overlay f = last_value ''overlay'' False bool_or_false props
   \<and> file_preserve f = last_value ''preserve'' False bool_or_false props
   \<and> file_properties f = form_originals (payload_form_of act) @ plain_props file_keys props
   \<and> (\<forall>n. fmlookup (file_facets f) n =
          last_value (''facet.'' @ n) None (\<lambda>v. Some \<lparr>facet_name = n, facet_value = v\<rparr>) props)
   \<and> (case file_payload f of
        None \<Rightarrow> \<exists>d. form_digest (act_payload act) (payload_form_of act) = Ok d \<and> hash d = []
      | Some p \<Rightarrow> Ok (primary_identifier p) = form_digest (act_payload act) (payload_form_of act)
          \<and> hash (primary_identifier p) \<noteq> []
          \<and> map Ok (additional_identifiers p) =
              map Ok (additional_identifiers (act_payload act)) @ hash_digests props)"
  using assms by (rule File_from_spec)

text \<open>The first file action of the repository's test \<^verbatim>\<open>parse_file_actions\<close>, shortened.\<close>

definition sample_file_action :: Action where
  "sample_file_action = (Action_new Kind_File)\<lparr>act_payload_string := ''4b76e83b'', act_properties :=
     [\<lparr>prop_key = ''chash'', prop_value = ''7288afc7''\<rparr>,
      \<lparr>prop_key = ''group'', prop_value = ''bin''\<rparr>,
      \<lparr>prop_key = ''path'', prop_value = ''lib/svc/method/http-nginx''\<rparr>,
      \<lparr>prop_key = ''preserve'', prop_value = '' True ''\<rparr>,
      \<lparr>prop_key = ''pkg.content-hash'', prop_value = ''file:sha512t_256:42007aae''\<rparr>,
      \<lparr>prop_key = ''pkg.size'', prop_value = ''1855''\<rparr>]\<rparr>"

lemma sample_file_digests:
  "digest_from_str ''7288afc7'' = Ok \<lparr>hash = ''7288afc7'', algorithm = SHA1, source = PrimaryPayloadHash\<rparr>"
  "digest_from_str ''4b76e83b'' = Ok \<lparr>hash = ''4b76e83b'', algorithm = SHA1, source = PrimaryPayloadHash\<rparr>"
  "digest_from_str ''file:sha512t_256:42007aae'' =
     Ok \<lparr>hash = ''42007aae'', algorithm = SHA512Half, source = UncompressedFile\<rparr>"
  by (simp_all add: digest_from_str_def source_try_from_def algorithm_try_from_def)

lemma sample_bool: "bool_or_false '' True ''"
  by code_simp

lemma sample_file_form: "payload_form_of sample_file_action = Payload_Digest ''4b76e83b''"
  by (simp add: payload_form_of_def sample_file_action_def Action_new_def)

lemma sample_file_hashes:
  "hash_digests (act_properties sample_file_action) =
     [Ok \<lparr>hash = ''7288afc7'', algorithm = SHA1, source = PrimaryPayloadHash\<rparr>,
      Ok \<lparr>hash = ''42007aae'', algorithm = SHA512Half, source = UncompressedFile\<rparr>]"
  by (simp add: hash_digests_def hash_key_def sample_file_action_def Action_new_def sample_file_digests)

lemma sample_file_ok: "\<exists>f. File_from sample_file_action = Ok f"
  by (rule res_total)
    (simp_all add: File_from_panic File_from_no_err sample_file_form form_digest_def form_properties_def
      sample_file_hashes sample_file_digests)

theorem File_from_correct_witness:
  "\<exists>f. File_from sample_file_action = Ok f
     \<and> file_path f = ''lib/svc/method/http-nginx'' \<and> file_group f = ''bin'' \<and> file_preserve f
     \<and> file_properties f = [\<lparr>prop_key = ''pkg.size'', prop_value = ''1855''\<rparr>]
     \<and> (\<exists>p. file_payload f = Some p \<and> hash (primary_identifier p) = ''4b76e83b''
          \<and> map hash (additional_identifiers p) = [''7288afc7'', ''42007aae''])"
proof -
  obtain f where f: "File_from sample_file_action = Ok f" using sample_file_ok by blast
  have hs: "map Ok xs = [Ok d, Ok e :: (Digest, DigestError) res] \<Longrightarrow> map hash xs = [hash d, hash e]"
    for xs and d e by auto
  note spec = File_from_correct [OF f refl, unfolded sample_file_form form_properties_def form_originals_def
      form_digest_def payload_form.case append_Nil append_Nil2 sample_file_hashes]
  have a: "file_path f = ''lib/svc/method/http-nginx''" "file_group f = ''bin''" "file_preserve f"
    "file_properties f = [\<lparr>prop_key = ''pkg.size'', prop_value = ''1855''\<rparr>]"
    using spec by (simp_all add: last_value_def plain_props_def file_keys_def is_facet_def
        sample_bool sample_file_action_def Action_new_def)
  have b: "\<exists>p. file_payload f = Some p \<and> hash (primary_identifier p) = ''4b76e83b''
      \<and> map hash (additional_identifiers p) = [''7288afc7'', ''42007aae'']"
    using spec hs by (auto simp: sample_file_digests sample_file_action_def Action_new_def
        Payload_default_def split: option.splits)
  show ?thesis by (intro exI [of _ f] conjI) (rule f a b)+
qed

text \<open>
  Exactly when converting a file action panics: the payload string is a digest that does not parse, or
  a property \<^verbatim>\<open>chash\<close> or \<^verbatim>\<open>pkg.content-hash\<close> holds one. In every other case there is a file; an error
  value is never returned.
\<close>

lemma File_from_outcome:
  "(is_panic (File_from act) \<longleftrightarrow>
      is_err (form_digest (act_payload act) (payload_form_of act))
      \<or> list_ex is_err (hash_digests (act_properties act @ form_properties (payload_form_of act))))
   \<and> (is_panic (File_from act) \<or> (\<exists>f. File_from act = Ok f))"
  using File_from_panic [of act] res_total [OF _ File_from_no_err] by blast

text \<open>What a run of operations promises.\<close>

definition tracks_facets ::
  "('a \<Rightarrow> (string, Facet) HashMap) \<Rightarrow> ('a \<Rightarrow> 'a) \<Rightarrow> (Facet \<Rightarrow> 'a \<Rightarrow> bool \<times> 'a) \<Rightarrow> (Facet \<Rightarrow> 'a \<Rightarrow> bool \<times> 'a)
     \<Rightarrow> facet_op list \<Rightarrow> 'a \<Rightarrow> bool" where
  "tracks_facets facets clear add remove ops a \<longleftrightarrow>
     (let (answers, a') = run_facet_ops add remove ops a in
        (\<forall>n. fmlookup (facets a') n = bound_after ops n (fmlookup (facets a) n))
        \<and> answers = map (\<lambda>k. op_answer (ops ! k) (bound_after (take k ops) (op_name (ops ! k))
             (fmlookup (facets a) (op_name (ops ! k))))) [0..<length ops]
        \<and> (facets_keyed (facets a) \<longrightarrow> facets_keyed (facets a'))
        \<and> clear a' = clear a)"

text \<open>
  C26: the four implementations of \<^verbatim>\<open>FacetedAction\<close>, for every sequence of additions and removals. Afterwards a
  facet name is bound as the last operation on it says, to the facet added or to nothing, and as before if there
  was none. Each addition answers whether the name was free at that moment, each removal whether the name was bound
  to exactly the given facet (the name is unbound in either case). Facets stay under their own names, and nothing
  else of the action changes.
\<close>

theorem faceted_actions_correct:
  "tracks_facets act_facets (\<lambda>a. a\<lparr>act_facets := fmempty\<rparr>) Action_add_facet Action_remove_facet ops act
   \<and> tracks_facets dir_facets (\<lambda>d. d\<lparr>dir_facets := fmempty\<rparr>) Dir_add_facet Dir_remove_facet ops dir
   \<and> tracks_facets file_facets (\<lambda>f. f\<lparr>file_facets := fmempty\<rparr>) File_add_facet File_remove_facet ops fil
   \<and> tracks_facets dep_facets (\<lambda>d. d\<lparr>dep_facets := fmempty\<rparr>) Dependency_add_facet Dependency_remove_facet ops dep"
  unfolding tracks_facets_def Let_def split_beta
  by (simp add: act_fa.run_facets act_fa.run_answers act_fa.run_keyed dir_fa.run_facets dir_fa.run_answers dir_fa.run_keyed
      file_fa.run_facets file_fa.run_answers file_fa.run_keyed dep_fa.run_facets dep_fa.run_answers dep_fa.run_keyed)

theorem faceted_actions_correct_witness:
  "fst (run_facet_ops Dir_add_facet Dir_remove_facet
      [Add_Facet \<lparr>facet_name = ''doc'', facet_value = ''true''\<rparr>, Add_Facet \<lparr>facet_name = ''doc'', facet_value = ''false''\<rparr>,
       Remove_Facet \<lparr>facet_name = ''doc'', facet_value = ''true''\<rparr>, Remove_Facet \<lparr>facet_name = ''doc'', facet_value = ''false''\<rparr>]
      Dir_default) = [True, False, False, False]"
  (is "fst (run_facet_ops _ _ ?ops _) = _")
proof -
  have "tracks_facets dir_facets (\<lambda>d. d\<lparr>dir_facets := fmempty\<rparr>) Dir_add_facet Dir_remove_facet ?ops Dir_default"
    using faceted_actions_correct [where ops = ?ops and dir = Dir_default] by blast
  then show ?thesis
    unfolding tracks_facets_def Let_def split_beta by (simp add: Dir_default_def upt_rec)
qed

end
