(* ===== verification/Pest_Grammar.thy ===== *)
theory Pest_Grammar
  imports Rust_Strings
begin

text \<open>
  The interface between the program and the parsers that \<^verbatim>\<open>pest_derive\<close> generates from the four grammar
  files under \<^verbatim>\<open>src/\<close> (\<^verbatim>\<open>manifest.pest\<close>, \<^verbatim>\<open>makefile.pest\<close>, \<^verbatim>\<open>specfile.pest\<close>, \<^verbatim>\<open>macro.pest\<close>).

  The generated code is not part of the repository, so a parser is a parameter \<open>parse\<close> of the models
  that call it. What a grammar file says is data here (\<open>pexp\<close>, \<open>grammar\<close>), and what the
  tree walkers rely on is the locale \<open>pest_parser\<close>: a successful parse is a derivation of the grammar
  (\<open>derives\<close>), that is, rules produce token pairs as their modifiers say (a silent rule none, an atomic
  rule one without children) and the pairs' texts are what the rule's expression matched.

  \<open>peg\<close> is a reference reading of the documented semantics of pest (ordered choice, greedy repetition,
  implicit whitespace and comments outside atomic rules). It shows that the interface can be
  implemented, for every grammar, and evaluates the grammars on concrete inputs.
\<close>

section \<open>Grammars as data\<close>

text \<open>
  Expressions of a \<^verbatim>\<open>.pest\<close> file. \<open>Cls\<close> is a built-in character class: how many bytes of the input
  the class matches, 0 for no match. \<open>Tail e\<close> does not occur in grammar files: it is what remains of
  a repetition after its first round.
\<close>

datatype 'r pexp =
    Lit string
  | Cls "string \<Rightarrow> nat"
  | Soi
  | Eoi
  | Rule 'r
  | Seq "'r pexp" "'r pexp"
  | Alt "'r pexp" "'r pexp"
  | Opt "'r pexp"
  | Star "'r pexp"
  | Tail "'r pexp"
  | Not "'r pexp"

text \<open>\<^verbatim>\<open>e+\<close> is \<^verbatim>\<open>e ~ e*\<close>.\<close>

abbreviation Plus :: "'r pexp \<Rightarrow> 'r pexp" where
  "Plus e \<equiv> Seq e (Star e)"

fun seqs :: "'r pexp list \<Rightarrow> 'r pexp" where
  "seqs [] = Lit []"
| "seqs [e] = e"
| "seqs (e # es) = Seq e (seqs es)"

fun alts :: "'r pexp list \<Rightarrow> 'r pexp" where
  "alts [] = Not (Lit [])"
| "alts [e] = e"
| "alts (e # es) = Alt e (alts es)"

text \<open>Rule modifiers: none, \<^verbatim>\<open>_\<close> and \<^verbatim>\<open>@\<close>.\<close>

datatype rule_ty = Normal | Silent | Atomic

record 'r grammar =
  rule_ty :: "'r \<Rightarrow> rule_ty"
  rule_body :: "'r \<Rightarrow> 'r pexp"
  skip :: "'r pexp"
  eoi :: 'r

text \<open>A token pair: \<^verbatim>\<open>as_rule()\<close>, \<^verbatim>\<open>as_str()\<close> and \<^verbatim>\<open>into_inner()\<close>.\<close>

datatype 'r pair = Pair (as_rule: 'r) (as_str: string) (into_inner: "'r pair list")

section \<open>Built-in classes\<close>

definition byte_class :: "(nat \<Rightarrow> bool) \<Rightarrow> string \<Rightarrow> nat" where
  "byte_class P s = (case s of [] \<Rightarrow> 0 | c # _ \<Rightarrow> (if P (of_char c) then 1 else 0))"

definition char_range :: "char \<Rightarrow> char \<Rightarrow> string \<Rightarrow> nat" where
  "char_range a b = byte_class (\<lambda>n. of_char a \<le> n \<and> n \<le> of_char b)"

definition ascii_digit :: "string \<Rightarrow> nat" where
  "ascii_digit = char_range (CHR ''0'') (CHR ''9'')"

definition ascii_alpha_lower :: "string \<Rightarrow> nat" where
  "ascii_alpha_lower = char_range (CHR ''a'') (CHR ''z'')"

definition ascii_alphanumeric :: "string \<Rightarrow> nat" where
  "ascii_alphanumeric =
     byte_class (\<lambda>n. 48 \<le> n \<and> n \<le> 57 \<or> 65 \<le> n \<and> n \<le> 90 \<or> 97 \<le> n \<and> n \<le> 122)"

text \<open>\<^verbatim>\<open>ANY\<close>: one character, that is 1 to 4 bytes by the first byte of its UTF-8 code.\<close>

definition any_char :: "string \<Rightarrow> nat" where
  "any_char s =
     (case s of [] \<Rightarrow> 0
      | c # _ \<Rightarrow> (let n = of_char c :: nat
                  in min (length s) (if n < 128 then 1 else if n < 224 then 2 else if n < 240 then 3 else 4)))"

text \<open>\<^verbatim>\<open>NEWLINE\<close>: a line feed, a carriage return and a line feed, or a carriage return.\<close>

abbreviation newline_exp :: "'r pexp" where
  "newline_exp \<equiv> alts [Lit [CHR 0x0A], Lit [CHR 0x0D, CHR 0x0A], Lit [CHR 0x0D]]"

section \<open>Derivations\<close>

text \<open>
  \<open>derives g at e s ts\<close>: the expression \<open>e\<close> matches the text \<open>s\<close> and produces the pairs \<open>ts\<close>;
  \<open>at\<close> is set inside an atomic rule, where no pair is produced and nothing is skipped.
  Ordered choice and negative lookahead restrict which derivation a parser finds; they are left out
  here, so every parse is a derivation.
\<close>

inductive derives :: "'r grammar \<Rightarrow> bool \<Rightarrow> 'r pexp \<Rightarrow> string \<Rightarrow> 'r pair list \<Rightarrow> bool"
  for g :: "'r grammar" where
  d_lit: "derives g at (Lit l) l []"
| d_cls: "0 < n \<Longrightarrow> n = f s \<Longrightarrow> derives g at (Cls f) (take n s) []"
| d_soi: "derives g at Soi [] []"
| d_eoi: "derives g False Eoi [] [Pair (eoi g) [] []]"
| d_eoi_atomic: "derives g True Eoi [] []"
| d_not: "derives g at (Not e) [] []"
| d_atomic_ctx: "derives g True (rule_body g r) s [] \<Longrightarrow> derives g True (Rule r) s []"
| d_normal: "rule_ty g r = Normal \<Longrightarrow> derives g False (rule_body g r) s ts \<Longrightarrow>
    derives g False (Rule r) s [Pair r s ts]"
| d_silent: "rule_ty g r = Silent \<Longrightarrow> derives g False (rule_body g r) s ts \<Longrightarrow>
    derives g False (Rule r) s ts"
| d_atomic: "rule_ty g r = Atomic \<Longrightarrow> derives g True (rule_body g r) s [] \<Longrightarrow>
    derives g False (Rule r) s [Pair r s []]"
| d_seq_atomic: "derives g True a s1 t1 \<Longrightarrow> derives g True b s2 t2 \<Longrightarrow>
    derives g True (Seq a b) (s1 @ s2) (t1 @ t2)"
| d_seq: "derives g False a s1 t1 \<Longrightarrow> derives g True (skip g) w [] \<Longrightarrow> derives g False b s2 t2 \<Longrightarrow>
    derives g False (Seq a b) (s1 @ w @ s2) (t1 @ t2)"
| d_alt1: "derives g at a s ts \<Longrightarrow> derives g at (Alt a b) s ts"
| d_alt2: "derives g at b s ts \<Longrightarrow> derives g at (Alt a b) s ts"
| d_opt_none: "derives g at (Opt e) [] []"
| d_opt_some: "derives g at e s ts \<Longrightarrow> derives g at (Opt e) s ts"
| d_star_none: "derives g at (Star e) [] []"
| d_star_some: "derives g at e s1 t1 \<Longrightarrow> derives g at (Tail e) s2 t2 \<Longrightarrow>
    derives g at (Star e) (s1 @ s2) (t1 @ t2)"
| d_tail_none: "derives g at (Tail e) [] []"
| d_tail_atomic: "derives g True e s1 t1 \<Longrightarrow> derives g True (Tail e) s2 t2 \<Longrightarrow>
    derives g True (Tail e) (s1 @ s2) (t1 @ t2)"
| d_tail: "derives g True (skip g) w [] \<Longrightarrow> derives g False e s1 t1 \<Longrightarrow>
    derives g False (Tail e) s2 t2 \<Longrightarrow> derives g False (Tail e) (w @ s1 @ s2) (t1 @ t2)"

inductive_cases derives_LitE: "derives g at (Lit l) s ts"
inductive_cases derives_ClsE: "derives g at (Cls f) s ts"
inductive_cases derives_SoiE: "derives g at Soi s ts"
inductive_cases derives_EoiE: "derives g False Eoi s ts"
inductive_cases derives_NotE: "derives g at (Not e) s ts"
inductive_cases derives_RuleE: "derives g False (Rule r) s ts"
inductive_cases derives_Rule_atomicE: "derives g True (Rule r) s ts"
inductive_cases derives_SeqE: "derives g False (Seq a b) s ts"
inductive_cases derives_Seq_atomicE: "derives g True (Seq a b) s ts"
inductive_cases derives_AltE: "derives g at (Alt a b) s ts"
inductive_cases derives_OptE: "derives g at (Opt e) s ts"
inductive_cases derives_StarE: "derives g at (Star e) s ts"
inductive_cases derives_TailE: "derives g False (Tail e) s ts"

lemmas derives_elims = derives_LitE derives_ClsE derives_SoiE derives_EoiE derives_NotE
  derives_RuleE derives_Rule_atomicE derives_SeqE derives_Seq_atomicE derives_AltE derives_OptE
  derives_StarE derives_TailE

lemma derives_atomic_no_pairs:
  assumes "derives g at e s ts" and "at"
  shows "ts = []"
  using assms by (induction rule: derives.induct) auto

section \<open>Which pairs a rule can contain\<close>

text \<open>
  \<open>may_emit g e r\<close>: a pair of rule \<open>r\<close> can be among the top-level pairs that \<open>e\<close> produces outside
  atomic rules. Silent rules are looked through.
\<close>

inductive may_emit :: "'r grammar \<Rightarrow> 'r pexp \<Rightarrow> 'r \<Rightarrow> bool" for g :: "'r grammar" where
  m_eoi: "may_emit g Eoi (eoi g)"
| m_rule: "rule_ty g r \<noteq> Silent \<Longrightarrow> may_emit g (Rule r) r"
| m_silent: "rule_ty g r = Silent \<Longrightarrow> may_emit g (rule_body g r) q \<Longrightarrow> may_emit g (Rule r) q"
| m_seq1: "may_emit g a q \<Longrightarrow> may_emit g (Seq a b) q"
| m_seq2: "may_emit g b q \<Longrightarrow> may_emit g (Seq a b) q"
| m_alt1: "may_emit g a q \<Longrightarrow> may_emit g (Alt a b) q"
| m_alt2: "may_emit g b q \<Longrightarrow> may_emit g (Alt a b) q"
| m_opt: "may_emit g e q \<Longrightarrow> may_emit g (Opt e) q"
| m_star: "may_emit g e q \<Longrightarrow> may_emit g (Star e) q"
| m_tail: "may_emit g e q \<Longrightarrow> may_emit g (Tail e) q"

inductive_simps may_emit_simps:
  "may_emit g (Lit l) q"
  "may_emit g (Cls f) q"
  "may_emit g Soi q"
  "may_emit g Eoi q"
  "may_emit g (Rule r) q"
  "may_emit g (Seq a b) q"
  "may_emit g (Alt a b) q"
  "may_emit g (Opt e) q"
  "may_emit g (Star e) q"
  "may_emit g (Tail e) q"
  "may_emit g (Not e) q"

text \<open>A pair that a parse can produce for a rule: its children and its text are derived by the rule's body.\<close>

fun wf_pair :: "'r grammar \<Rightarrow> 'r pair \<Rightarrow> bool" where
  "wf_pair g (Pair r s ts) \<longleftrightarrow>
     (r = eoi g \<and> s = [] \<and> ts = [])
     \<or> (rule_ty g r = Normal \<and> derives g False (rule_body g r) s ts)
     \<or> (rule_ty g r = Atomic \<and> ts = [] \<and> derives g True (rule_body g r) s [])"

lemma may_emit_star: "may_emit g (Tail e) q \<Longrightarrow> may_emit g (Star e) q"
  by (simp add: may_emit_simps)

lemma derives_emits:
  assumes "derives g at e s ts" and "\<not> at" and "t \<in> set ts"
  shows "may_emit g e (as_rule t) \<and> wf_pair g t"
  using assms by (induction rule: derives.induct) (auto intro: may_emit.intros may_emit_star)

text \<open>Inversion at a pair: what its children can be.\<close>

lemma wf_pair_child:
  assumes "wf_pair g p" and "as_rule p \<noteq> eoi g" and "t \<in> set (into_inner p)"
  shows "may_emit g (rule_body g (as_rule p)) (as_rule t) \<and> wf_pair g t"
proof (cases p)
  case (Pair r s ts)
  with assms have "derives g False (rule_body g r) s ts" by auto
  with assms Pair show ?thesis using derives_emits by fastforce
qed

lemma wf_pair_text:
  assumes "wf_pair g (Pair r s ts)" and "r \<noteq> eoi g" and "rule_ty g r = Atomic"
  shows "ts = [] \<and> derives g True (rule_body g r) s []"
  using assms by auto

text \<open>The text of the last pair of a rule among some pairs, empty if there is none.\<close>

definition pair_text :: "'r \<Rightarrow> 'r pair list \<Rightarrow> string" where
  "pair_text r ts = (case filter (\<lambda>t. as_rule t = r) ts of [] \<Rightarrow> [] | qs \<Rightarrow> as_str (last qs))"

lemma pair_text_Nil [simp]: "pair_text r [] = []"
  by (simp add: pair_text_def)

lemma pair_text_snoc [simp]:
  "pair_text r (ts @ [t]) = (if as_rule t = r then as_str t else pair_text r ts)"
  by (auto simp: pair_text_def split: list.splits)
    (metis (no_types, lifting) last_snoc last.simps)

lemma pair_text_in:
  "\<exists>t \<in> set ts. as_rule t = r \<Longrightarrow> \<exists>t \<in> set ts. as_rule t = r \<and> pair_text r ts = as_str t"
  by (induction ts rule: rev_induct) auto

section \<open>The contract of a generated parser\<close>

type_synonym pest_error = string

locale pest_parser =
  fixes g :: "'r grammar"
    and parse :: "'r \<Rightarrow> string \<Rightarrow> ('r pair list, pest_error) res"
  assumes parse_derives: "parse r s = Ok ps \<Longrightarrow> \<exists>t. prefix t s \<and> derives g False (Rule r) t ps"
    and parse_returns: "\<not> is_panic (parse r s)"
begin

lemma parse_pairs:
  assumes "parse r s = Ok ps" and "p \<in> set ps"
  shows "may_emit g (Rule r) (as_rule p) \<and> wf_pair g p"
proof -
  obtain t where "derives g False (Rule r) t ps" using parse_derives [OF assms(1)] by blast
  from derives_emits [OF this _ assms(2)] show ?thesis by simp
qed

text \<open>Parsing a rule that is neither silent nor atomic gives one pair, the root of the tree.\<close>

lemma parse_normal_root:
  assumes "parse r s = Ok ps" and "rule_ty g r = Normal"
  shows "\<exists>t ts. ps = [Pair r t ts] \<and> prefix t s \<and> derives g False (rule_body g r) t ts"
proof -
  obtain t where t: "prefix t s" and d: "derives g False (Rule r) t ps"
    using parse_derives assms(1) by blast
  from d show ?thesis using assms(2) t by (cases rule: derives_RuleE) auto
qed

lemma parse_silent_root:
  assumes "parse r s = Ok ps" and "rule_ty g r = Silent"
  shows "\<exists>t. prefix t s \<and> derives g False (rule_body g r) t ps"
proof -
  obtain t where t: "prefix t s" and d: "derives g False (Rule r) t ps"
    using parse_derives assms(1) by blast
  from d show ?thesis using assms(2) t by (cases rule: derives_RuleE) auto
qed

end

end
