(* ===== verification/Pest_Reference.thy ===== *)
theory Pest_Reference
  imports Pest_Grammar
begin

text \<open>
  A reference reading of the documented semantics of pest: ordered choice, greedy repetition, negative
  lookahead, implicit whitespace and comments outside atomic rules (\<open>peg\<close>). Its parser keeps the contract
  \<open>pest_parser\<close> for every grammar, and it evaluates the grammars on concrete inputs. The locale
  \<open>peg_parser\<close> is the stronger contract: a generated parser finds the match that the reference reading
  finds.
\<close>

section \<open>Readers\<close>

text \<open>
  \<open>peg g n at e s\<close>: \<open>None\<close> when the reading does not end, \<open>Some None\<close> when \<open>e\<close> does not match at the
  front of \<open>s\<close>, \<open>Some (Some (ts, s'))\<close> when it matches, with the pairs and the rest of the input;
  \<open>n\<close> is the length of the whole input, for \<^verbatim>\<open>SOI\<close>. A grammar may repeat an expression that matches the
  empty text, so the recursion is a \<open>partial_function\<close>, over combinators of readers.
\<close>

type_synonym 'r peg_result = "('r pair list \<times> string) option option"
type_synonym 'r reader = "string \<Rightarrow> 'r peg_result"

definition return_peg :: "'r pair list \<Rightarrow> 'r reader" where
  "return_peg ts s = Some (Some (ts, s))"

definition take_peg :: "nat \<Rightarrow> 'r reader" where
  "take_peg n s = Some (Some ([], drop n s))"

definition fail_peg :: "'r reader" where
  "fail_peg s = Some None"

fun append_peg :: "'r pair list \<Rightarrow> 'r peg_result \<Rightarrow> 'r peg_result" where
  "append_peg t1 (Some (Some (t2, s2))) = Some (Some (t1 @ t2, s2))"
| "append_peg t1 x = x"

fun then_peg :: "'r peg_result \<Rightarrow> 'r reader \<Rightarrow> 'r peg_result" where
  "then_peg (Some (Some (t1, s1))) q = append_peg t1 (q s1)"
| "then_peg x q = x"

definition seq_peg :: "'r reader \<Rightarrow> 'r reader \<Rightarrow> 'r reader" where
  "seq_peg p q s = then_peg (p s) q"

text \<open>Outside atomic rules the blanks \<open>w\<close> come first.\<close>

definition skip_peg :: "bool \<Rightarrow> 'r reader \<Rightarrow> 'r reader \<Rightarrow> 'r reader" where
  "skip_peg at w q s = (if at then q s else seq_peg w q s)"

fun or_peg :: "'r peg_result \<Rightarrow> 'r reader \<Rightarrow> 'r reader" where
  "or_peg (Some None) q s = q s"
| "or_peg x q s = x"

definition alt_peg :: "'r reader \<Rightarrow> 'r reader \<Rightarrow> 'r reader" where
  "alt_peg p q s = or_peg (p s) q s"

fun not_peg :: "string \<Rightarrow> 'r peg_result \<Rightarrow> 'r peg_result" where
  "not_peg s None = None"
| "not_peg s (Some None) = Some (Some ([], s))"
| "not_peg s (Some (Some _)) = Some None"

fun rule_peg :: "'r grammar \<Rightarrow> bool \<Rightarrow> 'r \<Rightarrow> string \<Rightarrow> 'r peg_result \<Rightarrow> 'r peg_result" where
  "rule_peg g at r s (Some (Some (ts, s'))) =
     Some (Some (if at \<or> rule_ty g r = Silent then ts
       else [Pair r (take (length s - length s') s) ts], s'))"
| "rule_peg g at r s x = x"

text \<open>The combinators are monotone in what they combine, so the recursion has a least solution.\<close>

lemma then_peg_mono [partial_function_mono]:
  fixes x :: "('a \<Rightarrow> 'b option) \<Rightarrow> 'r peg_result"
  assumes x: "mono_option x" and k: "\<And>s. mono_option (\<lambda>f. k f s)"
  shows "mono_option (\<lambda>f. then_peg (x f) (k f))"
proof (rule monotoneI, goal_cases)
  case (1 f h)
  have "option_ord (x f) (x h)" using 1 by (rule monotoneD [OF x])
  then have xf: "x f = None \<or> x f = x h" by (simp add: flat_ord_def)
  have "option_ord (k f s) (k h s)" for s using 1 by (rule monotoneD [OF k])
  then have kf: "k f s = None \<or> k f s = k h s" for s by (simp add: flat_ord_def)
  show ?case
  proof (cases "x f")
    case (Some r)
    with xf have h: "x h = Some r" by simp
    show ?thesis
    proof (cases r)
      case (Some z)
      then obtain t1 s1 where "r = Some (t1, s1)" by (cases z) auto
      with h \<open>x f = Some r\<close> kf [of s1] show ?thesis by (auto simp: flat_ord_def)
    qed (use h \<open>x f = Some r\<close> in \<open>simp add: flat_ord_def\<close>)
  qed (simp add: flat_ord_def)
qed

lemma or_peg_mono:
  fixes x :: "('a \<Rightarrow> 'b option) \<Rightarrow> 'r peg_result"
  assumes x: "mono_option x" and y: "mono_option (\<lambda>f. q f s)"
  shows "mono_option (\<lambda>f. or_peg (x f) (q f) s)"
proof (rule monotoneI, goal_cases)
  case (1 f h)
  have "option_ord (x f) (x h)" using 1 by (rule monotoneD [OF x])
  moreover have "option_ord (q f s) (q h s)" using 1 by (rule monotoneD [OF y])
  ultimately show ?case
    by (cases "(x h, q h, s)" rule: or_peg.cases) (auto simp: flat_ord_def)
qed

lemma strict_peg_mono:
  fixes x :: "('a \<Rightarrow> 'b option) \<Rightarrow> 'r peg_result"
  assumes x: "mono_option x" and u: "u None = (None :: 'r peg_result)"
  shows "mono_option (\<lambda>f. u (x f))"
proof (rule monotoneI, goal_cases)
  case (1 f h)
  have "option_ord (x f) (x h)" using 1 by (rule monotoneD [OF x])
  then show ?case by (auto simp: flat_ord_def u)
qed

lemma strict_readers_mono [partial_function_mono]:
  fixes x :: "('a \<Rightarrow> 'b option) \<Rightarrow> 'r peg_result"
  assumes x: "mono_option x"
  shows "mono_option (\<lambda>f. not_peg s (x f))" "mono_option (\<lambda>f. rule_peg g at r s (x f))"
  using strict_peg_mono [OF x, of "not_peg s"] strict_peg_mono [OF x, of "rule_peg g at r s"] by simp_all

lemma reader_mono [partial_function_mono]:
  fixes p q :: "('a \<Rightarrow> 'b option) \<Rightarrow> 'r reader"
  assumes p: "\<And>s. mono_option (\<lambda>f. p f s)"
  shows "(\<And>s. mono_option (\<lambda>f. q f s)) \<Longrightarrow> mono_option (\<lambda>f. seq_peg (p f) (q f) s)"
    and "(\<And>s. mono_option (\<lambda>f. q f s)) \<Longrightarrow> mono_option (\<lambda>f. alt_peg (p f) (q f) s)"
    and "(\<And>s. mono_option (\<lambda>f. q f s)) \<Longrightarrow> mono_option (\<lambda>f. skip_peg at (p f) (q f) s)"
proof -
  show seq: "mono_option (\<lambda>f. seq_peg (p f) (q f) s)" if "\<And>s. mono_option (\<lambda>f. q f s)" for s
    unfolding seq_peg_def using p that by (rule then_peg_mono)
  show "mono_option (\<lambda>f. alt_peg (p f) (q f) s)" if "\<And>s. mono_option (\<lambda>f. q f s)"
    unfolding alt_peg_def using p that by (rule or_peg_mono)
  show "mono_option (\<lambda>f. skip_peg at (p f) (q f) s)" if "\<And>s. mono_option (\<lambda>f. q f s)"
    using seq [OF that, of s] that [of s] unfolding skip_peg_def by (cases at) simp_all
qed

text \<open>One step of the reading; \<open>p\<close> stands for the recursive calls.\<close>

fun peg_step :: "'r grammar \<Rightarrow> nat \<Rightarrow> (bool \<Rightarrow> 'r pexp \<Rightarrow> 'r reader) \<Rightarrow> bool \<Rightarrow> 'r pexp \<Rightarrow> 'r reader" where
  "peg_step g n p at (Lit l) s = (if prefix l s then take_peg (length l) s else fail_peg s)"
| "peg_step g n p at (Cls f) s = (if 0 < f s then take_peg (f s) s else fail_peg s)"
| "peg_step g n p at Soi s = (if length s = n then return_peg [] s else fail_peg s)"
| "peg_step g n p at Eoi s =
     (if s = [] then return_peg (if at then [] else [Pair (eoi g) [] []]) s else fail_peg s)"
| "peg_step g n p at (Rule r) s = rule_peg g at r s (p (at \<or> rule_ty g r = Atomic) (rule_body g r) s)"
| "peg_step g n p at (Seq a b) s = seq_peg (p at a) (skip_peg at (p True (skip g)) (p at b)) s"
| "peg_step g n p at (Alt a b) s = alt_peg (p at a) (p at b) s"
| "peg_step g n p at (Opt a) s = alt_peg (p at a) (return_peg []) s"
| "peg_step g n p at (Star a) s = alt_peg (seq_peg (p at a) (p at (Tail a))) (return_peg []) s"
| "peg_step g n p at (Tail a) s =
     alt_peg (seq_peg (skip_peg at (p True (skip g)) (p at a)) (p at (Tail a))) (return_peg []) s"
| "peg_step g n p at (Not a) s = not_peg s (p at a s)"

lemma peg_step_mono [partial_function_mono]:
  fixes p :: "('a \<Rightarrow> 'b option) \<Rightarrow> bool \<Rightarrow> 'r pexp \<Rightarrow> 'r reader"
  assumes p: "\<And>at e s. mono_option (\<lambda>f. p f at e s)"
  shows "mono_option (\<lambda>f. peg_step g n (p f) at e s)"
  by (cases e) (simp_all add: p partial_function_mono option.const_mono)

partial_function (option) peg :: "'r grammar \<Rightarrow> nat \<Rightarrow> bool \<Rightarrow> 'r pexp \<Rightarrow> 'r reader" where
  "peg g n at e s = peg_step g n (\<lambda>at e s. peg g n at e s) at e s"

text \<open>The equations of \<open>peg_step\<close> with \<open>peg\<close> for the recursive calls evaluate it.\<close>

lemmas peg_equations = peg_step.simps [where p = "peg g n" and g = g and n = n for g n, folded peg.simps]

declare peg_equations [code]

definition peg_parse :: "'r grammar \<Rightarrow> 'r \<Rightarrow> string \<Rightarrow> ('r pair list, pest_error) res" where
  "peg_parse g r s =
     (case peg g (length s) False (Rule r) s of
        None \<Rightarrow> Err ''no end''
      | Some None \<Rightarrow> Err ''no match''
      | Some (Some (ts, _)) \<Rightarrow> Ok ts)"

section \<open>Rules for reading\<close>

lemmas peg_primitives = return_peg_def take_peg_def fail_peg_def

lemmas reading = peg_equations seq_peg_def alt_peg_def skip_peg_def peg_primitives

lemma append_peg_Nil [simp]: "append_peg [] x = x"
  by (cases x; cases "the x") auto

lemma rule_peg_atomic_context [simp]: "rule_peg g True r s x = x"
  by (cases x; cases "the x") auto

lemma peg_lit: "peg g n at (Lit l) (l @ s) = Some (Some ([], s))"
  by (simp add: reading)

lemma peg_lit_char: "peg g n at (Lit [c]) (c # s) = Some (Some ([], s))"
  by (simp add: reading)

lemma peg_lit_fail: "\<not> prefix l s \<Longrightarrow> peg g n at (Lit l) s = Some None"
  by (simp add: reading)

lemma peg_rule_atomic_context: "peg g n True (Rule r) s = peg g n True (rule_body g r) s"
  by (simp add: peg_equations)

lemma peg_rule_atomic:
  assumes "rule_ty g r = Atomic" and "peg g n True (rule_body g r) (u @ s') = Some (Some ([], s'))"
  shows "peg g n False (Rule r) (u @ s') = Some (Some ([Pair r u []], s'))"
  using assms by (simp add: peg_equations)

lemma peg_rule_normal:
  assumes "rule_ty g r = Normal" and "peg g n False (rule_body g r) (u @ s') = Some (Some (ts, s'))"
  shows "peg g n False (Rule r) (u @ s') = Some (Some ([Pair r u ts], s'))"
  using assms by (simp add: peg_equations)

lemma peg_rule_normal_text:
  assumes "rule_ty g r = Normal" and "peg g n False (rule_body g r) s = Some (Some (ts, s'))"
  shows "peg g n False (Rule r) s = Some (Some ([Pair r (take (length s - length s') s) ts], s'))"
  using assms by (simp add: peg_equations)

lemma peg_rule_silent: "rule_ty g r = Silent \<Longrightarrow> peg g n False (Rule r) s = peg g n False (rule_body g r) s"
  by (cases "peg g n False (rule_body g r) s"; cases "the (peg g n False (rule_body g r) s)") (auto simp: peg_equations)

lemma peg_rule_fail:
  "peg g n (at \<or> rule_ty g r = Atomic) (rule_body g r) s = Some None \<Longrightarrow> peg g n at (Rule r) s = Some None"
  by (simp add: peg_equations)

lemma peg_seq_atomic:
  "peg g n True a s = Some (Some ([], s1)) \<Longrightarrow> peg g n True (Seq a b) s = peg g n True b s1"
  by (simp add: reading)

lemma peg_seq_skip:
  assumes "peg g n False a s = Some (Some (t1, s1))" and "peg g n True (skip g) s1 = Some (Some ([], s2))"
  shows "peg g n False (Seq a b) s = append_peg t1 (peg g n False b s2)"
  using assms by (simp add: reading)

lemma peg_seq_fail: "peg g n at a s = Some None \<Longrightarrow> peg g n at (Seq a b) s = Some None"
  by (simp add: reading)

lemma peg_alt_first: "peg g n at a s = Some (Some z) \<Longrightarrow> peg g n at (Alt a b) s = Some (Some z)"
  by (simp add: reading)

lemma peg_alt_second: "peg g n at a s = Some None \<Longrightarrow> peg g n at (Alt a b) s = peg g n at b s"
  by (simp add: reading)

text \<open>A choice among keywords takes the first one that is a prefix of the input.\<close>

lemma peg_keywords:
  assumes "\<And>r. r \<in> set rs \<Longrightarrow> rule_body g r = Lit (l r)"
  shows "peg g n True (alts (map Rule rs)) s =
    Some (map_option (\<lambda>r. ([], drop (length (l r)) s)) (find (\<lambda>r. prefix (l r) s) rs))"
  using assms
proof (induction rs)
  case (Cons r rs)
  then have "peg g n True (Rule r) s = Some (if prefix (l r) s then Some ([], drop (length (l r)) s) else None)"
    by (simp add: peg_rule_atomic_context reading)
  with Cons show ?case by (cases rs) (auto simp: peg_alt_first peg_alt_second)
qed (simp add: reading)

lemma peg_star_more:
  assumes "peg g n at e s = Some (Some (t1, s1))" and "peg g n at (Tail e) s1 = Some (Some (t2, s2))"
  shows "peg g n at (Star e) s = Some (Some (t1 @ t2, s2))"
  using assms by (simp add: reading)

lemma peg_star_done: "peg g n at e s = Some None \<Longrightarrow> peg g n at (Star e) s = Some (Some ([], s))"
  by (simp add: reading)

lemma peg_star_atomic: "peg g n True (Star e) s = peg g n True (Tail e) s"
  by (simp add: reading)

lemma peg_tail_more_atomic:
  assumes "peg g n True e s = Some (Some ([], s1))" and "peg g n True (Tail e) s1 = Some (Some ([], s2))"
  shows "peg g n True (Tail e) s = Some (Some ([], s2))"
  by (subst peg_equations) (simp add: reading(12-17) assms)

lemma peg_tail_done_atomic: "peg g n True e s = Some None \<Longrightarrow> peg g n True (Tail e) s = Some (Some ([], s))"
  by (subst peg_equations) (simp add: reading(12-17))

lemma peg_tail_more:
  assumes "peg g n True (skip g) s = Some (Some ([], s0))" and "peg g n False e s0 = Some (Some (t1, s1))"
    and "peg g n False (Tail e) s1 = Some (Some (t2, s2))"
  shows "peg g n False (Tail e) s = Some (Some (t1 @ t2, s2))"
  by (subst peg_equations) (simp add: reading(12-17) assms)

lemma peg_tail_done:
  assumes "peg g n True (skip g) s = Some (Some ([], s0))" and "peg g n False e s0 = Some None"
  shows "peg g n False (Tail e) s = Some (Some ([], s))"
  by (subst peg_equations) (simp add: reading(12-17) assms)

section \<open>Soundness\<close>

lemma append_peg_Some:
  "append_peg t1 x = Some (Some (ts, s')) \<longleftrightarrow> (\<exists>t2. x = Some (Some (t2, s')) \<and> ts = t1 @ t2)"
  by (cases "(t1, x)" rule: append_peg.cases) auto

lemma seq_peg_Some:
  "seq_peg p q s = Some (Some (ts, s')) \<longleftrightarrow>
     (\<exists>t1 s1 t2. p s = Some (Some (t1, s1)) \<and> q s1 = Some (Some (t2, s')) \<and> ts = t1 @ t2)"
  by (cases "(p s, q)" rule: then_peg.cases) (auto simp: seq_peg_def append_peg_Some)

lemma alt_peg_Some:
  "alt_peg p q s = Some (Some z) \<longleftrightarrow> p s = Some (Some z) \<or> p s = Some None \<and> q s = Some (Some z)"
  by (cases "(p s, q, s)" rule: or_peg.cases) (auto simp: alt_peg_def)

lemma not_peg_Some: "not_peg s x = Some (Some z) \<longleftrightarrow> x = Some None \<and> z = ([], s)"
  by (cases "(s, x)" rule: not_peg.cases) auto

lemma rule_peg_Some:
  "rule_peg g at r s x = Some (Some (ts, s')) \<longleftrightarrow>
     (\<exists>ts'. x = Some (Some (ts', s')) \<and>
       ts = (if at \<or> rule_ty g r = Silent then ts' else [Pair r (take (length s - length s') s) ts']))"
  by (cases "(g, at, r, s, x)" rule: rule_peg.cases) auto

text \<open>
  What a reader finds is a derivation of the text it consumes; \<open>p\<close> stands for the recursive calls.
\<close>

definition reads_sound :: "'r grammar \<Rightarrow> (bool \<Rightarrow> 'r pexp \<Rightarrow> 'r reader) \<Rightarrow> bool" where
  "reads_sound g p \<longleftrightarrow> (\<forall>at e s ts s'. p at e s = Some (Some (ts, s')) \<longrightarrow>
     (\<exists>u. s = u @ s' \<and> derives g at e u ts))"

lemma reads_soundD:
  "reads_sound g p \<Longrightarrow> p at e s = Some (Some (ts, s')) \<Longrightarrow> \<exists>u. s = u @ s' \<and> derives g at e u ts"
  by (auto simp: reads_sound_def)

lemma skip_sound:
  assumes p: "reads_sound g p" and run: "skip_peg at (p True (skip g)) (p at e) s = Some (Some (ts, s'))"
  shows "\<exists>w u. s = w @ u @ s' \<and> derives g at e u ts \<and>
    (if at then w = [] else derives g True (skip g) w [])"
proof (cases at)
  case True
  with run reads_soundD [OF p] show ?thesis by (force simp: skip_peg_def)
next
  case False
  then obtain tw s1 t2 where w: "p True (skip g) s = Some (Some (tw, s1))"
    and t2: "p at e s1 = Some (Some (t2, s'))" and ts: "ts = tw @ t2"
    using run by (auto simp: skip_peg_def seq_peg_Some)
  from reads_soundD [OF p w] obtain w' where w': "s = w' @ s1" "derives g True (skip g) w' tw" by blast
  then have "tw = []" using derives_atomic_no_pairs by blast
  moreover obtain u where "s1 = u @ s'" "derives g at e u t2" using reads_soundD [OF p t2] by blast
  ultimately show ?thesis using w' ts False by auto
qed

lemma rule_sound:
  assumes p: "reads_sound g p"
    and run: "rule_peg g at r s (p (at \<or> rule_ty g r = Atomic) (rule_body g r) s) = Some (Some (ts, s'))"
  shows "\<exists>u. s = u @ s' \<and> derives g at (Rule r) u ts"
proof -
  obtain ts0 where r: "p (at \<or> rule_ty g r = Atomic) (rule_body g r) s = Some (Some (ts0, s'))"
    and ts: "ts = (if at \<or> rule_ty g r = Silent then ts0 else [Pair r (take (length s - length s') s) ts0])"
    using run by (auto simp: rule_peg_Some)
  from reads_soundD [OF p r] obtain u
    where u: "s = u @ s'" "derives g (at \<or> rule_ty g r = Atomic) (rule_body g r) u ts0" by blast
  show ?thesis
  proof (cases at)
    case True
    with u have "ts0 = []" using derives_atomic_no_pairs by fastforce
    with True u ts show ?thesis by (auto intro: derives.intros)
  next
    case False
    with u ts derives_atomic_no_pairs [OF u(2)] show ?thesis
      by (cases "rule_ty g r") (auto intro: derives.intros)
  qed
qed

lemma seq_sound:
  assumes p: "reads_sound g p"
    and run: "seq_peg (p at a) (skip_peg at (p True (skip g)) (p at b)) s = Some (Some (ts, s'))"
  shows "\<exists>u. s = u @ s' \<and> derives g at (Seq a b) u ts"
proof -
  obtain t1 s1 t2 where a: "p at a s = Some (Some (t1, s1))" and ts: "ts = t1 @ t2"
    and b: "skip_peg at (p True (skip g)) (p at b) s1 = Some (Some (t2, s'))"
    using run by (auto simp: seq_peg_Some)
  from reads_soundD [OF p a] obtain u1 where u1: "s = u1 @ s1" "derives g at a u1 t1" by blast
  from skip_sound [OF p b] obtain w u2
    where "s1 = w @ u2 @ s'" "derives g at b u2 t2" "if at then w = [] else derives g True (skip g) w []"
    by blast
  with u1 ts show ?thesis by (cases at) (auto intro: derives.intros)
qed

lemma star_sound:
  assumes p: "reads_sound g p"
    and run: "alt_peg (seq_peg (p at a) (p at (Tail a))) (return_peg []) s = Some (Some (ts, s'))"
  shows "\<exists>u. s = u @ s' \<and> derives g at (Star a) u ts"
proof (cases "s' = s \<and> ts = []")
  case True
  then show ?thesis by (auto intro: derives.intros)
next
  case False
  then obtain t1 s1 t2 where a: "p at a s = Some (Some (t1, s1))" and ts: "ts = t1 @ t2"
    and t: "p at (Tail a) s1 = Some (Some (t2, s'))"
    using run by (auto simp: seq_peg_Some alt_peg_Some return_peg_def)
  from reads_soundD [OF p a] reads_soundD [OF p t] obtain u1 u2
    where "s = u1 @ u2 @ s'" "derives g at a u1 t1" "derives g at (Tail a) u2 t2" by auto
  with ts show ?thesis by (auto intro: derives.intros)
qed

lemma tail_sound:
  assumes p: "reads_sound g p"
    and run: "alt_peg (seq_peg (skip_peg at (p True (skip g)) (p at a)) (p at (Tail a))) (return_peg []) s
      = Some (Some (ts, s'))"
  shows "\<exists>u. s = u @ s' \<and> derives g at (Tail a) u ts"
proof (cases "s' = s \<and> ts = []")
  case True
  then show ?thesis by (auto intro: derives.intros)
next
  case False
  then obtain t1 s1 t2 where b: "skip_peg at (p True (skip g)) (p at a) s = Some (Some (t1, s1))"
    and t: "p at (Tail a) s1 = Some (Some (t2, s'))" and ts: "ts = t1 @ t2"
    using run by (auto simp: seq_peg_Some alt_peg_Some return_peg_def)
  from reads_soundD [OF p t] obtain u2 where u2: "s1 = u2 @ s'" "derives g at (Tail a) u2 t2" by blast
  from skip_sound [OF p b] obtain w u1
    where "s = w @ u1 @ s1" "derives g at a u1 t1" "if at then w = [] else derives g True (skip g) w []"
    by blast
  with u2 ts show ?thesis by (cases at) (auto intro: derives.intros)
qed

lemma peg_step_sound:
  assumes p: "reads_sound g p" and run: "peg_step g n p at e s = Some (Some (ts, s'))"
  shows "\<exists>u. s = u @ s' \<and> derives g at e u ts"
proof (cases e)
  case (Lit l)
  with run show ?thesis by (auto simp: peg_primitives prefix_def split: if_splits intro: derives.intros)
next
  case (Cls f)
  with run show ?thesis
    by (auto simp: peg_primitives split: if_splits intro!: exI [of _ "take (f s) s"] derives.intros)
next
  case Soi
  with run show ?thesis by (auto simp: peg_primitives split: if_splits intro: derives.intros)
next
  case Eoi
  with run show ?thesis by (cases at) (auto simp: peg_primitives split: if_splits intro: derives.intros)
next
  case (Alt a b)
  with run reads_soundD [OF p, of at a] reads_soundD [OF p, of at b] show ?thesis
    by (fastforce simp: alt_peg_Some intro: derives.intros)
next
  case (Opt a)
  with run reads_soundD [OF p, of at a] show ?thesis
    by (fastforce simp: alt_peg_Some peg_primitives intro: derives.intros)
next
  case (Not a)
  with run show ?thesis by (auto simp: not_peg_Some intro: derives.intros)
qed (use run rule_sound [OF p] seq_sound [OF p] star_sound [OF p] tail_sound [OF p] in simp_all)

lemma peg_sound:
  assumes "peg g n at e s = Some (Some (ts, s'))"
  shows "\<exists>u. s = u @ s' \<and> derives g at e u ts"
proof -
  let ?P = "\<lambda>g n at e s y. \<forall>ts s'. y = Some (ts, s') \<longrightarrow> (\<exists>u. s = u @ s' \<and> derives g at e u ts)"
  have "?P g n at e s (Some (ts, s'))"
  proof (rule peg.raw_induct [where P = ?P, OF _ assms], goal_cases)
    case (1 p g n at e s y)
    from 1(1) have "reads_sound g (p g n)" unfolding reads_sound_def by blast
    from peg_step_sound [OF this] 1(2) show ?case by blast
  qed
  then show ?thesis by blast
qed

section \<open>The reference parser\<close>

lemma peg_parse_derives:
  assumes "peg_parse g r s = Ok ps"
  shows "\<exists>t. prefix t s \<and> derives g False (Rule r) t ps"
proof -
  obtain s' where "peg g (length s) False (Rule r) s = Some (Some (ps, s'))"
    using assms by (auto simp: peg_parse_def split: option.splits)
  from peg_sound [OF this] show ?thesis by (auto simp: prefix_def)
qed

text \<open>Every grammar has a parser that satisfies the contract.\<close>

interpretation ref_parser: pest_parser g "peg_parse g" for g :: "'r grammar"
proof
  show "\<exists>t. prefix t s \<and> derives g False (Rule r) t ps" if "peg_parse g r s = Ok ps" for r s ps
    using that by (rule peg_parse_derives)
  show "\<not> is_panic (peg_parse g r s)" for r s
    by (auto simp: peg_parse_def split: option.splits)
qed

text \<open>The contract with the choices: what matches is found, and what does not match is an error.\<close>

locale peg_parser = pest_parser +
  assumes parse_match: "peg g (length s) False (Rule r) s = Some (Some (ts, s')) \<Longrightarrow> parse r s = Ok ts"
    and parse_mismatch: "peg g (length s) False (Rule r) s = Some None \<Longrightarrow> is_err (parse r s)"

interpretation ref_peg: peg_parser g "peg_parse g" for g :: "'r grammar"
  by unfold_locales (simp_all add: peg_parse_def)

end
