(* ===== verification/Ips_Manifest.thy ===== *)
theory Ips_Manifest
  imports Ips_Actions Pest_Reference
begin

text \<open>
  Package manifests: the grammar \<^verbatim>\<open>src/libips/src/actions/manifest.pest\<close>, the struct \<open>Manifest\<close> and the
  reading of a manifest in \<^verbatim>\<open>src/libips/src/actions/mod.rs\<close> (\<^verbatim>\<open>parse_string\<close>, \<^verbatim>\<open>parse_file\<close>,
  \<^verbatim>\<open>add_action\<close>). The generated parser is the parameter \<open>parse\<close>; the theorems hold for every parser
  that keeps the contract \<open>pest_parser manifest_grammar\<close>.
\<close>

section \<open>The grammar\<close>

datatype manifest_rule =
    M_EOI | M_action_set | M_action_depend | M_action_dir | M_action_file | M_action_license
  | M_action_hardlink | M_action_link | M_action_driver | M_action_group | M_action_user
  | M_action_legacy | M_action_name | M_quoted_string | M_quoted_character | M_COMMENT
  | M_comment_character | M_transform_character | M_unicode_character | M_WHITESPACE
  | M_transform_action | M_transform | M_property_name | M_property_value | M_payload | M_property
  | M_action | M_manifest

fun manifest_rule_ty :: "manifest_rule \<Rightarrow> rule_ty" where
  "manifest_rule_ty M_COMMENT = Silent"
| "manifest_rule_ty M_WHITESPACE = Silent"
| "manifest_rule_ty M_EOI = Normal"
| "manifest_rule_ty M_quoted_character = Normal"
| "manifest_rule_ty M_comment_character = Normal"
| "manifest_rule_ty M_transform_character = Normal"
| "manifest_rule_ty M_unicode_character = Normal"
| "manifest_rule_ty M_transform = Normal"
| "manifest_rule_ty M_property = Normal"
| "manifest_rule_ty M_action = Normal"
| "manifest_rule_ty M_manifest = Normal"
| "manifest_rule_ty _ = Atomic"

fun manifest_rule_body :: "manifest_rule \<Rightarrow> manifest_rule pexp" where
  "manifest_rule_body M_EOI = Eoi"
| "manifest_rule_body M_action_set = Lit ''set''"
| "manifest_rule_body M_action_depend = Lit ''depend''"
| "manifest_rule_body M_action_dir = Lit ''dir''"
| "manifest_rule_body M_action_file = Lit ''file''"
| "manifest_rule_body M_action_license = Lit ''license''"
| "manifest_rule_body M_action_hardlink = Lit ''hardlink''"
| "manifest_rule_body M_action_link = Lit ''link''"
| "manifest_rule_body M_action_driver = Lit ''driver''"
| "manifest_rule_body M_action_group = Lit ''group''"
| "manifest_rule_body M_action_user = Lit ''user''"
| "manifest_rule_body M_action_legacy = Lit ''legacy''"
| "manifest_rule_body M_action_name =
     alts [Rule M_action_set, Rule M_action_depend, Rule M_action_dir, Rule M_action_file,
       Rule M_action_license, Rule M_action_hardlink, Rule M_action_link, Rule M_action_driver,
       Rule M_action_group, Rule M_action_user, Rule M_action_legacy]"
| "manifest_rule_body M_quoted_string =
     seqs [Lit [CHR 0x22], Star (Rule M_quoted_character), Lit [CHR 0x22]]"
| "manifest_rule_body M_quoted_character = Seq (Not (Lit [CHR 0x22])) (Cls any_char)"
| "manifest_rule_body M_COMMENT = seqs [Lit ''#'', Star (Rule M_comment_character), newline_exp]"
| "manifest_rule_body M_comment_character = Seq (Not newline_exp) (Cls any_char)"
| "manifest_rule_body M_transform_character = Seq (Not (Lit ''>'')) (Cls any_char)"
| "manifest_rule_body M_unicode_character =
     Seq (Not (Alt (Rule M_WHITESPACE) newline_exp)) (Cls any_char)"
| "manifest_rule_body M_WHITESPACE =
     alts [Seq (Lit [CHR 0x5C]) newline_exp, Lit '' '', Lit [CHR 0x09]]"
| "manifest_rule_body M_transform_action = Star (Rule M_transform_character)"
| "manifest_rule_body M_transform =
     seqs [Lit ''<transform '', Rule M_action_name, Plus (Rule M_property), Lit ''->'',
       Rule M_transform_action, Lit ''>'']"
| "manifest_rule_body M_property_name =
     Plus (alts [Cls ascii_alphanumeric, Lit ''.'', Lit ''_'', Lit ''-'', Lit ''/''])"
| "manifest_rule_body M_property_value = Alt (Rule M_quoted_string) (Plus (Rule M_unicode_character))"
| "manifest_rule_body M_payload = Rule M_property_value"
| "manifest_rule_body M_property = seqs [Rule M_property_name, Lit ''='', Rule M_property_value]"
| "manifest_rule_body M_action =
     seqs [Rule M_action_name, Alt (Rule M_property) (Rule M_payload), Star (Rule M_property),
       Alt newline_exp Eoi]"
| "manifest_rule_body M_manifest =
     seqs [Soi, Plus (alts [newline_exp, Rule M_transform, Rule M_action]), Eoi]"

definition manifest_grammar :: "manifest_rule grammar" where
  "manifest_grammar = \<lparr>rule_ty = manifest_rule_ty, rule_body = manifest_rule_body,
     skip = Seq (Star (Rule M_WHITESPACE)) (Star (Seq (Rule M_COMMENT) (Star (Rule M_WHITESPACE)))),
     eoi = M_EOI\<rparr>"

section \<open>Manifests\<close>

record Manifest =
  m_attributes :: "Attr list"
  m_directories :: "Dir list"
  m_files :: "File list"
  m_dependencies :: "Dependency list"
  m_licenses :: "License list"
  m_links :: "Link list"

definition Manifest_new :: Manifest where
  "Manifest_new = \<lparr>m_attributes = [], m_directories = [], m_files = [], m_dependencies = [],
     m_licenses = [], m_links = []\<rparr>"

definition Manifest_add_file :: "File \<Rightarrow> Manifest \<Rightarrow> Manifest" where
  "Manifest_add_file f m = m\<lparr>m_files := m_files m @ [f]\<rparr>"

definition add_action :: "Action \<Rightarrow> Manifest \<Rightarrow> (Manifest, ActionError) res" where
  "add_action act m =
     (case act_kind act of
        Kind_Attr \<Rightarrow> Ok (m\<lparr>m_attributes := m_attributes m @ [Attr_from act]\<rparr>)
      | Kind_Dir \<Rightarrow> Ok (m\<lparr>m_directories := m_directories m @ [Dir_from act]\<rparr>)
      | Kind_File \<Rightarrow> res_bind (File_from act) (\<lambda>f. Ok (m\<lparr>m_files := m_files m @ [f]\<rparr>))
      | Kind_Dependency \<Rightarrow> Ok (m\<lparr>m_dependencies := m_dependencies m @ [Dependency_from act]\<rparr>)
      | Kind_User \<Rightarrow> Panic ''not yet implemented''
      | Kind_Group \<Rightarrow> Panic ''not yet implemented''
      | Kind_Driver \<Rightarrow> Panic ''not yet implemented''
      | Kind_License \<Rightarrow> Ok (m\<lparr>m_licenses := m_licenses m @ [License_from act]\<rparr>)
      | Kind_Link \<Rightarrow> Ok (m\<lparr>m_links := m_links m @ [Link_from act]\<rparr>)
      | Kind_Legacy \<Rightarrow> Panic ''not yet implemented''
      | Kind_Transform \<Rightarrow> Panic ''not yet implemented''
      | Kind_Unknown action \<Rightarrow> Panic (''action '' @ action @ '' not known''))"

section \<open>Reading a manifest\<close>

text \<open>The nested loops of \<^verbatim>\<open>parse_string\<close>, from the inside out.\<close>

definition Property_default :: Property where
  "Property_default = \<lparr>prop_key = [], prop_value = []\<rparr>"

definition property_pair :: "manifest_rule pair \<Rightarrow> Property \<Rightarrow> (Property, ActionError) res" where
  "property_pair prop property =
     (case as_rule prop of
        M_property_name \<Rightarrow> Ok (property\<lparr>prop_key := as_str prop\<rparr>)
      | M_property_value \<Rightarrow> Ok (property\<lparr>prop_value := unquote (as_str prop)\<rparr>)
      | _ \<Rightarrow> Panic ''unexpected rule inside action expected property_name or property_value'')"

definition action_pair :: "manifest_rule pair \<Rightarrow> Action \<Rightarrow> (Action, ActionError) res" where
  "action_pair action act =
     (case as_rule action of
        M_action_name \<Rightarrow> Ok (act\<lparr>act_kind := get_action_kind (as_str action)\<rparr>)
      | M_payload \<Rightarrow> Ok (act\<lparr>act_payload_string := as_str action\<rparr>)
      | M_property \<Rightarrow>
          res_bind (fold_res property_pair (into_inner action) Property_default) (\<lambda>property.
            Ok (act\<lparr>act_properties := act_properties act @ [property]\<rparr>))
      | M_EOI \<Rightarrow> Ok act
      | _ \<Rightarrow> Panic ''unexpected rule inside action expected payload, property, action_name'')"

definition manifest_pair :: "manifest_rule pair \<Rightarrow> Manifest \<Rightarrow> (Manifest, ActionError) res" where
  "manifest_pair manifest m =
     (case as_rule manifest of
        M_action \<Rightarrow>
          res_bind (fold_res action_pair (into_inner manifest) Action_default) (\<lambda>act. add_action act m)
      | M_EOI \<Rightarrow> Ok m
      | M_transform \<Rightarrow> Ok m
      | _ \<Rightarrow> Panic ''unexpected rule inside manifest expected action'')"

definition top_pair :: "manifest_rule pair \<Rightarrow> Manifest \<Rightarrow> (Manifest, ActionError) res" where
  "top_pair p m =
     (case as_rule p of
        M_manifest \<Rightarrow> fold_res manifest_pair (into_inner p) m
      | M_WHITESPACE \<Rightarrow> Ok m
      | _ \<Rightarrow> Panic ''unexpected rule inside pair expected manifest'')"

type_synonym manifest_parser = "manifest_rule \<Rightarrow> string \<Rightarrow> (manifest_rule pair list, pest_error) res"

definition parse_string :: "manifest_parser \<Rightarrow> string \<Rightarrow> (Manifest, ActionError) res" where
  "parse_string parse content =
     res_bind (map_err ActParserError (parse M_manifest content)) (\<lambda>pairs.
       fold_res top_pair pairs Manifest_new)"

definition parse_file ::
  "manifest_parser \<Rightarrow> (string \<Rightarrow> (string, io_error) res) \<Rightarrow> string \<Rightarrow> (Manifest, ActionError) res" where
  "parse_file parse read_to_string f =
     res_bind (map_err ActIOError (read_to_string f)) (parse_string parse)"

section \<open>What the tree says\<close>

text \<open>The action an action pair spells, without the failures of the tree walk.\<close>

definition property_of :: "manifest_rule pair \<Rightarrow> Property" where
  "property_of p = \<lparr>prop_key = pair_text M_property_name (into_inner p),
     prop_value = unquote (pair_text M_property_value (into_inner p))\<rparr>"

definition action_of :: "manifest_rule pair \<Rightarrow> Action" where
  "action_of p = (Action_new (get_action_kind (pair_text M_action_name (into_inner p))))
     \<lparr>act_payload_string := pair_text M_payload (into_inner p),
      act_properties := map property_of (filter (\<lambda>t. as_rule t = M_property) (into_inner p))\<rparr>"

definition manifest_actions :: "manifest_rule pair list \<Rightarrow> Action list" where
  "manifest_actions ps =
     map action_of (filter (\<lambda>t. as_rule t = M_action) (concat (map into_inner ps)))"

section \<open>Shape of the tree\<close>

lemma manifest_grammar_simps [simp]:
  "rule_ty manifest_grammar = manifest_rule_ty"
  "rule_body manifest_grammar = manifest_rule_body"
  "eoi manifest_grammar = M_EOI"
  by (simp_all add: manifest_grammar_def)

lemma manifest_emits:
  "may_emit manifest_grammar (Rule M_manifest) q \<longleftrightarrow> q = M_manifest"
  "may_emit manifest_grammar (manifest_rule_body M_manifest) q \<longleftrightarrow> q \<in> {M_transform, M_action, M_EOI}"
  "may_emit manifest_grammar (manifest_rule_body M_action) q \<longleftrightarrow>
     q \<in> {M_action_name, M_property, M_payload, M_EOI}"
  "may_emit manifest_grammar (manifest_rule_body M_property) q \<longleftrightarrow>
     q \<in> {M_property_name, M_property_value}"
  by (auto simp: may_emit_simps)

lemma property_pairs:
  assumes "\<And>t. t \<in> set ts \<Longrightarrow> as_rule t \<in> {M_property_name, M_property_value}"
  shows "fold_res property_pair ts Property_default =
    Ok \<lparr>prop_key = pair_text M_property_name ts, prop_value = unquote (pair_text M_property_value ts)\<rparr>"
  using assms
proof (induction ts rule: rev_induct)
  case Nil
  then show ?case by (simp add: Property_default_def str_remove_def)
next
  case (snoc t ts)
  then have "as_rule t = M_property_name \<or> as_rule t = M_property_value" by simp
  with snoc show ?case by (auto simp: fold_res_append property_pair_def [of t])
qed

lemma action_pairs:
  assumes "\<And>t. t \<in> set ts \<Longrightarrow> as_rule t \<in> {M_action_name, M_property, M_payload, M_EOI}"
    and "\<And>t u. t \<in> set ts \<Longrightarrow> as_rule t = M_property \<Longrightarrow> u \<in> set (into_inner t) \<Longrightarrow>
      as_rule u \<in> {M_property_name, M_property_value}"
  shows "fold_res action_pair ts Action_default =
    Ok ((Action_new (get_action_kind (pair_text M_action_name ts)))
      \<lparr>act_payload_string := pair_text M_payload ts,
       act_properties := map property_of (filter (\<lambda>t. as_rule t = M_property) ts)\<rparr>)"
  using assms
proof (induction ts rule: rev_induct)
  case Nil
  then show ?case
    by (simp add: Action_default_def ActionKind_default_def Action_new_def get_action_kind_def)
next
  case (snoc t ts)
  have IH: "fold_res action_pair ts Action_default =
    Ok ((Action_new (get_action_kind (pair_text M_action_name ts)))
      \<lparr>act_payload_string := pair_text M_payload ts,
       act_properties := map property_of (filter (\<lambda>t. as_rule t = M_property) ts)\<rparr>)"
    using snoc.prems by (intro snoc.IH) auto
  consider "as_rule t = M_action_name" | "as_rule t = M_payload" | "as_rule t = M_EOI" | "as_rule t = M_property"
    using snoc.prems(1) [of t] by auto
  then show ?case
  proof cases
    case 4
    then have "fold_res property_pair (into_inner t) Property_default = Ok (property_of t)"
      using snoc.prems(2) [of t] by (simp add: property_pairs property_of_def)
    with 4 IH show ?thesis by (simp add: fold_res_append action_pair_def [of t] Action_new_def)
  qed (simp_all add: fold_res_append IH action_pair_def [of t] Action_new_def)
qed

text \<open>An action pair of a well-formed tree is read without failure.\<close>

lemma action_pair_read:
  assumes "wf_pair manifest_grammar p" and "as_rule p = M_action"
  shows "fold_res action_pair (into_inner p) Action_default = Ok (action_of p)"
proof -
  have child: "as_rule t \<in> {M_action_name, M_property, M_payload, M_EOI} \<and> wf_pair manifest_grammar t"
    if "t \<in> set (into_inner p)" for t
    using wf_pair_child [OF assms(1) _ that] assms(2) manifest_emits(3) by simp
  moreover have "as_rule u \<in> {M_property_name, M_property_value}"
    if "t \<in> set (into_inner p)" "as_rule t = M_property" "u \<in> set (into_inner t)" for t u
    using wf_pair_child [OF conjunct2 [OF child [OF that(1)]] _ that(3)] that(2) manifest_emits(4) by simp
  ultimately show ?thesis by (subst action_pairs) (auto simp: action_of_def)
qed

text \<open>The name of an action is one of the eleven literals of the grammar.\<close>

lemma action_name_text:
  assumes "wf_pair manifest_grammar t" and "as_rule t = M_action_name"
  shows "as_str t \<in> {''set'', ''depend'', ''dir'', ''file'', ''license'', ''hardlink'', ''link'', ''driver'',
    ''group'', ''user'', ''legacy''}"
proof -
  obtain n ts where t: "t = Pair M_action_name n ts" using assms(2) by (cases t) auto
  with assms have "derives manifest_grammar True (manifest_rule_body M_action_name) n []" by simp
  then show ?thesis using t by (auto elim!: derives_elims)
qed

lemma action_has_name:
  assumes "wf_pair manifest_grammar p" and "as_rule p = M_action"
  shows "\<exists>t \<in> set (into_inner p). as_rule t = M_action_name"
proof -
  obtain s ts where p: "p = Pair M_action s ts" using assms(2) by (cases p) auto
  with assms have "derives manifest_grammar False (manifest_rule_body M_action) s ts" by simp
  then obtain s1 t1 t2 where "derives manifest_grammar False (Rule M_action_name) s1 t1" "ts = t1 @ t2"
    by (auto elim: derives_SeqE)
  then show ?thesis using p by (auto elim!: derives_RuleE)
qed

text \<open>The kinds an action of a well-formed tree can have.\<close>

lemma action_of_kind:
  assumes "wf_pair manifest_grammar p" and "as_rule p = M_action"
  shows "act_kind (action_of p) \<in> {Kind_Attr, Kind_Dependency, Kind_Dir, Kind_File, Kind_License, Kind_Link,
    Kind_Driver, Kind_Group, Kind_User, Kind_Legacy}"
proof -
  obtain t where t: "t \<in> set (into_inner p)" "as_rule t = M_action_name"
    and name: "pair_text M_action_name (into_inner p) = as_str t"
    using pair_text_in [OF action_has_name [OF assms]] by blast
  have "wf_pair manifest_grammar t"
    using wf_pair_child [OF assms(1) _ t(1)] assms(2) by simp
  from action_name_text [OF this t(2)] show ?thesis
    by (auto simp: action_of_def Action_new_def name get_action_kind_def)
qed

section \<open>Building the manifest\<close>

definition of_kind :: "ActionKind \<Rightarrow> Action list \<Rightarrow> Action list" where
  "of_kind k acts = filter (\<lambda>a. act_kind a = k) acts"

lemma of_kind_simps [simp]:
  "of_kind k [] = []"
  "of_kind k (acts @ [a]) = of_kind k acts @ (if act_kind a = k then [a] else [])"
  by (simp_all add: of_kind_def)

text \<open>What \<open>add_action\<close> cannot do: four kinds are not implemented, and a file may hold a bad digest.\<close>

definition unsupported :: "Action \<Rightarrow> bool" where
  "unsupported act \<longleftrightarrow>
     act_kind act \<in> {Kind_User, Kind_Group, Kind_Driver, Kind_Legacy, Kind_Transform}
     \<or> (\<exists>n. act_kind act = Kind_Unknown n)
     \<or> (act_kind act = Kind_File \<and> is_panic (File_from act))"

lemma add_action_panic: "is_panic (add_action act m) \<longleftrightarrow> unsupported act"
  by (cases "act_kind act") (auto simp: add_action_def unsupported_def is_panic_bind)

lemma add_action_no_err: "\<not> is_err (add_action act m)"
proof (cases "File_from act")
  case (Err e)
  then show ?thesis using File_from_no_err [of act] by simp
qed (auto simp: add_action_def split: ActionKind.split)

lemma add_actions_panic: "is_panic (fold_res add_action acts m) \<longleftrightarrow> list_ex unsupported acts"
proof (induction acts arbitrary: m)
  case (Cons a acts)
  show ?case
  proof (cases "add_action a m")
    case (Ok m')
    with add_action_panic [of a m] Cons.IH [of m'] show ?thesis by simp
  next
    case (Panic x)
    with add_action_panic [of a m] show ?thesis by simp
  next
    case (Err e)
    with add_action_no_err [of a m] show ?thesis by simp
  qed
qed simp

lemma add_actions_no_err: "\<not> is_err (fold_res add_action acts m)"
proof (induction acts arbitrary: m)
  case (Cons a acts)
  then show ?case using add_action_no_err [of a m] by (cases "add_action a m") auto
qed simp

lemma supported_partition:
  "\<not> list_ex unsupported acts \<Longrightarrow>
   length acts = length (of_kind Kind_Attr acts) + length (of_kind Kind_Dir acts)
     + length (of_kind Kind_File acts) + length (of_kind Kind_Dependency acts)
     + length (of_kind Kind_License acts) + length (of_kind Kind_Link acts)"
proof (induction acts)
  case (Cons a acts)
  then show ?case by (cases "act_kind a") (auto simp: of_kind_def unsupported_def)
qed simp

lemma add_actions_contents:
  assumes "fold_res add_action acts Manifest_new = Ok m"
  shows "m_attributes m = map Attr_from (of_kind Kind_Attr acts)
    \<and> m_directories m = map Dir_from (of_kind Kind_Dir acts)
    \<and> map Ok (m_files m) = map File_from (of_kind Kind_File acts)
    \<and> m_dependencies m = map Dependency_from (of_kind Kind_Dependency acts)
    \<and> m_licenses m = map License_from (of_kind Kind_License acts)
    \<and> m_links m = map Link_from (of_kind Kind_Link acts)"
  using assms
proof (induction acts arbitrary: m rule: rev_induct)
  case Nil
  then show ?case by (auto simp: Manifest_new_def)
next
  case (snoc a acts)
  then obtain m0 where m0: "fold_res add_action acts Manifest_new = Ok m0" "add_action a m0 = Ok m"
    by (auto simp: fold_res_append)
  with snoc.IH [OF m0(1)] show ?case
    by (cases "act_kind a") (auto simp: add_action_def)
qed

text \<open>The walk over the pairs of a manifest is the loop over its actions.\<close>

lemma manifest_pairs:
  assumes "\<And>t. t \<in> set ts \<Longrightarrow> as_rule t \<in> {M_transform, M_action, M_EOI} \<and> wf_pair manifest_grammar t"
  shows "fold_res manifest_pair ts m =
    fold_res add_action (map action_of (filter (\<lambda>t. as_rule t = M_action) ts)) m"
  using assms
proof (induction ts arbitrary: m)
  case (Cons t ts)
  then have IH: "fold_res manifest_pair ts m =
      fold_res add_action (map action_of (filter (\<lambda>t. as_rule t = M_action) ts)) m" for m by simp
  have t: "as_rule t \<in> {M_transform, M_action, M_EOI}" "wf_pair manifest_grammar t"
    using Cons.prems [of t] by simp_all
  show ?case
  proof (cases "as_rule t = M_action")
    case True
    then have "manifest_pair t m = add_action (action_of t) m"
      using action_pair_read [OF t(2) True] by (simp add: manifest_pair_def)
    with True IH show ?thesis by (cases "add_action (action_of t) m") auto
  next
    case False
    with t have "manifest_pair t m = Ok m" by (auto simp: manifest_pair_def)
    with False IH show ?thesis by simp
  qed
qed simp

lemma parse_root:
  assumes "pest_parser manifest_grammar parse" and "parse M_manifest c = Ok ps"
  shows "\<exists>p. ps = [p] \<and> as_rule p = M_manifest \<and> wf_pair manifest_grammar p"
  using pest_parser.parse_normal_root [OF assms] by auto

lemma parse_children:
  assumes "wf_pair manifest_grammar p" and "as_rule p = M_manifest" and "t \<in> set (into_inner p)"
  shows "as_rule t \<in> {M_transform, M_action, M_EOI} \<and> wf_pair manifest_grammar t"
  using wf_pair_child [OF assms(1) _ assms(3)] assms(2) manifest_emits(2) by simp

lemma parse_string_loop:
  assumes "pest_parser manifest_grammar parse"
  shows "parse_string parse c =
    (case parse M_manifest c of
       Ok ps \<Rightarrow> fold_res add_action (manifest_actions ps) Manifest_new
     | Err e \<Rightarrow> Err (ActParserError e)
     | Panic m \<Rightarrow> Panic m)"
proof (cases "parse M_manifest c")
  case (Ok ps)
  obtain p where p: "ps = [p]" "as_rule p = M_manifest" "wf_pair manifest_grammar p"
    using parse_root [OF assms Ok] by blast
  have "top_pair p Manifest_new = fold_res manifest_pair (into_inner p) Manifest_new"
    by (simp add: top_pair_def p(2))
  also have "\<dots> = fold_res add_action (manifest_actions ps) Manifest_new"
    using parse_children [OF p(3,2)] by (simp add: manifest_pairs manifest_actions_def p(1))
  finally show ?thesis
    using Ok p(1) by (simp add: parse_string_def del: fold_res.simps)
qed (simp_all add: parse_string_def)

lemma manifest_actions_kind:
  assumes "pest_parser manifest_grammar parse" and "parse M_manifest c = Ok ps"
    and "a \<in> set (manifest_actions ps)"
  shows "act_kind a \<in> {Kind_Attr, Kind_Dependency, Kind_Dir, Kind_File, Kind_License, Kind_Link,
    Kind_Driver, Kind_Group, Kind_User, Kind_Legacy}"
proof -
  obtain p where p: "ps = [p]" "as_rule p = M_manifest" "wf_pair manifest_grammar p"
    using parse_root [OF assms(1,2)] by blast
  obtain t where t: "t \<in> set (into_inner p)" "as_rule t = M_action" "a = action_of t"
    using assms(3) by (auto simp: manifest_actions_def p(1))
  with parse_children [OF p(3,2) t(1)] show ?thesis using action_of_kind [of t] by simp
qed

section \<open>Properties\<close>

text \<open>A small manifest, with a comment, a continuation line and quotes.\<close>

definition example_manifest :: string where
  "example_manifest =
     ''set name=pkg.summary value='' @ [CHR 0x22] @ ''Nginx Webserver'' @ [CHR 0x22, CHR 0x0A]
     @ ''# files'' @ [CHR 0x0A]
     @ ''link path=usr/a '' @ [CHR 0x5C, CHR 0x0A] @ '' target=b'' @ [CHR 0x0A]
     @ ''file Sol/smb mode=0555'' "

abbreviation sample_parse :: manifest_parser where
  "sample_parse \<equiv> peg_parse manifest_grammar"

lemma sample_contract: "pest_parser manifest_grammar (peg_parse manifest_grammar)"
  by (rule ref_parser.pest_parser_axioms)

definition sample_actions :: "Action list" where
  "sample_actions =
     [(Action_new Kind_Attr)\<lparr>act_properties :=
        [\<lparr>prop_key = ''name'', prop_value = ''pkg.summary''\<rparr>,
         \<lparr>prop_key = ''value'', prop_value = ''Nginx Webserver''\<rparr>]\<rparr>,
      (Action_new Kind_Link)\<lparr>act_properties :=
        [\<lparr>prop_key = ''path'', prop_value = ''usr/a''\<rparr>, \<lparr>prop_key = ''target'', prop_value = ''b''\<rparr>]\<rparr>,
      (Action_new Kind_File)\<lparr>act_payload_string := ''Sol/smb'',
        act_properties := [\<lparr>prop_key = ''mode'', prop_value = ''0555''\<rparr>]\<rparr>]"

lemma sample_parse_eval:
  "(case sample_parse M_manifest example_manifest of Ok ps \<Rightarrow> Some (manifest_actions ps) | _ \<Rightarrow> None)
     = Some sample_actions"
  by code_simp

lemma sample_parse_ok:
  "\<exists>ps. sample_parse M_manifest example_manifest = Ok ps \<and> manifest_actions ps = sample_actions"
  using sample_parse_eval by (auto split: res.splits)

lemma sample_supported: "\<not> list_ex unsupported sample_actions"
  by (simp add: sample_actions_def unsupported_def Action_new_def File_from_panic payload_form_of_def
      form_digest_def form_properties_def hash_digests_def hash_key_def)

lemma sample_manifest_read: "\<exists>m. parse_string sample_parse example_manifest = Ok m"
proof -
  obtain ps where ps: "sample_parse M_manifest example_manifest = Ok ps" "manifest_actions ps = sample_actions"
    using sample_parse_ok by blast
  have "\<not> is_panic (fold_res add_action sample_actions Manifest_new)"
    by (simp add: add_actions_panic sample_supported)
  then show ?thesis
    using res_total [OF _ add_actions_no_err] parse_string_loop [OF sample_contract] ps by fastforce
qed

text \<open>
  C2: reading a manifest, for every parser that keeps the grammar's contract, is: return the parser's
  error, or add the actions of the tree one after the other to an empty manifest. In particular none
  of the \<^verbatim>\<open>unexpected rule\<close> panics of the tree walk can happen, comments, blank lines and transforms are
  skipped, and property values lose their quotes and backslashes.
\<close>

theorem parse_string_refines:
  assumes "pest_parser manifest_grammar parse"
  shows "parse_string parse c =
    (case parse M_manifest c of
       Ok ps \<Rightarrow> fold_res add_action (manifest_actions ps) Manifest_new
     | Err e \<Rightarrow> Err (ActParserError e)
     | Panic m \<Rightarrow> Panic m)"
  using assms by (rule parse_string_loop)

theorem parse_string_refines_witness:
  "parse_string sample_parse example_manifest =
    (case sample_parse M_manifest example_manifest of
       Ok ps \<Rightarrow> fold_res add_action (manifest_actions ps) Manifest_new
     | Err e \<Rightarrow> Err (ActParserError e)
     | Panic m \<Rightarrow> Panic m)"
  by (rule parse_string_refines [OF sample_contract])

text \<open>
  C8: a manifest that is read holds exactly the actions of the tree, each converted, grouped by kind and in
  the order of the file; nothing is lost and nothing is added.
\<close>

theorem parse_string_contents:
  assumes "pest_parser manifest_grammar parse"
    and "parse M_manifest c = Ok ps" and "parse_string parse c = Ok m"
  shows "m_attributes m = map Attr_from (of_kind Kind_Attr (manifest_actions ps))
    \<and> m_directories m = map Dir_from (of_kind Kind_Dir (manifest_actions ps))
    \<and> map Ok (m_files m) = map File_from (of_kind Kind_File (manifest_actions ps))
    \<and> m_dependencies m = map Dependency_from (of_kind Kind_Dependency (manifest_actions ps))
    \<and> m_licenses m = map License_from (of_kind Kind_License (manifest_actions ps))
    \<and> m_links m = map Link_from (of_kind Kind_Link (manifest_actions ps))
    \<and> length (manifest_actions ps) = length (m_attributes m) + length (m_directories m)
        + length (m_files m) + length (m_dependencies m) + length (m_licenses m) + length (m_links m)"
proof -
  have run: "fold_res add_action (manifest_actions ps) Manifest_new = Ok m"
    using assms parse_string_loop [OF assms(1)] by simp
  note contents = add_actions_contents [OF run]
  have "\<not> list_ex unsupported (manifest_actions ps)"
    using add_actions_panic [of "manifest_actions ps" Manifest_new] run by simp
  then have "length (manifest_actions ps) =
      length (of_kind Kind_Attr (manifest_actions ps)) + length (of_kind Kind_Dir (manifest_actions ps))
      + length (of_kind Kind_File (manifest_actions ps)) + length (of_kind Kind_Dependency (manifest_actions ps))
      + length (of_kind Kind_License (manifest_actions ps)) + length (of_kind Kind_Link (manifest_actions ps))"
    by (rule supported_partition)
  then show ?thesis using contents by (simp add: map_eq_imp_length_eq [of Ok "m_files m" File_from])
qed

theorem parse_string_contents_witness:
  "\<exists>ps m. sample_parse M_manifest example_manifest = Ok ps \<and> parse_string sample_parse example_manifest = Ok m
     \<and> map attr_values (m_attributes m) = [[''Nginx Webserver'']] \<and> map link_target (m_links m) = [''b'']
     \<and> length (m_files m) = 1"
proof -
  obtain ps where ps: "sample_parse M_manifest example_manifest = Ok ps" "manifest_actions ps = sample_actions"
    using sample_parse_ok by blast
  obtain m where m: "parse_string sample_parse example_manifest = Ok m" using sample_manifest_read by blast
  have a: "map attr_values (m_attributes m) = [[''Nginx Webserver'']]" "map link_target (m_links m) = [''b'']"
    "length (m_files m) = 1"
    using parse_string_contents [OF sample_contract ps(1) m]
    by (auto simp: ps(2) sample_actions_def of_kind_def Action_new_def Attr_from_spec Link_from_spec
        push_payload_def last_value_def)
  show ?thesis by (intro exI [of _ ps] exI [of _ m] conjI) (rule ps m a)+
qed

text \<open>
  C14: exactly when reading a manifest panics: the tree has an action \<^verbatim>\<open>user\<close>, \<^verbatim>\<open>group\<close>,
  \<^verbatim>\<open>driver\<close> or \<^verbatim>\<open>legacy\<close>, which the grammar accepts but \<^verbatim>\<open>add_action\<close> has left as \<^verbatim>\<open>todo!\<close>, or a
  file action with a malformed digest: one with a single colon, or with more colons and a second field
  that is not the name of an algorithm, as the payload string of the action or as the value of a property \<^verbatim>\<open>chash\<close> or
  \<^verbatim>\<open>pkg.content-hash\<close>.
\<close>

theorem parse_string_panics:
  assumes "pest_parser manifest_grammar parse" and "parse M_manifest c = Ok ps"
  shows "is_panic (parse_string parse c) \<longleftrightarrow>
    list_ex (\<lambda>a. act_kind a \<in> {Kind_User, Kind_Group, Kind_Driver, Kind_Legacy}
      \<or> act_kind a = Kind_File \<and> malformed_file a) (manifest_actions ps)"
proof -
  have "unsupported a \<longleftrightarrow> act_kind a \<in> {Kind_User, Kind_Group, Kind_Driver, Kind_Legacy}
      \<or> act_kind a = Kind_File \<and> malformed_file a" if "a \<in> set (manifest_actions ps)" for a
    using manifest_actions_kind [OF assms that] by (auto simp: unsupported_def File_from_malformed)
  then show ?thesis
    using parse_string_loop [OF assms(1), of c] assms(2) add_actions_panic [of "manifest_actions ps" Manifest_new]
    by (auto simp: list_ex_iff)
qed

lemma sample_panic_trees:
  "(case sample_parse M_manifest ''user username=nginx'' of
      Ok ps \<Rightarrow> map act_kind (manifest_actions ps) | _ \<Rightarrow> []) = [Kind_User]"
  "(case sample_parse M_manifest ''file a:b path=x'' of
      Ok ps \<Rightarrow> list_ex (\<lambda>a. act_kind a = Kind_File \<and> malformed_file a) (manifest_actions ps) | _ \<Rightarrow> False)"
  by code_simp+

theorem parse_string_panics_witness:
  "is_panic (parse_string sample_parse ''user username=nginx'')
   \<and> is_panic (parse_string sample_parse ''file a:b path=x'')
   \<and> \<not> is_panic (parse_string sample_parse example_manifest)"
proof -
  obtain ps where ps: "sample_parse M_manifest ''user username=nginx'' = Ok ps"
    using sample_panic_trees(1) by (auto split: res.splits)
  with sample_panic_trees(1) obtain a where "manifest_actions ps = [a]" "act_kind a = Kind_User" by auto
  then have 1: "is_panic (parse_string sample_parse ''user username=nginx'')"
    using parse_string_panics [OF sample_contract ps] by simp
  obtain rs where rs: "sample_parse M_manifest ''file a:b path=x'' = Ok rs"
    using sample_panic_trees(2) by (auto split: res.splits)
  with sample_panic_trees(2) have 2: "is_panic (parse_string sample_parse ''file a:b path=x'')"
    using parse_string_panics [OF sample_contract rs] by (auto simp: list_ex_iff)
  obtain qs where qs: "sample_parse M_manifest example_manifest = Ok qs" "manifest_actions qs = sample_actions"
    using sample_parse_ok by blast
  have "\<not> is_panic (parse_string sample_parse example_manifest)"
    using parse_string_panics [OF sample_contract qs(1)] sample_supported
    by (simp add: qs(2) list_ex_iff unsupported_def File_from_malformed)
  with 1 2 show ?thesis by blast
qed

end
