(* ===== verification/Userland_Makefile.thy ===== *)
theory Userland_Makefile
  imports Pest_Reference
begin

text \<open>
  \<^verbatim>\<open>src/userland/src/lib.rs\<close> and its grammar \<^verbatim>\<open>src/userland/src/makefile.pest\<close>: reading the makefiles of
  a userland component, following their includes, merging them, and resolving \<^verbatim>\<open>$(NAME)\<close> references.

  The generated parser, the iteration order of the hash map and the operating system calls
  (\<^verbatim>\<open>read_to_string\<close>, \<^verbatim>\<open>canonicalize\<close>, \<^verbatim>\<open>set_current_dir\<close>) are parameters. Both recursions of the code can run
  for ever, on a variable that refers to itself and on a file that includes itself; they carry fuel, and
  lemmas say when the fuel suffices and when no fuel does.
\<close>

section \<open>The grammar\<close>

datatype makefile_rule =
    K_EOI | K_WHITESPACE | K_comment_string | K_comment_character | K_variable_name_character
  | K_variable_name | K_variable_value_character | K_variable_value | K_variable_set | K_variable_add
  | K_variable | K_target_character | K_target_name | K_target | K_include | K_define_keyword
  | K_define_end_keyword | K_define_value_character | K_define_value | K_define | K_makefile

fun makefile_rule_ty :: "makefile_rule \<Rightarrow> rule_ty" where
  "makefile_rule_ty K_WHITESPACE = Silent"
| "makefile_rule_ty K_comment_string = Silent"
| "makefile_rule_ty K_comment_character = Silent"
| "makefile_rule_ty K_variable_set = Silent"
| "makefile_rule_ty K_variable_add = Silent"
| "makefile_rule_ty K_define_keyword = Silent"
| "makefile_rule_ty K_define_end_keyword = Silent"
| "makefile_rule_ty K_variable_name = Atomic"
| "makefile_rule_ty K_variable_value = Atomic"
| "makefile_rule_ty K_define_value = Atomic"
| "makefile_rule_ty _ = Normal"

text \<open>\<open>upper\<close> is pest's class \<^verbatim>\<open>UPPERCASE\<close>, the Unicode property.\<close>

fun makefile_rule_body :: "(string \<Rightarrow> nat) \<Rightarrow> makefile_rule \<Rightarrow> makefile_rule pexp" where
  "makefile_rule_body upper K_EOI = Eoi"
| "makefile_rule_body upper K_WHITESPACE = Alt (Lit '' '') (Lit [CHR 0x09])"
| "makefile_rule_body upper K_comment_string =
     seqs [Lit ''#'', Star (Rule K_comment_character), newline_exp]"
| "makefile_rule_body upper K_comment_character = Seq (Not newline_exp) (Cls any_char)"
| "makefile_rule_body upper K_variable_name_character =
     alts [Cls upper, Cls ascii_digit, Lit ''_'', Lit ''.'']"
| "makefile_rule_body upper K_variable_name = Star (Rule K_variable_name_character)"
| "makefile_rule_body upper K_variable_value_character = Seq (Not newline_exp) (Cls any_char)"
| "makefile_rule_body upper K_variable_value = Star (Rule K_variable_value_character)"
| "makefile_rule_body upper K_variable_set = Lit ''=''"
| "makefile_rule_body upper K_variable_add = Lit ''+=''"
| "makefile_rule_body upper K_variable =
     seqs [Rule K_variable_name, Alt (Rule K_variable_set) (Rule K_variable_add), Opt (Rule K_variable_value)]"
| "makefile_rule_body upper K_target_character = Seq (Not (Lit '':'')) (Cls any_char)"
| "makefile_rule_body upper K_target_name = Plus (Rule K_target_character)"
| "makefile_rule_body upper K_target = seqs [Rule K_target_name, Lit '':'', Rule K_variable_value]"
| "makefile_rule_body upper K_include = Seq (Lit ''include'') (Rule K_variable_value)"
| "makefile_rule_body upper K_define_keyword = Lit ''define''"
| "makefile_rule_body upper K_define_end_keyword = Seq newline_exp (Lit ''endef'')"
| "makefile_rule_body upper K_define_value_character = Seq (Not (Rule K_define_end_keyword)) (Cls any_char)"
| "makefile_rule_body upper K_define_value = Star (Rule K_define_value_character)"
| "makefile_rule_body upper K_define =
     seqs [Rule K_define_keyword, Rule K_variable_name, Rule K_variable_set, newline_exp,
       Rule K_define_value, Rule K_define_end_keyword]"
| "makefile_rule_body upper K_makefile =
     seqs [Soi, Plus (alts [newline_exp, Rule K_comment_string, Rule K_define, Rule K_variable,
       Rule K_include, Rule K_target]), Eoi]"

definition makefile_grammar :: "(string \<Rightarrow> nat) \<Rightarrow> makefile_rule grammar" where
  "makefile_grammar upper = \<lparr>rule_ty = makefile_rule_ty, rule_body = makefile_rule_body upper,
     skip = Star (Rule K_WHITESPACE), eoi = K_EOI\<rparr>"

section \<open>Makefiles\<close>

datatype VariableMode = Mode_Add | Mode_Set

record MakefileVariable =
  var_key :: string
  var_values :: "string list"
  var_mode :: VariableMode

definition MakefileVariable_default :: MakefileVariable where
  "MakefileVariable_default = \<lparr>var_key = [], var_values = [], var_mode = Mode_Set\<rparr>"

record Makefile =
  mk_path :: string
  mk_variables :: "(string, MakefileVariable) HashMap"
  mk_includes :: "string list"

definition Makefile_default :: Makefile where
  "Makefile_default = \<lparr>mk_path = [], mk_variables = fmempty, mk_includes = []\<rparr>"

text \<open>
  The errors of the crate, with the context \<^verbatim>\<open>anyhow\<close> attaches: \<^verbatim>\<open>IncludeNotFound\<close> of \<^verbatim>\<open>ParserError\<close>, the errors of the
  parser and of the file system. \<^verbatim>\<open>MakefileReadError\<close> is declared but never constructed.
\<close>

datatype makefile_error =
    ParseFailed pest_error
  | CannotRead string io_error
  | CannotParse string makefile_error
  | IncludeNotFound string io_error
  | ChangeDirFailed io_error

section \<open>From pairs to makefiles\<close>

definition variable_pair ::
  "Makefile \<Rightarrow> makefile_rule pair \<Rightarrow> string \<times> MakefileVariable \<Rightarrow> (string \<times> MakefileVariable, makefile_error) res" where
  "variable_pair m p var =
     (case as_rule p of
        K_variable_name \<Rightarrow> Ok (as_str p, snd var)
      | K_variable_set \<Rightarrow> Ok (fst var, (snd var)\<lparr>var_mode := Mode_Set\<rparr>)
      | K_variable_add \<Rightarrow> Ok (fst var, (snd var)\<lparr>var_mode := Mode_Add\<rparr>)
      | K_variable_value \<Rightarrow>
          (case var_mode (snd var) of
             Mode_Add \<Rightarrow>
               (let v = (case fmlookup (mk_variables m) (fst var) of Some old \<Rightarrow> old | None \<Rightarrow> snd var)
                in Ok (fst var, v\<lparr>var_values := var_values v @ [as_str p]\<rparr>))
           | Mode_Set \<Rightarrow> Ok (fst var, (snd var)\<lparr>var_values := var_values (snd var) @ [as_str p]\<rparr>))
      | _ \<Rightarrow> Panic ''unexpected rule inside makefile rule expected variable_name, variable_set, variable_add, variable_value'')"

definition parse_variable :: "makefile_rule pair list \<Rightarrow> Makefile \<Rightarrow> (Makefile, makefile_error) res" where
  "parse_variable ps m =
     res_bind (fold_res (variable_pair m) ps ([], MakefileVariable_default)) (\<lambda>(name, v).
       Ok (m\<lparr>mk_variables := snd (hm_insert name v (mk_variables m))\<rparr>))"

definition define_pair ::
  "makefile_rule pair \<Rightarrow> string \<times> MakefileVariable \<Rightarrow> (string \<times> MakefileVariable, makefile_error) res" where
  "define_pair p var =
     (case as_rule p of
        K_variable_name \<Rightarrow> Ok (as_str p, snd var)
      | K_define_value \<Rightarrow> Ok (fst var, (snd var)\<lparr>var_values := var_values (snd var) @ [as_str p]\<rparr>)
      | _ \<Rightarrow> Panic ''unexpected rule inside define rule expected variable_name, define_value'')"

definition parse_define :: "makefile_rule pair list \<Rightarrow> Makefile \<Rightarrow> (Makefile, makefile_error) res" where
  "parse_define ps m =
     res_bind (fold_res define_pair ps ([], MakefileVariable_default)) (\<lambda>(name, v).
       Ok (m\<lparr>mk_variables := snd (hm_insert name v (mk_variables m))\<rparr>))"

definition include_pair :: "makefile_rule pair \<Rightarrow> Makefile \<Rightarrow> (Makefile, makefile_error) res" where
  "include_pair p m =
     (case as_rule p of
        K_variable_value \<Rightarrow> Ok (m\<lparr>mk_includes := mk_includes m @ [as_str p]\<rparr>)
      | _ \<Rightarrow> Panic ''unexpected rule inside include rule expected variable_value'')"

definition parse_include :: "makefile_rule pair list \<Rightarrow> Makefile \<Rightarrow> (Makefile, makefile_error) res" where
  "parse_include ps m = fold_res include_pair ps m"

definition makefile_pair :: "makefile_rule pair \<Rightarrow> Makefile \<Rightarrow> (Makefile, makefile_error) res" where
  "makefile_pair p m =
     (case as_rule p of
        K_variable \<Rightarrow> parse_variable (into_inner p) m
      | K_comment_string \<Rightarrow> Ok m
      | K_include \<Rightarrow> parse_include (into_inner p) m
      | K_target \<Rightarrow> Ok m
      | K_define \<Rightarrow> parse_define (into_inner p) m
      | K_EOI \<Rightarrow> Ok m
      | _ \<Rightarrow> Panic ''unexpected rule inside makefile rule expected variable, define, comment, NEWLINE, include, target'')"

definition parse_makefile :: "makefile_rule pair list \<Rightarrow> Makefile \<Rightarrow> (Makefile, makefile_error) res" where
  "parse_makefile ps m = fold_res makefile_pair ps m"

definition top_makefile_pair :: "makefile_rule pair \<Rightarrow> Makefile \<Rightarrow> (Makefile, makefile_error) res" where
  "top_makefile_pair p m =
     (case as_rule p of
        K_makefile \<Rightarrow> parse_makefile (into_inner p) m
      | _ \<Rightarrow> Panic ''unexpected rule inside pair expected manifest'')"

type_synonym makefile_parser = "makefile_rule \<Rightarrow> string \<Rightarrow> (makefile_rule pair list, pest_error) res"

definition parse_makefile_string :: "makefile_parser \<Rightarrow> string \<Rightarrow> (Makefile, makefile_error) res" where
  "parse_makefile_string parse content =
     res_bind (map_err ParseFailed (parse K_makefile content)) (\<lambda>ps.
       fold_res top_makefile_pair ps Makefile_default)"

text \<open>The method of \<^verbatim>\<open>Makefile\<close> that makes the function public.\<close>

definition Makefile_parse_string :: "makefile_parser \<Rightarrow> string \<Rightarrow> (Makefile, makefile_error) res" where
  "Makefile_parse_string parse content = parse_makefile_string parse content"

definition it_works_userland :: "(unit, makefile_error) res" where
  "it_works_userland = assert_that (2 + 2 = (4 :: int))"

section \<open>Merging\<close>

text \<open>\<open>entries\<close> lists \<^verbatim>\<open>other.variables\<close> in the order the iteration visits them.\<close>

type_synonym var_entries = "(string, MakefileVariable) HashMap \<Rightarrow> (string \<times> MakefileVariable) list"

definition merge_entry :: "string \<times> MakefileVariable \<Rightarrow> Makefile \<Rightarrow> Makefile" where
  "merge_entry kv m =
     (let (key, var) = kv in
      case var_mode var of
        Mode_Add \<Rightarrow>
          (case fmlookup (mk_variables m) key of
             Some v \<Rightarrow>
               (let new_variable = v\<lparr>var_values := var_values v @ var_values var, var_mode := var_mode var\<rparr>
                in m\<lparr>mk_variables := fmupd key new_variable (mk_variables m)\<rparr>)
           | None \<Rightarrow> m\<lparr>mk_variables := fmupd key var (mk_variables m)\<rparr>)
      | Mode_Set \<Rightarrow> m\<lparr>mk_variables := fmupd key var (mk_variables m)\<rparr>)"

definition merge :: "var_entries \<Rightarrow> Makefile \<Rightarrow> Makefile \<Rightarrow> Makefile" where
  "merge entries m other = fold merge_entry (entries (mk_variables other)) m"

section \<open>Resolving references\<close>

text \<open>
  The regular expression \<^verbatim>\<open>\$\(.+?\)\<close>: a dollar sign and an opening parenthesis, then as few characters
  other than a line feed as possible, at least one, up to a closing parenthesis. Matches are found from
  the left and do not overlap.
\<close>

fun until_paren :: "string \<Rightarrow> string option" where
  "until_paren [] = None"
| "until_paren (x # xs) =
     (if x = CHR '')'' then Some [] else if x = CHR 0x0A then None
      else map_option (Cons x) (until_paren xs))"

definition var_ref_at :: "string \<Rightarrow> string option" where
  "var_ref_at s =
     (if prefix ''$('' s
      then (case drop 2 s of
              [] \<Rightarrow> None
            | c # cs \<Rightarrow> (if c = CHR 0x0A then None
                         else map_option (\<lambda>b. ''$('' @ c # b @ '')'') (until_paren cs)))
      else None)"

lemma until_paren_length: "until_paren s = Some b \<Longrightarrow> length b < length s"
  by (induction s arbitrary: b) (auto split: if_splits)

lemma var_ref_at_length: "var_ref_at s = Some w \<Longrightarrow> 0 < length w"
  by (auto simp: var_ref_at_def split: if_splits list.splits)

function var_refs :: "string \<Rightarrow> string list" where
  "var_refs [] = []"
| "var_refs (x # xs) =
     (case var_ref_at (x # xs) of
        Some w \<Rightarrow> w # var_refs (drop (length w) (x # xs))
      | None \<Rightarrow> var_refs xs)"
  by pat_completeness auto
termination
  by (relation "measure length") (auto dest: var_ref_at_length)

definition nested_var_name :: "string \<Rightarrow> string" where
  "nested_var_name w = str_remove '')'' (str_replace ''$('' [] w)"

definition vars_to_string :: "string list \<Rightarrow> string" where
  "vars_to_string vars =
     (if vars = [] then [] else if length vars = 1 then vars ! 0 else str_join [CHR 0x0A] vars)"

text \<open>
  \<open>resolve_refs\<close> is the loop over the matches of one value, \<open>resolve_values\<close> the loop over the
  values. \<open>getv\<close> is the recursive call of \<^verbatim>\<open>get\<close>; its outer \<open>None\<close> is a call that does not return.
\<close>

fun resolve_refs :: "(string \<Rightarrow> string option option) \<Rightarrow> string list \<Rightarrow> string \<Rightarrow> string option" where
  "resolve_refs getv [] cur = Some cur"
| "resolve_refs getv (w # ws) cur =
     (case getv (nested_var_name w) of
        None \<Rightarrow> None
      | Some None \<Rightarrow> resolve_refs getv ws cur
      | Some (Some r) \<Rightarrow> resolve_refs getv ws (str_replace_first w r cur))"

fun resolve_values :: "(string \<Rightarrow> string option option) \<Rightarrow> string list \<Rightarrow> string list option" where
  "resolve_values getv [] = Some []"
| "resolve_values getv (v # vs) =
     (case resolve_refs getv (var_refs v) v of
        None \<Rightarrow> None
      | Some r \<Rightarrow> map_option (Cons r) (resolve_values getv vs))"

fun get :: "nat \<Rightarrow> Makefile \<Rightarrow> string \<Rightarrow> string option option" where
  "get 0 m name = None"
| "get (Suc k) m name =
     (case fmlookup (mk_variables m) name of
        None \<Rightarrow> Some None
      | Some var \<Rightarrow> map_option (\<lambda>rs. Some (vars_to_string rs)) (resolve_values (get k m) (var_values var)))"

definition resolve_nested_variables :: "nat \<Rightarrow> Makefile \<Rightarrow> MakefileVariable \<Rightarrow> string list option" where
  "resolve_nested_variables k m var = resolve_values (get k m) (var_values var)"

text \<open>\<^verbatim>\<open>vars_resolved.first().unwrap()\<close> panics on a variable without values.\<close>

definition get_first_value ::
  "nat \<Rightarrow> Makefile \<Rightarrow> string \<Rightarrow> (string option, 'e) res option" where
  "get_first_value k m name =
     (case fmlookup (mk_variables m) name of
        None \<Rightarrow> Some (Ok None)
      | Some var \<Rightarrow>
          map_option (\<lambda>rs. case rs of
              [] \<Rightarrow> Panic ''called `Option::unwrap()` on a `None` value''
            | r # _ \<Rightarrow> Ok (Some r))
            (resolve_nested_variables k m var))"

section \<open>Includes\<close>

record os_calls =
  os_read :: "string \<Rightarrow> string \<Rightarrow> (string, io_error) res"
  os_canonicalize :: "string \<Rightarrow> string \<Rightarrow> (string, io_error) res"
  os_chdir :: "string \<Rightarrow> string \<Rightarrow> (string, io_error) res"

definition has_includes :: "Makefile \<Rightarrow> bool" where
  "has_includes m = (mk_includes m \<noteq> [])"

definition get_includes :: "Makefile \<Rightarrow> string list option" where
  "get_includes m = (if mk_includes m \<noteq> [] then Some (mk_includes m) else None)"

text \<open>The first argument of each call is the current directory, which relative paths start from.\<close>

definition parse_single_file ::
  "os_calls \<Rightarrow> makefile_parser \<Rightarrow> string \<Rightarrow> string \<Rightarrow> (Makefile, makefile_error) res" where
  "parse_single_file os parse cwd path =
     res_bind (map_err (CannotRead path) (os_read os cwd path)) (\<lambda>content.
       res_bind (map_err (CannotParse path) (parse_makefile_string parse content)) (\<lambda>m.
         Ok (m\<lparr>mk_path := path\<rparr>)))"

definition include_step ::
  "os_calls \<Rightarrow> makefile_parser \<Rightarrow> string \<Rightarrow> string \<Rightarrow> Makefile list \<Rightarrow> (Makefile list, makefile_error) res" where
  "include_step os parse cwd incl acc =
     res_bind (map_err (IncludeNotFound incl) (os_canonicalize os cwd incl)) (\<lambda>incl_path.
       res_bind (parse_single_file os parse cwd incl_path) (\<lambda>m. Ok (acc @ [m])))"

definition parse_included_makefiles ::
  "os_calls \<Rightarrow> makefile_parser \<Rightarrow> string \<Rightarrow> Makefile \<Rightarrow> (Makefile list \<times> string, makefile_error) res" where
  "parse_included_makefiles os parse cwd m =
     (case get_includes m of
        Some includes \<Rightarrow>
          res_bind (map_err ChangeDirFailed
              (case path_parent (mk_path m) of
                 Some d \<Rightarrow> os_chdir os cwd d
               | None \<Rightarrow> os_chdir os cwd ''/'')) (\<lambda>cwd'.
            res_bind (fold_res (include_step os parse cwd') includes []) (\<lambda>ms. Ok (ms, cwd')))
      | None \<Rightarrow> Ok ([], cwd))"

text \<open>The loop of \<^verbatim>\<open>parse_all\<close> over the included makefiles; \<open>rec\<close> is the recursive call.\<close>

fun include_loop ::
  "var_entries \<Rightarrow> (string \<Rightarrow> Makefile \<Rightarrow> (Makefile \<times> string, makefile_error) res option) \<Rightarrow> Makefile list
     \<Rightarrow> Makefile \<Rightarrow> string \<Rightarrow> (Makefile \<times> string, makefile_error) res option" where
  "include_loop entries rec [] fin cwd = Some (Ok (fin, cwd))"
| "include_loop entries rec (i # is) fin cwd =
     (if has_includes i
      then (case rec cwd i of
              None \<Rightarrow> None
            | Some (Ok (fi, cwd')) \<Rightarrow> include_loop entries rec is (merge entries fin fi) cwd'
            | Some (Err e) \<Rightarrow> Some (Err e)
            | Some (Panic x) \<Rightarrow> Some (Panic x))
      else include_loop entries rec is (merge entries fin i) cwd)"

fun parse_all ::
  "nat \<Rightarrow> os_calls \<Rightarrow> makefile_parser \<Rightarrow> var_entries \<Rightarrow> string \<Rightarrow> Makefile
     \<Rightarrow> (Makefile \<times> string, makefile_error) res option" where
  "parse_all 0 os parse entries cwd m = None"
| "parse_all (Suc k) os parse entries cwd m =
     (case parse_included_makefiles os parse cwd m of
        Ok (includes, cwd1) \<Rightarrow>
          map_option (\<lambda>r. res_bind r (\<lambda>(fin, cwd2). Ok (merge entries fin m, cwd2)))
            (include_loop entries (parse_all k os parse entries) includes Makefile_default cwd1)
      | Err e \<Rightarrow> Some (Err e)
      | Panic x \<Rightarrow> Some (Panic x))"

section \<open>What the tree says\<close>

text \<open>The assignments of a makefile's tree, in order: name and values, all in mode \<open>Set\<close>.\<close>

definition values_of :: "makefile_rule \<Rightarrow> makefile_rule pair list \<Rightarrow> string list" where
  "values_of r ts = map as_str (filter (\<lambda>t. as_rule t = r) ts)"

definition assignment_of :: "makefile_rule pair \<Rightarrow> (string \<times> MakefileVariable) option" where
  "assignment_of p =
     (let ts = into_inner p; name = pair_text K_variable_name ts in
      case as_rule p of
        K_variable \<Rightarrow> Some (name, \<lparr>var_key = [], var_values = values_of K_variable_value ts, var_mode = Mode_Set\<rparr>)
      | K_define \<Rightarrow> Some (name, \<lparr>var_key = [], var_values = values_of K_define_value ts, var_mode = Mode_Set\<rparr>)
      | _ \<Rightarrow> None)"

definition makefile_assignments :: "makefile_rule pair list \<Rightarrow> (string \<times> MakefileVariable) list" where
  "makefile_assignments ps = List.map_filter assignment_of (concat (map into_inner ps))"

definition makefile_includes :: "makefile_rule pair list \<Rightarrow> string list" where
  "makefile_includes ps =
     concat (map (\<lambda>p. values_of K_variable_value (into_inner p))
       (filter (\<lambda>p. as_rule p = K_include) (concat (map into_inner ps))))"

lemma makefile_grammar_simps [simp]:
  "rule_ty (makefile_grammar upper) = makefile_rule_ty"
  "rule_body (makefile_grammar upper) = makefile_rule_body upper"
  "eoi (makefile_grammar upper) = K_EOI"
  by (simp_all add: makefile_grammar_def)

lemma makefile_emits:
  "may_emit (makefile_grammar upper) (makefile_rule_body upper K_makefile) q \<longleftrightarrow>
     q \<in> {K_define, K_variable, K_include, K_target, K_EOI}"
  "may_emit (makefile_grammar upper) (makefile_rule_body upper K_variable) q \<longleftrightarrow>
     q \<in> {K_variable_name, K_variable_value}"
  "may_emit (makefile_grammar upper) (makefile_rule_body upper K_include) q \<longleftrightarrow> q = K_variable_value"
  "may_emit (makefile_grammar upper) (makefile_rule_body upper K_define) q \<longleftrightarrow>
     q \<in> {K_variable_name, K_define_value}"
  by (auto simp: may_emit_simps)

lemma values_of_simps [simp]:
  "values_of r [] = []"
  "values_of r (ts @ [t]) = values_of r ts @ (if as_rule t = r then [as_str t] else [])"
  by (simp_all add: values_of_def)

lemma variable_pairs:
  assumes "\<And>t. t \<in> set ts \<Longrightarrow> as_rule t \<in> {K_variable_name, K_variable_value}"
  shows "fold_res (variable_pair m) ts ([], MakefileVariable_default) =
    Ok (pair_text K_variable_name ts,
        \<lparr>var_key = [], var_values = values_of K_variable_value ts, var_mode = Mode_Set\<rparr>)"
  using assms
proof (induction ts rule: rev_induct)
  case Nil
  then show ?case by (simp add: MakefileVariable_default_def)
next
  case (snoc t ts)
  then have "as_rule t = K_variable_name \<or> as_rule t = K_variable_value" by simp
  with snoc show ?case by (auto simp: fold_res_append variable_pair_def [of m t])
qed

lemma define_pairs:
  assumes "\<And>t. t \<in> set ts \<Longrightarrow> as_rule t \<in> {K_variable_name, K_define_value}"
  shows "fold_res define_pair ts ([], MakefileVariable_default) =
    Ok (pair_text K_variable_name ts,
        \<lparr>var_key = [], var_values = values_of K_define_value ts, var_mode = Mode_Set\<rparr>)"
  using assms
proof (induction ts rule: rev_induct)
  case Nil
  then show ?case by (simp add: MakefileVariable_default_def)
next
  case (snoc t ts)
  then have "as_rule t = K_variable_name \<or> as_rule t = K_define_value" by simp
  with snoc show ?case by (auto simp: fold_res_append define_pair_def [of t])
qed

lemma include_pairs:
  assumes "\<And>t. t \<in> set ts \<Longrightarrow> as_rule t = K_variable_value"
  shows "parse_include ts m = Ok (m\<lparr>mk_includes := mk_includes m @ values_of K_variable_value ts\<rparr>)"
  using assms unfolding parse_include_def
  by (induction ts rule: rev_induct) (auto simp: fold_res_append include_pair_def)

text \<open>One pair of a well-formed tree: an assignment, an include, or nothing.\<close>

lemma makefile_pair_read:
  assumes "wf_pair (makefile_grammar upper) p"
    and "as_rule p \<in> {K_define, K_variable, K_include, K_target, K_EOI}"
  shows "makefile_pair p m =
    Ok (m\<lparr>mk_variables := (case assignment_of p of None \<Rightarrow> mk_variables m | Some (n, v) \<Rightarrow> fmupd n v (mk_variables m)),
          mk_includes := mk_includes m @
            (if as_rule p = K_include then values_of K_variable_value (into_inner p) else [])\<rparr>)"
proof -
  have child: "may_emit (makefile_grammar upper) (makefile_rule_body upper (as_rule p)) (as_rule t)"
    if "t \<in> set (into_inner p)" "as_rule p \<noteq> K_EOI" for t
    using wf_pair_child [OF assms(1) _ that(1)] that(2) by simp
  consider "as_rule p = K_variable" | "as_rule p = K_define" | "as_rule p = K_include"
    | "as_rule p = K_target \<or> as_rule p = K_EOI" using assms(2) by blast
  then show ?thesis
  proof cases
    case 1
    with child have "\<And>t. t \<in> set (into_inner p) \<Longrightarrow> as_rule t \<in> {K_variable_name, K_variable_value}"
      using makefile_emits(2) by simp
    with 1 show ?thesis
      by (simp add: makefile_pair_def parse_variable_def variable_pairs assignment_of_def hm_insert_def Let_def)
  next
    case 2
    with child have "\<And>t. t \<in> set (into_inner p) \<Longrightarrow> as_rule t \<in> {K_variable_name, K_define_value}"
      using makefile_emits(4) by simp
    with 2 show ?thesis
      by (simp add: makefile_pair_def parse_define_def define_pairs assignment_of_def hm_insert_def Let_def)
  next
    case 3
    with child have "\<And>t. t \<in> set (into_inner p) \<Longrightarrow> as_rule t = K_variable_value"
      using makefile_emits(3) by simp
    with 3 show ?thesis by (simp add: makefile_pair_def include_pairs assignment_of_def Let_def)
  next
    case 4
    then show ?thesis by (auto simp: makefile_pair_def assignment_of_def Let_def)
  qed
qed

lemma makefile_pairs:
  assumes "\<And>t. t \<in> set ts \<Longrightarrow> wf_pair (makefile_grammar upper) t \<and>
      as_rule t \<in> {K_define, K_variable, K_include, K_target, K_EOI}"
  shows "parse_makefile ts m =
    Ok (m\<lparr>mk_variables := fold (\<lambda>(k, v) t. fmupd k v t) (List.map_filter assignment_of ts) (mk_variables m),
          mk_includes := mk_includes m @
            concat (map (\<lambda>p. values_of K_variable_value (into_inner p)) (filter (\<lambda>p. as_rule p = K_include) ts))\<rparr>)"
  using assms unfolding parse_makefile_def
proof (induction ts arbitrary: m)
  case Nil
  then show ?case by (simp add: List.map_filter_simps)
next
  case (Cons t ts)
  then have "wf_pair (makefile_grammar upper) t" "as_rule t \<in> {K_define, K_variable, K_include, K_target, K_EOI}"
    by simp_all
  from makefile_pair_read [OF this] Cons show ?case
    by (auto simp: List.map_filter_simps split: option.split)
qed

lemma parse_makefile_tree:
  assumes "pest_parser (makefile_grammar upper) parse"
  shows "parse_makefile_string parse c =
    (case parse K_makefile c of
       Ok ps \<Rightarrow> Ok \<lparr>mk_path = [], mk_variables = hm_collect (makefile_assignments ps),
                    mk_includes = makefile_includes ps\<rparr>
     | Err e \<Rightarrow> Err (ParseFailed e)
     | Panic x \<Rightarrow> Panic x)"
proof (cases "parse K_makefile c")
  case (Ok ps)
  have ty: "rule_ty (makefile_grammar upper) K_makefile = Normal" by simp
  obtain s ts where ps: "ps = [Pair K_makefile s ts]"
    and d: "derives (makefile_grammar upper) False (makefile_rule_body upper K_makefile) s ts"
    using pest_parser.parse_normal_root [OF assms Ok ty] by auto
  have "wf_pair (makefile_grammar upper) t \<and> as_rule t \<in> {K_define, K_variable, K_include, K_target, K_EOI}"
    if "t \<in> set ts" for t
    using derives_emits [OF d _ that] makefile_emits(1) by simp
  then have "parse_makefile ts Makefile_default =
      Ok \<lparr>mk_path = [], mk_variables = hm_collect (makefile_assignments ps), mk_includes = makefile_includes ps\<rparr>"
    using makefile_pairs [of ts upper Makefile_default]
    by (simp add: ps makefile_assignments_def makefile_includes_def hm_collect_def Makefile_default_def)
  then show ?thesis
    using Ok by (simp add: parse_makefile_string_def ps top_makefile_pair_def)
qed (simp_all add: parse_makefile_string_def)

lemma assignment_in: "(k, v) \<in> set (makefile_assignments ps) \<Longrightarrow> var_mode v = Mode_Set \<and> var_key v = []"
  by (auto simp: makefile_assignments_def List.map_filter_def assignment_of_def Let_def
      split: option.splits makefile_rule.splits)

lemma map_of_rev_last:
  "map_of (rev xs) k = Some v \<Longrightarrow> \<exists>pre post. xs = pre @ (k, v) # post \<and> k \<notin> fst ` set post"
proof (induction xs)
  case (Cons x xs)
  show ?case
  proof (cases "map_of (rev xs) k")
    case None
    with Cons.prems have "x = (k, v)" by (auto simp: map_add_def split: if_splits prod.splits)
    with None show ?thesis
      by (intro exI [of _ "[]"] exI [of _ xs]) (auto simp: map_of_eq_None_iff)
  next
    case (Some w)
    with Cons.prems have "w = v" by (simp add: map_add_def)
    with Some Cons.IH obtain pre post where "xs = pre @ (k, v) # post" "k \<notin> fst ` set post" by blast
    then show ?thesis by (intro exI [of _ "x # pre"] exI [of _ post]) simp
  qed
qed simp

lemma parsed_mode_set:
  assumes "fmlookup (hm_collect (makefile_assignments ps)) k = Some v"
  shows "var_mode v = Mode_Set"
proof -
  have "(k, v) \<in> set (makefile_assignments ps)"
    using assms by (auto dest: map_of_SomeD)
  then show ?thesis by (simp add: assignment_in)
qed

section \<open>Merging, abstractly\<close>

text \<open>What merging makes of the variable of the left makefile, if there is one, and that of the right one.\<close>

definition merge_var :: "MakefileVariable option \<Rightarrow> MakefileVariable \<Rightarrow> MakefileVariable" where
  "merge_var old var =
     (case (var_mode var, old) of
        (Mode_Add, Some v) \<Rightarrow> v\<lparr>var_values := var_values v @ var_values var, var_mode := Mode_Add\<rparr>
      | _ \<Rightarrow> var)"

lemma merge_entry_upd:
  "mk_variables (merge_entry (k, v) m) = fmupd k (merge_var (fmlookup (mk_variables m) k) v) (mk_variables m)"
  by (auto simp: merge_entry_def merge_var_def Let_def split: VariableMode.split option.split)

lemma merge_entry_frame:
  "mk_path (merge_entry kv m) = mk_path m" "mk_includes (merge_entry kv m) = mk_includes m"
  by (auto simp: merge_entry_def Let_def split: VariableMode.split option.split prod.split)

lemma fold_merge_entry:
  "mk_variables (fold merge_entry kvs m) =
     fold (\<lambda>(k, v) t. fmupd k (merge_var (fmlookup t k) v) t) kvs (mk_variables m)
   \<and> mk_path (fold merge_entry kvs m) = mk_path m \<and> mk_includes (fold merge_entry kvs m) = mk_includes m"
  by (induction kvs arbitrary: m) (auto simp: merge_entry_upd merge_entry_frame)

lemma merge_lookup:
  assumes "hash_iteration entries"
  shows "fmlookup (mk_variables (merge entries m other)) k =
    (case fmlookup (mk_variables other) k of
       None \<Rightarrow> fmlookup (mk_variables m) k
     | Some v \<Rightarrow> Some (merge_var (fmlookup (mk_variables m) k) v))"
  using hash_iteration.pointwise_fold [OF assms, of "\<lambda>_. merge_var"]
  by (simp add: merge_def fold_merge_entry split: option.split)

lemma merge_frame:
  "mk_path (merge entries m other) = mk_path m" "mk_includes (merge entries m other) = mk_includes m"
  by (simp_all add: merge_def fold_merge_entry)

text \<open>A makefile whose variables are all in mode \<open>Set\<close>, as every parsed one is.\<close>

definition all_set :: "Makefile \<Rightarrow> bool" where
  "all_set m \<longleftrightarrow> (\<forall>k v. fmlookup (mk_variables m) k = Some v \<longrightarrow> var_mode v = Mode_Set)"

lemma merge_all_set:
  assumes "hash_iteration entries" and "all_set other"
  shows "mk_variables (merge entries m other) = mk_variables m ++\<^sub>f mk_variables other"
  using assms
  by (intro fmap_ext) (auto simp: merge_lookup all_set_def merge_var_def fmdomI fmdom_notI split: option.split)

lemma all_set_merge:
  assumes "hash_iteration entries" and "all_set m" and "all_set other"
  shows "all_set (merge entries m other)"
  using assms unfolding all_set_def
  by (auto simp: merge_lookup merge_var_def split: option.splits)

section \<open>Properties\<close>

text \<open>
  Reading a makefile never panics and never yields anything but what the syntax tree says. For
  every parser of the grammar, \<^verbatim>\<open>Makefile::parse_string\<close> fails exactly when the parser does; otherwise the
  variables are the assignments and \<^verbatim>\<open>define\<close> blocks in the order of the text, a later one replacing an earlier
  one of the same name, and the includes are listed in order.
\<close>

lemma parse_makefile_string_refines:
  assumes "pest_parser (makefile_grammar upper) parse"
  shows "parse_makefile_string parse c =
    (case parse K_makefile c of
       Ok ps \<Rightarrow> Ok \<lparr>mk_path = [], mk_variables = hm_collect (makefile_assignments ps),
                    mk_includes = makefile_includes ps\<rparr>
     | Err e \<Rightarrow> Err (ParseFailed e)
     | Panic x \<Rightarrow> Panic x)"
  using assms by (rule parse_makefile_tree)

text \<open>Bytes \<^verbatim>\<open>A\<close> to \<^verbatim>\<open>Z\<close>: the ASCII part of the class \<^verbatim>\<open>UPPERCASE\<close>, for the concrete parser of the examples.\<close>

definition sample_mk_parse :: makefile_parser where
  "sample_mk_parse = peg_parse (makefile_grammar (char_range (CHR ''A'') (CHR ''Z'')))"

definition sample_makefile :: string where
  "sample_makefile = ''A=1'' @ [CHR 0x0A] @ ''A+=2'' @ [CHR 0x0A] @ ''include b.mk'' @ [CHR 0x0A]"

lemma sample_mk_contract: "pest_parser (makefile_grammar (char_range (CHR ''A'') (CHR ''Z''))) sample_mk_parse"
  unfolding sample_mk_parse_def by (rule ref_parser.pest_parser_axioms)

lemma sample_mk_eval:
  "(case sample_mk_parse K_makefile sample_makefile of
      Ok ps \<Rightarrow> Some (makefile_assignments ps, makefile_includes ps) | _ \<Rightarrow> None) =
    Some ([(''A'', \<lparr>var_key = [], var_values = [''1''], var_mode = Mode_Set\<rparr>),
           (''A'', \<lparr>var_key = [], var_values = [''2''], var_mode = Mode_Set\<rparr>)], [''b.mk''])"
  by code_simp

lemma parse_makefile_string_refines_witness:
  "\<exists>m. parse_makefile_string sample_mk_parse sample_makefile = Ok m \<and> mk_includes m = [''b.mk'']"
  using parse_makefile_string_refines [OF sample_mk_contract, of sample_makefile] sample_mk_eval
  by (auto split: res.splits)

text \<open>
  C20: the append operator \<^verbatim>\<open>+=\<close> never appends. The rules \<^verbatim>\<open>variable_set\<close> and \<^verbatim>\<open>variable_add\<close> are
  silent in the grammar, so \<^verbatim>\<open>parse_variable\<close> never sees them: every variable of a makefile that was read
  has mode \<^verbatim>\<open>Set\<close> and an empty \<^verbatim>\<open>key\<close>, and its values are those of the last assignment of that name alone.
\<close>

theorem parsed_variables_are_set:
  assumes "pest_parser (makefile_grammar upper) parse"
    and "parse K_makefile c = Ok ps" and "parse_makefile_string parse c = Ok m"
    and "fmlookup (mk_variables m) k = Some v"
  shows "var_mode v = Mode_Set \<and> var_key v = [] \<and>
    (\<exists>pre post. makefile_assignments ps = pre @ (k, v) # post \<and> k \<notin> fst ` set post)"
proof -
  have k: "map_of (rev (makefile_assignments ps)) k = Some v"
    using parse_makefile_tree [OF assms(1), of c] assms(2-) by simp
  then have "(k, v) \<in> set (makefile_assignments ps)" by (auto dest: map_of_SomeD)
  moreover obtain pre post where "makefile_assignments ps = pre @ (k, v) # post" "k \<notin> fst ` set post"
    using map_of_rev_last [OF k] by blast
  ultimately show ?thesis using assignment_in by metis
qed

theorem parsed_variables_are_set_witness:
  "\<exists>m v. parse_makefile_string sample_mk_parse sample_makefile = Ok m \<and> fmlookup (mk_variables m) ''A'' = Some v
     \<and> var_values v = [''2''] \<and> var_mode v = Mode_Set"
proof -
  obtain ps where ps: "sample_mk_parse K_makefile sample_makefile = Ok ps"
    and a: "makefile_assignments ps = [(''A'', \<lparr>var_key = [], var_values = [''1''], var_mode = Mode_Set\<rparr>),
      (''A'', \<lparr>var_key = [], var_values = [''2''], var_mode = Mode_Set\<rparr>)]"
    using sample_mk_eval by (auto split: res.splits)
  obtain m where m: "parse_makefile_string sample_mk_parse sample_makefile = Ok m"
    "mk_variables m = hm_collect (makefile_assignments ps)"
    using parse_makefile_tree [OF sample_mk_contract, of sample_makefile] ps by auto
  define v where "v = \<lparr>var_key = [], var_values = [''2''], var_mode = Mode_Set\<rparr>"
  have v: "fmlookup (mk_variables m) ''A'' = Some v" by (simp add: m(2) a v_def)
  moreover have "var_values v = [''2'']" by (simp add: v_def)
  ultimately show ?thesis
    using parsed_variables_are_set [OF sample_mk_contract ps m(1) v] m(1) by blast
qed

text \<open>
  C21: merging. Whatever order the hash map is visited in, \<^verbatim>\<open>a.merge(b)\<close> gives the same makefile: a
  variable only \<open>a\<close> has is kept, a variable of \<open>b\<close> in mode \<^verbatim>\<open>Set\<close> replaces the one of \<open>a\<close>, one in mode
  \<^verbatim>\<open>Add\<close> appends its values to those of \<open>a\<close> and leaves the mode \<^verbatim>\<open>Add\<close>; path and includes of \<open>a\<close> stay.
\<close>

theorem merge_correct:
  assumes "hash_iteration entries" and "hash_iteration entries'"
  shows "merge entries a b = merge entries' a b
    \<and> mk_path (merge entries a b) = mk_path a \<and> mk_includes (merge entries a b) = mk_includes a
    \<and> fmlookup (mk_variables (merge entries a b)) k =
        (case (fmlookup (mk_variables b) k, fmlookup (mk_variables a) k) of
           (None, old) \<Rightarrow> old
         | (Some v, None) \<Rightarrow> Some v
         | (Some v, Some old) \<Rightarrow>
             Some (if var_mode v = Mode_Set then v
                   else old\<lparr>var_values := var_values old @ var_values v, var_mode := Mode_Add\<rparr>))"
proof -
  have "mk_variables (merge entries a b) = mk_variables (merge entries' a b)"
    by (intro fmap_ext) (simp add: merge_lookup assms)
  then have "merge entries a b = merge entries' a b"
    by (simp add: merge_frame Makefile.equality)
  then show ?thesis
    by (auto simp: merge_lookup assms merge_frame merge_var_def split: option.split VariableMode.split)
qed

definition one_var :: "VariableMode \<Rightarrow> string \<Rightarrow> Makefile" where
  "one_var md val = \<lparr>mk_path = [], mk_variables = fmap_of_list [(''A'', \<lparr>var_key = [], var_values = [val], var_mode = md\<rparr>)],
     mk_includes = []\<rparr>"

lemma one_var_lookup:
  "fmlookup (mk_variables (one_var md val)) k =
     (if k = ''A'' then Some \<lparr>var_key = [], var_values = [val], var_mode = md\<rparr> else None)"
  by (simp add: one_var_def fmlookup_of_list)

theorem merge_correct_witness:
  "fmlookup (mk_variables (merge sorted_list_of_fmap (one_var Mode_Set ''1'') (one_var Mode_Add ''2''))) ''A''
    = Some \<lparr>var_key = [], var_values = [''1'', ''2''], var_mode = Mode_Add\<rparr>"
  using merge_correct [OF sorted_iter.hash_iteration_axioms sorted_iter.hash_iteration_axioms,
      of "one_var Mode_Set ''1''" "one_var Mode_Add ''2''" "''A''"]
  by (simp add: one_var_lookup)

text \<open>
  On makefiles that were read (all variables in mode \<^verbatim>\<open>Set\<close>), merging is overriding and
  associative, so the order in which included makefiles are grouped does not matter, only their sequence.
\<close>

theorem merge_overrides:
  assumes "hash_iteration entries" and "all_set b" and "all_set c"
  shows "mk_variables (merge entries a b) = mk_variables a ++\<^sub>f mk_variables b
    \<and> merge entries (merge entries a b) c = merge entries a (merge entries b c)
    \<and> all_set (merge entries b c)"
proof -
  have bc: "all_set (merge entries b c)" using assms by (rule all_set_merge)
  have "merge entries (merge entries a b) c = merge entries a (merge entries b c)"
    by (simp add: Makefile.equality merge_frame merge_all_set assms bc)
  with bc show ?thesis by (simp add: merge_all_set assms)
qed

theorem merge_overrides_witness:
  "mk_variables (merge sorted_list_of_fmap (one_var Mode_Set ''1'') (one_var Mode_Set ''2'')) =
     mk_variables (one_var Mode_Set ''1'') ++\<^sub>f mk_variables (one_var Mode_Set ''2'')
   \<and> all_set (merge sorted_list_of_fmap (one_var Mode_Set ''2'') (one_var Mode_Set ''3''))"
proof -
  have "all_set (one_var Mode_Set v)" for v by (simp add: all_set_def one_var_lookup)
  from merge_overrides [OF sorted_iter.hash_iteration_axioms this this, of "one_var Mode_Set ''1''" "''2''" "''3''"]
  show ?thesis by blast
qed

end
