(* ===== verification/Userland_Resolve.thy ===== *)
theory Userland_Resolve
  imports Userland_Makefile
begin

text \<open>
  Resolution of \<^verbatim>\<open>$(NAME)\<close> references (\<^verbatim>\<open>Makefile::get\<close>, \<^verbatim>\<open>resolve_nested_variables\<close> in
  \<^verbatim>\<open>src/userland/src/lib.rs\<close>): when it returns, when it cannot, and what it returns.
\<close>

section \<open>Lemmas about references\<close>

lemma resolve_refs_None:
  "resolve_refs g ws cur = None \<longleftrightarrow> (\<exists>w \<in> set ws. g (nested_var_name w) = None)"
  by (induction ws arbitrary: cur) (auto split: option.split)

lemma resolve_values_None:
  "resolve_values g vs = None \<longleftrightarrow> (\<exists>v \<in> set vs. \<exists>w \<in> set (var_refs v). g (nested_var_name w) = None)"
proof (induction vs)
  case (Cons v vs)
  have "resolve_refs g (var_refs v) v = None \<longleftrightarrow> (\<exists>w \<in> set (var_refs v). g (nested_var_name w) = None)"
    by (rule resolve_refs_None)
  with Cons show ?case by (cases "resolve_refs g (var_refs v) v") auto
qed simp

lemma resolve_refs_mono:
  "(\<And>n r. g n = Some r \<Longrightarrow> h n = Some r) \<Longrightarrow> resolve_refs g ws cur = Some x \<Longrightarrow> resolve_refs h ws cur = Some x"
  by (induction ws arbitrary: cur) (fastforce split: option.splits)+

lemma resolve_values_mono:
  "(\<And>n r. g n = Some r \<Longrightarrow> h n = Some r) \<Longrightarrow> resolve_values g vs = Some x \<Longrightarrow> resolve_values h vs = Some x"
proof (induction vs arbitrary: x)
  case (Cons v vs)
  from Cons.prems(2) obtain r rs where "resolve_refs g (var_refs v) v = Some r"
    "resolve_values g vs = Some rs" "x = r # rs" by (auto split: option.splits)
  with Cons show ?case by (simp add: resolve_refs_mono [of g h])
qed simp

lemma get_mono_Suc: "get k m n = Some r \<Longrightarrow> get (Suc k) m n = Some r"
proof (induction k arbitrary: n r)
  case (Suc k)
  show ?case
  proof (cases "fmlookup (mk_variables m) n")
    case None
    with Suc.prems show ?thesis by simp
  next
    case (Some var)
    with Suc.prems obtain rs where rs: "resolve_values (get k m) (var_values var) = Some rs"
      "r = Some (vars_to_string rs)" by auto
    have "resolve_values (get (Suc k) m) (var_values var) = Some rs"
      using Suc.IH rs(1) by (rule resolve_values_mono)
    with Some rs(2) show ?thesis by simp
  qed
qed simp

lemma get_mono: "k \<le> j \<Longrightarrow> get k m n = Some r \<Longrightarrow> get j m n = Some r"
  by (induction rule: dec_induct) (auto simp del: get.simps intro: get_mono_Suc)

text \<open>The names a variable's values refer to.\<close>

definition references :: "Makefile \<Rightarrow> string \<Rightarrow> string list" where
  "references m k =
     (case fmlookup (mk_variables m) k of
        None \<Rightarrow> []
      | Some var \<Rightarrow> map nested_var_name (concat (map var_refs (var_values var))))"

lemma get_None_step:
  "get (Suc k) m n = None \<longleftrightarrow> (\<exists>r \<in> set (references m n). get k m r = None)"
  by (auto simp: references_def resolve_values_None split: option.split)

lemma get_enough_fuel:
  assumes "\<And>n r. r \<in> set (references m n) \<Longrightarrow> rank r < (rank n :: nat)" and "rank n < k"
  shows "get k m n \<noteq> None"
  using assms(2)
proof (induction k arbitrary: n)
  case (Suc k)
  have "get k m r \<noteq> None" if "r \<in> set (references m n)" for r
    using Suc.IH [of r] assms(1) [OF that] Suc.prems by simp
  then show ?case unfolding get_None_step by blast
qed simp

lemma get_cycle:
  assumes "\<And>n. n \<in> C \<Longrightarrow> \<exists>r \<in> set (references m n). r \<in> C" and "n \<in> C"
  shows "get k m n = None"
  using assms(2)
proof (induction k arbitrary: n)
  case (Suc k)
  with assms(1) show ?case unfolding get_None_step by blast
qed simp

text \<open>Text without a dollar sign has no references, and the reference that follows it is found.\<close>

lemma var_ref_at_dollar: "var_ref_at (x # xs) = Some w \<Longrightarrow> x = CHR ''$''"
  by (auto simp: var_ref_at_def split: if_splits)

lemma var_refs_skip: "CHR ''$'' \<notin> set a \<Longrightarrow> var_refs (a @ s) = var_refs s"
proof (induction a)
  case (Cons x a)
  then have "var_ref_at (x # a @ s) = None" using var_ref_at_dollar by (cases "var_ref_at (x # a @ s)") auto
  with Cons show ?case by simp
qed simp

lemma var_refs_plain: "CHR ''$'' \<notin> set a \<Longrightarrow> var_refs a = []"
  using var_refs_skip [of a "[]"] by simp

lemma until_paren_name:
  "CHR '')'' \<notin> set n \<Longrightarrow> CHR 0x0A \<notin> set n \<Longrightarrow> until_paren (n @ CHR '')'' # s) = Some n"
  by (induction n) auto

definition var_name_ok :: "string \<Rightarrow> bool" where
  "var_name_ok n \<longleftrightarrow> n \<noteq> [] \<and> set n \<inter> set ''$()'' = {} \<and> CHR 0x0A \<notin> set n"

definition ref :: "string \<Rightarrow> string" where
  "ref n = ''$('' @ n @ '')''"

lemma var_refs_ref:
  assumes "var_name_ok n"
  shows "var_refs (ref n @ s) = ref n # var_refs s"
proof -
  obtain c cs where n: "n = c # cs" using assms by (cases n) (auto simp: var_name_ok_def)
  with assms have "var_ref_at (''$('' @ n @ '')'' @ s) = Some (''$('' @ n @ '')'')"
    by (auto simp: var_ref_at_def until_paren_name var_name_ok_def)
  then show ?thesis by (simp add: ref_def)
qed

lemma nested_var_name_ref:
  assumes "var_name_ok n"
  shows "nested_var_name (ref n) = n"
proof -
  have "str_replace ''$('' [] (n @ '')'') = n @ '')''"
    using assms by (intro str_replace_absent_char [of "CHR ''$''"]) (auto simp: var_name_ok_def)
  moreover have "str_remove '')'' n = n"
    using assms by (intro str_remove_id) (auto simp: var_name_ok_def)
  ultimately show ?thesis
    using str_replace_hit [of "''$(''" "[]" "n @ '')''"]
    by (simp add: nested_var_name_def str_remove_def ref_def)
qed

section \<open>Expansion of a value\<close>

text \<open>
  A value, read as text with references in it: each part is some text followed by a reference, and some
  text ends the value. Expanding replaces each reference whose variable has a value, and leaves the others.
\<close>

fun template :: "(string \<times> string) list \<Rightarrow> string \<Rightarrow> string" where
  "template [] t = t"
| "template ((a, n) # ps) t = a @ ref n @ template ps t"

fun expand :: "(string \<Rightarrow> string option) \<Rightarrow> (string \<times> string) list \<Rightarrow> string \<Rightarrow> string" where
  "expand env [] t = t"
| "expand env ((a, n) # ps) t = a @ (case env n of Some r \<Rightarrow> r | None \<Rightarrow> ref n) @ expand env ps t"

definition template_ok :: "(string \<times> string) list \<Rightarrow> string \<Rightarrow> bool" where
  "template_ok ps t \<longleftrightarrow> (\<forall>(a, n) \<in> set ps. CHR ''$'' \<notin> set a \<and> var_name_ok n) \<and> CHR ''$'' \<notin> set t"

lemma var_refs_template:
  "template_ok ps t \<Longrightarrow> var_refs (template ps t) = map (\<lambda>p. ref (snd p)) ps"
proof (induction ps)
  case Nil
  then show ?case by (simp add: template_ok_def var_refs_plain)
next
  case (Cons p ps)
  obtain a n where p: "p = (a, n)" by force
  with Cons.prems have a: "CHR ''$'' \<notin> set a" and n: "var_name_ok n" and ok: "template_ok ps t"
    by (auto simp: template_ok_def)
  have "var_refs (template (p # ps) t) = var_refs (ref n @ template ps t)"
    using var_refs_skip [OF a, of "ref n @ template ps t"] by (simp add: p)
  also have "\<dots> = ref n # var_refs (template ps t)"
    by (rule var_refs_ref [OF n])
  finally show ?case using Cons.IH [OF ok] by (simp only: p list.map snd_conv)
qed

text \<open>Text that the replacement of a defined reference passes over: plain text and undefined references.\<close>

inductive passed :: "(string \<Rightarrow> string option) \<Rightarrow> string \<Rightarrow> bool" for env where
  passed_Nil: "passed env []"
| passed_text: "passed env p \<Longrightarrow> CHR ''$'' \<notin> set a \<Longrightarrow> passed env (p @ a)"
| passed_ref: "passed env p \<Longrightarrow> var_name_ok n \<Longrightarrow> env n = None \<Longrightarrow> passed env (p @ ref n)"

lemma prefix_ref:
  assumes "var_name_ok n" and "var_name_ok m" and "prefix (ref n) (ref m @ s)"
  shows "n = m"
proof -
  from assms(3) obtain t where t: "n @ CHR '')'' # t = m @ CHR '')'' # s"
    by (auto simp: prefix_def ref_def)
  have sn: "str_split_once (CHR '')'') (n @ CHR '')'' # t) = Some (n, t)"
    and sm: "str_split_once (CHR '')'') (m @ CHR '')'' # s) = Some (m, s)"
    using assms(1,2) by (auto simp: str_split_once_Some var_name_ok_def)
  show ?thesis using sn [unfolded t] unfolding sm by simp
qed

lemma replace_first_text:
  assumes "CHR ''$'' \<notin> set a"
  shows "str_replace_first (ref n) r (a @ s) = a @ str_replace_first (ref n) r s"
  using assms by (induction a) (auto simp: ref_def)

lemma replace_first_other_ref:
  assumes "var_name_ok n" and "var_name_ok m" and "n \<noteq> m"
  shows "str_replace_first (ref n) r (ref m @ s) = ref m @ str_replace_first (ref n) r s"
proof -
  have no: "\<not> prefix (ref n) (ref m @ s)" using prefix_ref assms by blast
  have "CHR ''$'' \<notin> set (CHR ''('' # m @ '')'')" using assms(2) by (auto simp: var_name_ok_def)
  from replace_first_text [OF this, of n r s] no show ?thesis by (simp add: ref_def [of m])
qed

lemma replace_first_passed:
  assumes "passed env p" and "var_name_ok n" and "env n = Some r"
  shows "str_replace_first (ref n) r (p @ s) = p @ str_replace_first (ref n) r s"
  using assms
proof (induction arbitrary: s rule: passed.induct)
  case (passed_text p a)
  then show ?case using replace_first_text [of a n r s] by simp
next
  case (passed_ref p m)
  then show ?case using replace_first_other_ref [of n m r s] by (cases "n = m") auto
qed simp

lemma resolve_template:
  assumes "template_ok ps t" and "passed env pre"
    and "\<And>n. n \<in> snd ` set ps \<Longrightarrow> getv n = Some (env n)"
    and "\<And>n r. env n = Some r \<Longrightarrow> CHR ''$'' \<notin> set r"
  shows "resolve_refs getv (map (\<lambda>p. ref (snd p)) ps) (pre @ template ps t) = Some (pre @ expand env ps t)"
  using assms(1-3)
proof (induction ps arbitrary: pre)
  case (Cons p ps)
  obtain a n where p: "p = (a, n)" by force
  with Cons.prems have a: "CHR ''$'' \<notin> set a" and n: "var_name_ok n" and ok: "template_ok ps t"
    by (auto simp: template_ok_def)
  have g: "getv (nested_var_name (ref n)) = Some (env n)"
    using nested_var_name_ref [OF n] Cons.prems(3) [of n] p by simp
  have rest: "\<And>n. n \<in> snd ` set ps \<Longrightarrow> getv n = Some (env n)" using Cons.prems(3) by simp
  have pa: "passed env (pre @ a)" using Cons.prems(2) a by (rule passed_text)
  show ?case
  proof (cases "env n")
    case None
    have "passed env ((pre @ a) @ ref n)" using pa n None by (rule passed_ref)
    from Cons.IH [OF ok this rest] show ?thesis using g None by (simp add: p)
  next
    case (Some r)
    have hit: "str_replace_first (ref n) r (ref n @ template ps t) = r @ template ps t"
      by (rule str_replace_first_hit) (simp add: ref_def)
    have "str_replace_first (ref n) r ((pre @ a) @ ref n @ template ps t) = (pre @ a) @ r @ template ps t"
      using replace_first_passed [OF pa n Some] hit by simp
    moreover have "passed env ((pre @ a) @ r)" using pa assms(4) [OF Some] by (rule passed_text)
    note Cons.IH [OF ok this rest]
    ultimately show ?thesis using g Some by (simp add: p)
  qed
qed simp

lemma resolve_templates:
  assumes "\<And>ps t. (ps, t) \<in> set tps \<Longrightarrow> template_ok ps t"
    and "\<And>ps t n. (ps, t) \<in> set tps \<Longrightarrow> n \<in> snd ` set ps \<Longrightarrow> getv n = Some (env n)"
    and "\<And>n r. env n = Some r \<Longrightarrow> CHR ''$'' \<notin> set r"
  shows "resolve_values getv (map (\<lambda>(ps, t). template ps t) tps) = Some (map (\<lambda>(ps, t). expand env ps t) tps)"
  using assms(1,2)
proof (induction tps)
  case (Cons p tps)
  obtain ps t where p: "p = (ps, t)" by force
  with Cons.prems(1) have ok: "template_ok ps t" by simp
  have "resolve_refs getv (map (\<lambda>p. ref (snd p)) ps) ([] @ template ps t) = Some ([] @ expand env ps t)"
    using ok passed_Nil Cons.prems(2) [of ps t] assms(3) by (rule resolve_template) (auto simp: p)
  moreover have "resolve_values getv (map (\<lambda>(ps, t). template ps t) tps) = Some (map (\<lambda>(ps, t). expand env ps t) tps)"
    by (intro Cons.IH) (metis Cons.prems(1) list.set_intros(2), metis Cons.prems(2) list.set_intros(2))
  ultimately show ?case by (simp add: p var_refs_template [OF ok])
qed simp

lemma vars_to_string_join: "vars_to_string vs = str_join [CHR 0x0A] vs"
  by (cases vs rule: remdups_adj.cases) (auto simp: vars_to_string_def)

section \<open>How much fuel is enough\<close>

text \<open>The names whose resolution does not return within \<open>k\<close> nested calls.\<close>

definition stuck :: "Makefile \<Rightarrow> nat \<Rightarrow> string set" where
  "stuck m k = {n. get k m n = None}"

lemma stuck_Suc: "stuck m (Suc k) = {n. \<exists>r \<in> set (references m n). r \<in> stuck m k}"
  unfolding stuck_def get_None_step by blast

lemma stuck_mono: "stuck m (Suc k) \<subseteq> stuck m k"
  unfolding stuck_def using get_mono_Suc by (auto simp del: get.simps) (metis option.exhaust)

lemma stuck_dom: "stuck m (Suc k) \<subseteq> fmdom' (mk_variables m)"
  by (auto simp: stuck_def fmlookup_dom'_iff split: option.splits)

lemma stuck_stable: "stuck m (Suc k) = stuck m k \<Longrightarrow> stuck m (k + j) = stuck m k"
proof (induction j)
  case (Suc j)
  then show ?case using stuck_Suc [of m "k + j"] stuck_Suc [of m k] by simp
qed simp

lemma stuck_finite: "finite (stuck m (Suc k))"
  using stuck_dom finite_subset by fastforce

lemma stuck_card:
  assumes "\<And>i. i < k \<Longrightarrow> stuck m (Suc (Suc i)) \<noteq> stuck m (Suc i)"
  shows "card (stuck m (Suc k)) + k \<le> card (fmdom' (mk_variables m))"
  using assms
proof (induction k)
  case 0
  show ?case using card_mono [OF _ stuck_dom [of m 0]] by simp
next
  case (Suc k)
  then have "stuck m (Suc (Suc k)) \<subset> stuck m (Suc k)" using stuck_mono by blast
  then have "card (stuck m (Suc (Suc k))) < card (stuck m (Suc k))"
    by (rule psubset_card_mono [OF stuck_finite])
  with Suc show ?case by simp
qed

text \<open>One level per variable suffices: more fuel changes nothing.\<close>

lemma stuck_bound: "stuck m (Suc (card (fmdom' (mk_variables m))) + j) = stuck m (Suc (card (fmdom' (mk_variables m))))"
proof -
  define c where "c = card (fmdom' (mk_variables m))"
  have "\<exists>i \<le> c. stuck m (Suc (Suc i)) = stuck m (Suc i)"
  proof (rule ccontr)
    assume "\<not> ?thesis"
    then have "\<And>i. i < Suc c \<Longrightarrow> stuck m (Suc (Suc i)) \<noteq> stuck m (Suc i)" by auto
    from stuck_card [of "Suc c" m, OF this] show False by (simp add: c_def)
  qed
  then obtain i where i: "i \<le> c" "stuck m (Suc (Suc i)) = stuck m (Suc i)" by blast
  have "stuck m (Suc i + l) = stuck m (Suc i)" for l using i(2) by (rule stuck_stable)
  from this [of "c - i"] this [of "c - i + j"] i(1) show ?thesis by (simp add: c_def)
qed

lemma get_fuel_bound: "get k m n \<noteq> None \<Longrightarrow> get (Suc (card (fmdom' (mk_variables m)))) m n \<noteq> None"
proof -
  assume k: "get k m n \<noteq> None"
  have "get (Suc (card (fmdom' (mk_variables m))) + k) m n \<noteq> None"
    using get_mono [of k "Suc (card (fmdom' (mk_variables m))) + k" m n] k
    by (auto simp del: get.simps)
  then have "n \<notin> stuck m (Suc (card (fmdom' (mk_variables m))) + k)" by (simp add: stuck_def del: get.simps)
  then show ?thesis unfolding stuck_bound by (simp add: stuck_def del: get.simps)
qed

text \<open>A call returns exactly when no chain of references from it is infinite.\<close>

lemma get_accessible: "get k m n \<noteq> None \<Longrightarrow> Wellfounded.accp (\<lambda>r n. r \<in> set (references m n)) n"
proof (induction k arbitrary: n)
  case (Suc k)
  then show ?case unfolding get_None_step by (blast intro: accpI)
qed simp

lemma accessible_get: "Wellfounded.accp (\<lambda>r n. r \<in> set (references m n)) n \<Longrightarrow> \<exists>k. get k m n \<noteq> None"
proof (induction rule: accp.induct)
  case (accI n)
  have "get (Suc (card (fmdom' (mk_variables m)))) m r \<noteq> None" if "r \<in> set (references m n)" for r
    using accI.IH [OF that] get_fuel_bound by blast
  then have "get (Suc (Suc (card (fmdom' (mk_variables m))))) m n \<noteq> None" unfolding get_None_step by blast
  then show ?case by blast
qed

section \<open>Properties\<close>

text \<open>
  C19: when \<^verbatim>\<open>Makefile::get\<close> returns. It returns exactly when no chain of \<^verbatim>\<open>$(NAME)\<close> references starting at
  the variable goes on for ever; then one level of recursion more than the makefile has variables is enough,
  and a deeper bound gives the same value.
\<close>

theorem get_returns:
  "((\<exists>k. get k m n \<noteq> None) \<longleftrightarrow> Wellfounded.accp (\<lambda>r n. r \<in> set (references m n)) n)
   \<and> ((\<exists>k. get k m n \<noteq> None) \<longleftrightarrow> get (Suc (card (fmdom' (mk_variables m)))) m n \<noteq> None)
   \<and> (get k m n = None \<or> get (k + j) m n = get k m n)"
proof (intro conjI)
  show "(\<exists>k. get k m n \<noteq> None) \<longleftrightarrow> Wellfounded.accp (\<lambda>r n. r \<in> set (references m n)) n"
    using get_accessible accessible_get by blast
  show "(\<exists>k. get k m n \<noteq> None) \<longleftrightarrow> get (Suc (card (fmdom' (mk_variables m)))) m n \<noteq> None"
    using get_fuel_bound by blast
  show "get k m n = None \<or> get (k + j) m n = get k m n"
    using get_mono [of k "k + j" m n] by (cases "get k m n") (simp_all del: get.simps)
qed

text \<open>
  C9: what \<^verbatim>\<open>Makefile::get\<close> returns. A variable whose values are texts with references in them gives those
  texts, joined by line feeds, with every reference replaced in its place by the value of the variable it
  names, and a reference to an undefined variable left as it is. (The values put in must themselves be free
  of dollar signs: the code replaces the first occurrence of the reference's text, wherever it came from.)
\<close>

theorem get_expands:
  assumes "fmlookup (mk_variables m) k = Some v"
    and "var_values v = map (\<lambda>(ps, t). template ps t) tps"
    and "\<And>ps t. (ps, t) \<in> set tps \<Longrightarrow> template_ok ps t"
    and "\<And>ps t n. (ps, t) \<in> set tps \<Longrightarrow> n \<in> snd ` set ps \<Longrightarrow> get j m n = Some (env n)"
    and "\<And>n r. env n = Some r \<Longrightarrow> CHR ''$'' \<notin> set r"
  shows "get (Suc j) m k = Some (Some (str_join [CHR 0x0A] (map (\<lambda>(ps, t). expand env ps t) tps)))"
  using assms(1,2) resolve_templates [OF assms(3-5)] by (simp add: vars_to_string_join)

definition sample_vars :: Makefile where
  "sample_vars = \<lparr>mk_path = [], mk_variables = fmap_of_list
     [(''A'', \<lparr>var_key = [], var_values = [''$(A)''], var_mode = Mode_Set\<rparr>),
      (''N'', \<lparr>var_key = [], var_values = [''nginx''], var_mode = Mode_Set\<rparr>),
      (''U'', \<lparr>var_key = [], var_values = [''http/$(N)-$(V)''], var_mode = Mode_Set\<rparr>)], mk_includes = []\<rparr>"

theorem get_expands_witness: "get 2 sample_vars ''U'' = Some (Some ''http/nginx-$(V)'')"
proof -
  define env where "env = (\<lambda>n. if n = ''N'' then Some ''nginx'' else None)"
  define tps where "tps = [([(''http/'', ''N''), (''-'', ''V'')], ([] :: string))]"
  have g: "get 1 sample_vars ''N'' = Some (env ''N'')" "get 1 sample_vars ''V'' = Some (env ''V'')"
    by (simp_all add: sample_vars_def fmlookup_of_list env_def var_ref_at_def vars_to_string_def)
  have "get (Suc 1) sample_vars ''U'' = Some (Some (str_join [CHR 0x0A] (map (\<lambda>(ps, t). expand env ps t) tps)))"
  proof (rule get_expands)
    show "fmlookup (mk_variables sample_vars) ''U'' =
        Some \<lparr>var_key = [], var_values = [''http/$(N)-$(V)''], var_mode = Mode_Set\<rparr>"
      by (simp add: sample_vars_def fmlookup_of_list)
    show "get 1 sample_vars n = Some (env n)" if "(ps, t) \<in> set tps" "n \<in> snd ` set ps" for ps t n
      using that g by (auto simp: tps_def)
  qed (auto simp: tps_def env_def ref_def template_ok_def var_name_ok_def split: if_splits)
  then show ?thesis by (simp add: tps_def env_def ref_def numeral_2_eq_2)
qed

text \<open>
  C27: \<^verbatim>\<open>Makefile::get\<close> has no guard against cycles: a variable from which references lead back into a set of
  variables that keep referring into the set never resolves, at any depth. In particular a variable that
  mentions itself, as \<^verbatim>\<open>A=$(A) more\<close>, exhausts the stack.
\<close>

theorem get_diverges:
  assumes "\<And>n. n \<in> C \<Longrightarrow> \<exists>r \<in> set (references m n). r \<in> C" and "n \<in> C"
  shows "get k m n = None \<and> get_first_value k m n = None"
proof
  show "get k m n = None" using assms by (rule get_cycle)
  obtain r where r: "r \<in> set (references m n)" "r \<in> C" using assms by blast
  have "get k m r = None" using assms(1) r(2) by (rule get_cycle)
  then have "get (Suc k) m n = None" using r(1) unfolding get_None_step by blast
  moreover obtain var where "fmlookup (mk_variables m) n = Some var"
    using r(1) by (cases "fmlookup (mk_variables m) n") (simp_all add: references_def)
  ultimately show "get_first_value k m n = None"
    by (simp add: get_first_value_def resolve_nested_variables_def)
qed

theorem get_diverges_witness: "get 50 sample_vars ''A'' = None \<and> get_first_value 50 sample_vars ''A'' = None"
proof (rule get_diverges)
  have "references sample_vars ''A'' = [''A'']" by code_simp
  then show "\<exists>r \<in> set (references sample_vars n). r \<in> {''A''}" if "n \<in> {''A''}" for n using that by simp
qed simp

end
