(* ===== verification/Pkg6dev_Diff.thy ===== *)
theory Pkg6dev_Diff
  imports Ips_Manifest Userland_Resolve
begin

text \<open>
  The comparison at the heart of \<^verbatim>\<open>pkg6dev diff-component\<close> (\<^verbatim>\<open>src/pkg6dev/src/main.rs\<close>): which files of a
  sample manifest are missing in the manifests of a component, and which files of the manifests are gone from
  the sample, with \<^verbatim>\<open>$(NAME)\<close> replacements given on the command line. The iteration order of the hash map of
  replacements (\<open>entries\<close>) and the file system's \<^verbatim>\<open>exists\<close> are parameters.
\<close>

section \<open>Operations\<close>

definition tripplet :: "string \<Rightarrow> string \<times> string" where
  "tripplet str = (case str_split_once (CHR '':'') str of Some s \<Rightarrow> s | None \<Rightarrow> ([], []))"

definition parse_tripplet_replacements :: "string list \<Rightarrow> (string, string) HashMap" where
  "parse_tripplet_replacements replacements =
     fold (\<lambda>pair m. snd (hm_insert (fst pair) (snd pair) m)) (map tripplet replacements) fmempty"

type_synonym repl_entries = "(string, string) HashMap \<Rightarrow> (string \<times> string) list"

definition replace_step :: "string \<Rightarrow> nat \<times> string \<times> string \<Rightarrow> string \<Rightarrow> string" where
  "replace_step orig ift replacement =
     (let (i, from, to) = ift; pat = ''$('' @ from @ '')'' in
      if i = 0 then str_replace pat to orig else str_replace pat to replacement)"

definition replace_func :: "repl_entries \<Rightarrow> string \<Rightarrow> (string, string) HashMap option \<Rightarrow> string" where
  "replace_func entries orig replacements =
     (case replacements of
        Some r \<Rightarrow> fold (replace_step orig) (enumerate 0 (entries r)) orig
      | None \<Rightarrow> orig)"

definition make_file_map :: "File list \<Rightarrow> (string, File) HashMap" where
  "make_file_map files =
     hm_collect (map (\<lambda>f.
       (let orig_path_opt = get_original_path f in
        case orig_path_opt of None \<Rightarrow> (file_path f, f) | Some p \<Rightarrow> (p, f))) files)"

definition contains_key :: "string \<Rightarrow> (string, 'v) HashMap \<Rightarrow> bool" where
  "contains_key k m = (fmlookup m k \<noteq> None)"

definition removed_step ::
  "repl_entries \<Rightarrow> (string \<Rightarrow> bool) \<Rightarrow> string \<Rightarrow> (string, string) HashMap option \<Rightarrow> (string, File) HashMap
     \<Rightarrow> File \<Rightarrow> File list \<Rightarrow> File list" where
  "removed_step entries exists component_path replacements f_map f removed_files =
     (case get_original_path f of
        Some path \<Rightarrow>
          (if \<not> contains_key (replace_func entries path replacements) f_map \<and> \<not> exists (path_join component_path path)
           then removed_files @ [f] else removed_files)
      | None \<Rightarrow>
          (if \<not> contains_key (replace_func entries (file_path f) replacements) f_map
           then removed_files @ [f] else removed_files))"

definition find_removed_files ::
  "repl_entries \<Rightarrow> (string \<Rightarrow> bool) \<Rightarrow> Manifest \<Rightarrow> Manifest list \<Rightarrow> string \<Rightarrow> (string, string) HashMap option
     \<Rightarrow> File list" where
  "find_removed_files entries exists sample_manifest manifests component_path replacements =
     (let f_map = make_file_map (m_files sample_manifest);
          all_files = concat (map m_files manifests)
      in fold (removed_step entries exists component_path replacements f_map) all_files [])"

definition missing_step ::
  "repl_entries \<Rightarrow> (string, string) HashMap option \<Rightarrow> (string, File) HashMap \<Rightarrow> File \<Rightarrow> File list \<Rightarrow> File list" where
  "missing_step entries replacements f_map f missing_files =
     (case get_original_path f of
        Some path \<Rightarrow>
          (if \<not> contains_key (replace_func entries path replacements) f_map
           then missing_files @ [f] else missing_files)
      | None \<Rightarrow>
          (if \<not> contains_key (replace_func entries (file_path f) replacements) f_map
           then missing_files @ [f] else missing_files))"

definition find_files_missing_in_manifests ::
  "repl_entries \<Rightarrow> Manifest \<Rightarrow> Manifest list \<Rightarrow> (string, string) HashMap option \<Rightarrow> File list" where
  "find_files_missing_in_manifests entries sample_manifest manifests replacements =
     (let all_files = concat (map m_files manifests);
          f_map = make_file_map all_files
      in fold (missing_step entries replacements f_map) (m_files sample_manifest) [])"

section \<open>Lemmas\<close>

text \<open>The name a file is looked up by: its original path, or its path.\<close>

definition file_key :: "File \<Rightarrow> string" where
  "file_key f = (case get_original_path f of Some p \<Rightarrow> p | None \<Rightarrow> file_path f)"

lemma make_file_map_keys: "contains_key k (make_file_map fs) \<longleftrightarrow> k \<in> file_key ` set fs"
proof -
  have "make_file_map fs = hm_collect (map (\<lambda>f. (file_key f, f)) fs)"
    unfolding make_file_map_def by (rule arg_cong [of _ _ hm_collect]) (auto simp: file_key_def split: option.split)
  then show ?thesis by (simp add: contains_key_def hm_collect_dom image_image del: fmlookup_hm_collect)
qed

lemma fold_collect:
  assumes "\<And>x acc. x \<in> set xs \<Longrightarrow> f x acc = (if P x then acc @ [x] else acc)"
  shows "fold f xs acc = acc @ filter P xs"
  using assms by (induction xs arbitrary: acc) auto

lemma missing_filter:
  "find_files_missing_in_manifests entries sample ms r =
     filter (\<lambda>f. replace_func entries (file_key f) r \<notin> file_key ` set (concat (map m_files ms))) (m_files sample)"
proof -
  have step: "missing_step entries r (make_file_map fs) f acc =
      (if replace_func entries (file_key f) r \<notin> file_key ` set fs then acc @ [f] else acc)" for fs f acc
    by (simp add: missing_step_def make_file_map_keys file_key_def split: option.split)
  from fold_collect [where xs = "m_files sample" and acc = "[]", OF step [of "concat (map m_files ms)"]] show ?thesis
    by (simp add: find_files_missing_in_manifests_def Let_def)
qed

lemma removed_filter:
  "find_removed_files entries exists sample ms cp r =
     filter (\<lambda>f. replace_func entries (file_key f) r \<notin> file_key ` set (m_files sample)
       \<and> (case get_original_path f of Some p \<Rightarrow> \<not> exists (path_join cp p) | None \<Rightarrow> True)) (concat (map m_files ms))"
proof -
  have step: "removed_step entries exists cp r (make_file_map fs) f acc =
      (if replace_func entries (file_key f) r \<notin> file_key ` set fs
        \<and> (case get_original_path f of Some p \<Rightarrow> \<not> exists (path_join cp p) | None \<Rightarrow> True) then acc @ [f] else acc)"
    for fs f acc
    by (simp add: removed_step_def make_file_map_keys file_key_def split: option.split)
  from fold_collect [where xs = "concat (map m_files ms)" and acc = "[]", OF step [of "m_files sample"]] show ?thesis
    by (simp add: find_removed_files_def Let_def)
qed

text \<open>Replacing every occurrence of a reference, over text without dollar signs and over other references.\<close>

lemma str_replace_text:
  assumes "CHR ''$'' \<notin> set a"
  shows "str_replace (ref n) r (a @ s) = a @ str_replace (ref n) r s"
  using assms by (induction a) (auto simp: ref_def)

lemma str_replace_other_ref:
  assumes "var_name_ok n" and "var_name_ok m" and "n \<noteq> m"
  shows "str_replace (ref n) r (ref m @ s) = ref m @ str_replace (ref n) r s"
proof -
  have no: "\<not> prefix (ref n) (ref m @ s)" using prefix_ref assms by blast
  have "CHR ''$'' \<notin> set (CHR ''('' # m @ '')'')" using assms(2) by (auto simp: var_name_ok_def)
  from str_replace_text [OF this, of n r s] no show ?thesis by (simp add: ref_def [of m])
qed

lemma str_replace_ref: "str_replace (ref n) r (ref n @ s) = r @ str_replace (ref n) r s"
  by (rule str_replace_hit) (simp add: ref_def)

lemma str_replace_expand:
  assumes "template_ok ps t" and "var_name_ok k" and "env k = None"
    and "\<And>n r. env n = Some r \<Longrightarrow> CHR ''$'' \<notin> set r"
  shows "str_replace (ref k) v (expand env ps t) = expand (env(k \<mapsto> v)) ps t"
  using assms(1)
proof (induction ps)
  case Nil
  then show ?case using str_replace_text [of t k v "[]"] by (simp add: template_ok_def)
next
  case (Cons p ps)
  obtain a n where p: "p = (a, n)" by force
  with Cons.prems have a: "CHR ''$'' \<notin> set a" and n: "var_name_ok n" and ok: "template_ok ps t"
    by (auto simp: template_ok_def)
  show ?case
  proof (cases "env n")
    case None
    then show ?thesis
      using Cons.IH [OF ok] str_replace_ref [of k v] str_replace_other_ref [OF assms(2) n, of v]
      by (cases "n = k") (auto simp: p str_replace_text [OF a])
  next
    case (Some r)
    then show ?thesis
      using Cons.IH [OF ok] assms(3) assms(4) [OF Some] by (auto simp: p str_replace_text a)
  qed
qed

lemma expand_empty: "expand (\<lambda>_. None) ps t = template ps t"
  by (induction ps t rule: template.induct) simp_all

text \<open>The special case for the first entry is the general one: before it, the replacement is the original.\<close>

lemma replace_func_fold:
  "replace_func entries orig (Some m) = fold (\<lambda>(from, to). str_replace (ref from) to) (entries m) orig"
proof -
  have later: "fold (replace_step orig) (enumerate (Suc n) es) cur = fold (\<lambda>(from, to). str_replace (ref from) to) es cur"
    for n es cur
    by (induction es arbitrary: n cur) (auto simp: replace_step_def ref_def)
  show ?thesis
    by (cases "entries m") (auto simp: replace_func_def later, simp add: replace_step_def ref_def)
qed

lemma fold_expand:
  assumes "template_ok ps t" and "distinct (map fst es)"
    and "\<And>k v. (k, v) \<in> set es \<Longrightarrow> var_name_ok k \<and> CHR ''$'' \<notin> set v \<and> env k = None"
    and "\<And>n r. env n = Some r \<Longrightarrow> CHR ''$'' \<notin> set r"
  shows "fold (\<lambda>(from, to). str_replace (ref from) to) es (expand env ps t) = expand (env ++ map_of es) ps t"
  using assms(2-)
proof (induction es arbitrary: env)
  case (Cons e es)
  obtain k v where e: "e = (k, v)" by force
  have k: "var_name_ok k" "CHR ''$'' \<notin> set v" "env k = None" using Cons.prems(2) [of k v] by (simp_all add: e)
  let ?run = "fold (\<lambda>(from, to). str_replace (ref from) to)"
  have "map_of es k = None" using Cons.prems(1) by (simp add: e map_of_eq_None_iff)
  then have eq: "env(k \<mapsto> v) ++ map_of es = env ++ map_of (e # es)"
    by (auto simp: e map_add_def fun_eq_iff split: option.split)
  have step: "str_replace (ref k) v (expand env ps t) = expand (env(k \<mapsto> v)) ps t"
    using assms(1) k(1,3) Cons.prems(3) by (rule str_replace_expand)
  have "?run (e # es) (expand env ps t) = ?run es (expand (env(k \<mapsto> v)) ps t)" by (simp add: e step)
  also have "\<dots> = expand (env(k \<mapsto> v) ++ map_of es) ps t"
    by (rule Cons.IH) (use Cons.prems k in \<open>auto simp: e image_iff split: if_splits\<close>)
  finally show ?case by (simp only: eq)
qed simp

lemma replace_func_expand:
  assumes "hash_iteration entries" and "template_ok ps t"
    and "\<And>k v. fmlookup m k = Some v \<Longrightarrow> var_name_ok k \<and> CHR ''$'' \<notin> set v"
  shows "replace_func entries (template ps t) (Some m) = expand (fmlookup m) ps t"
proof -
  have "fold (\<lambda>(from, to). str_replace (ref from) to) (entries m) (expand (\<lambda>_. None) ps t) =
      expand ((\<lambda>_. None) ++ map_of (entries m)) ps t"
    using assms(2) hash_iteration.entries_distinct [OF assms(1)]
    by (rule fold_expand) (use assms(3) hash_iteration.entries_set [OF assms(1)] in auto)
  moreover have "(\<lambda>_. None) ++ map_of (entries m) = fmlookup m"
    using hash_iteration.entries_lookup [OF assms(1)] by (auto simp: map_add_def split: option.split)
  ultimately show ?thesis by (simp add: replace_func_fold expand_empty)
qed

lemma not_in_keys: "k \<notin> file_key ` F \<longleftrightarrow> (\<forall>g \<in> F. file_key g \<noteq> k)"
  by blast

lemma tripplets_collect: "parse_tripplet_replacements rs = hm_collect (map tripplet rs)"
  by (simp add: parse_tripplet_replacements_def hm_collect_def hm_insert_def case_prod_beta')

lemma no_dollar_replace: "CHR ''$'' \<notin> set s \<Longrightarrow> replace_func entries s r = s"
proof (cases r)
  case (Some m)
  assume s: "CHR ''$'' \<notin> set s"
  have "str_replace (ref n) v s = s" for n v using str_replace_text [OF s, of n v "[]"] by simp
  then have "fold (\<lambda>(from, to). str_replace (ref from) to) es s = s" for es
    by (induction es) auto
  with Some show ?thesis by (simp add: replace_func_fold)
qed (simp add: replace_func_def)

section \<open>Properties\<close>

text \<open>
  Replacements written as \<^verbatim>\<open>key:value\<close> on the command line are read back: for keys without a colon
  (values may have colons) the map binds every key to the value it was given last.
\<close>

theorem tripplet_replacements_roundtrip:
  assumes "\<And>k v. (k, v) \<in> set kvs \<Longrightarrow> CHR '':'' \<notin> set k"
  shows "parse_tripplet_replacements (map (\<lambda>(k, v). k @ '':'' @ v) kvs) = hm_collect kvs"
proof -
  have "tripplet (k @ '':'' @ v) = (k, v)" if "(k, v) \<in> set kvs" for k v
  proof -
    have "str_split_once (CHR '':'') (k @ CHR '':'' # v) = Some (k, v)"
      using assms [OF that] by (simp add: str_split_once_Some)
    then show ?thesis by (simp add: tripplet_def)
  qed
  then have "map (tripplet \<circ> (\<lambda>(k, v). k @ '':'' @ v)) kvs = kvs" by (intro map_idI) auto
  then show ?thesis by (simp only: tripplets_collect map_map)
qed

theorem tripplet_replacements_roundtrip_witness:
  "fmlookup (parse_tripplet_replacements [''MACH:i386'', ''URL:http://x'', ''MACH:amd64'']) ''MACH'' = Some ''amd64''"
proof -
  have "parse_tripplet_replacements (map (\<lambda>(k, v). k @ '':'' @ v) [(''MACH'', ''i386''), (''URL'', ''http://x''), (''MACH'', ''amd64'')]) =
      hm_collect [(''MACH'', ''i386''), (''URL'', ''http://x''), (''MACH'', ''amd64'')]"
    by (rule tripplet_replacements_roundtrip) auto
  then show ?thesis by simp
qed

text \<open>
  C33: replacements in a path. When keys are plain names and values have no dollar sign, \<^verbatim>\<open>replace_func\<close> replaces
  every \<^verbatim>\<open>$(key)\<close> of the path by its value and nothing else, in whatever order the hash map is visited; its special
  case for the first entry makes no difference.
\<close>

theorem replace_func_correct:
  assumes "hash_iteration entries" and "template_ok ps t"
    and "\<And>k v. fmlookup m k = Some v \<Longrightarrow> var_name_ok k \<and> CHR ''$'' \<notin> set v"
  shows "replace_func entries (template ps t) (Some m) = expand (fmlookup m) ps t"
  using assms by (rule replace_func_expand)

definition sample_repl :: "(string, string) HashMap" where
  "sample_repl = fmap_of_list [(''MACH'', ''amd64''), (''V'', ''1'')]"

theorem replace_func_correct_witness:
  "replace_func sorted_list_of_fmap ''lib/$(MACH)/x.$(V).$(MACH)$(W)'' (Some sample_repl) = ''lib/amd64/x.1.amd64$(W)''"
proof -
  have "replace_func sorted_list_of_fmap (template [(''lib/'', ''MACH''), (''/x.'', ''V''), (''.'', ''MACH''), ([], ''W'')] [])
      (Some sample_repl) = expand (fmlookup sample_repl) [(''lib/'', ''MACH''), (''/x.'', ''V''), (''.'', ''MACH''), ([], ''W'')] []"
    by (rule replace_func_correct [OF sorted_iter.hash_iteration_axioms])
      (auto simp: template_ok_def var_name_ok_def sample_repl_def fmlookup_of_list split: if_splits)
  then show ?thesis by (simp add: ref_def sample_repl_def fmlookup_of_list)
qed

text \<open>
  C12: the two lists of the comparison, in the order of the manifests. A file of the sample is missing exactly
  when no file of the manifests has the sample file's name after replacement; a file of the manifests is removed
  exactly when its name after replacement is not in the sample and, if it has an original path, nothing exists
  there in the component's directory.
\<close>

theorem diff_files_correct:
  "find_files_missing_in_manifests entries sample ms r =
     filter (\<lambda>f. \<forall>m \<in> set ms. \<forall>g \<in> set (m_files m). file_key g \<noteq> replace_func entries (file_key f) r) (m_files sample)
   \<and> find_removed_files entries exists sample ms cp r =
     filter (\<lambda>g. (\<forall>f \<in> set (m_files sample). file_key f \<noteq> replace_func entries (file_key g) r)
       \<and> (case get_original_path g of Some p \<Rightarrow> \<not> exists (path_join cp p) | None \<Rightarrow> True)) (concat (map m_files ms))"
  by (simp add: missing_filter removed_filter not_in_keys)

definition file_at :: "string \<Rightarrow> File" where
  "file_at p = File_default\<lparr>file_path := p\<rparr>"

definition files_manifest :: "string list \<Rightarrow> Manifest" where
  "files_manifest ps = Manifest_new\<lparr>m_files := map file_at ps\<rparr>"

lemma file_key_at [simp]: "file_key (file_at p) = p" "get_original_path (file_at p) = None"
  by (simp_all add: file_key_def file_at_def File_default_def get_original_path_def)

theorem diff_files_correct_witness:
  "find_files_missing_in_manifests sorted_list_of_fmap (files_manifest [''a'', ''b'']) [files_manifest [''a'', ''c'']] None
     = [file_at ''b''] \<and>
   find_removed_files sorted_list_of_fmap (\<lambda>_. False) (files_manifest [''a'', ''b'']) [files_manifest [''a'', ''c'']] ''.'' None
     = [file_at ''c'']"
  using diff_files_correct [of sorted_list_of_fmap "files_manifest [''a'', ''b'']" "[files_manifest [''a'', ''c'']]" None
      "\<lambda>_. False" "''.''"]
  by (simp add: files_manifest_def Manifest_new_def replace_func_def)

text \<open>
  C34: the two directions of the comparison disagree. The replacements are applied to the paths of the
  manifests when looking for removed files, but to the paths of the sample when looking for missing ones. A sample
  path without references is therefore reported missing when the manifests name the file with a reference, even though
  the replacements turn one name into the other, so that the file is not reported as removed.
\<close>

theorem missing_despite_replacement:
  assumes "f \<in> set (m_files sample)" and "CHR ''$'' \<notin> set (file_key f)"
    and "\<And>m g. m \<in> set ms \<Longrightarrow> g \<in> set (m_files m) \<Longrightarrow> CHR ''$'' \<in> set (file_key g)"
    and "m \<in> set ms" and "g \<in> set (m_files m)" and "replace_func entries (file_key g) r = file_key f"
  shows "f \<in> set (find_files_missing_in_manifests entries sample ms r)
    \<and> g \<notin> set (find_removed_files entries exists sample ms cp r)"
proof -
  have "replace_func entries (file_key f) r = file_key f" using assms(2) by (rule no_dollar_replace)
  with assms show ?thesis by (auto simp: missing_filter removed_filter)
qed

theorem missing_despite_replacement_witness:
  "file_at ''lib/amd64/x'' \<in> set (find_files_missing_in_manifests sorted_list_of_fmap
      (files_manifest [''lib/amd64/x'']) [files_manifest [''lib/$(MACH)/x'']] (Some sample_repl))
   \<and> file_at ''lib/$(MACH)/x'' \<notin> set (find_removed_files sorted_list_of_fmap (\<lambda>_. False)
      (files_manifest [''lib/amd64/x'']) [files_manifest [''lib/$(MACH)/x'']] ''.'' (Some sample_repl))"
proof (rule missing_despite_replacement)
  have "replace_func sorted_list_of_fmap (template [(''lib/'', ''MACH'')] ''/x'') (Some sample_repl) =
      expand (fmlookup sample_repl) [(''lib/'', ''MACH'')] ''/x''"
    by (rule replace_func_expand [OF sorted_iter.hash_iteration_axioms])
      (auto simp: template_ok_def var_name_ok_def sample_repl_def fmlookup_of_list split: if_splits)
  then show "replace_func sorted_list_of_fmap (file_key (file_at ''lib/$(MACH)/x'')) (Some sample_repl) =
      file_key (file_at ''lib/amd64/x'')"
    by (simp add: ref_def sample_repl_def fmlookup_of_list)
qed (auto simp: files_manifest_def Manifest_new_def)

end
