(* ===== verification/Userland_Component.thy ===== *)
theory Userland_Component
  imports Userland_Resolve
begin

text \<open>
  \<^verbatim>\<open>src/userland/src/component.rs\<close> and \<^verbatim>\<open>src/userland/src/repology.rs\<close>: the component a makefile describes, and
  the newest version a package has elsewhere.

  The crates \<^verbatim>\<open>semver\<close> (version numbers, of the type \<open>'v\<close>) and \<^verbatim>\<open>url\<close> (of the type \<open>'u\<close>) and the request to
  the web service are parameters. Reading a variable may not return (\<open>get\<close>), so a step of \<open>new_from_makefile\<close>
  is an optional outcome.
\<close>

section \<open>Integers\<close>

text \<open>\<^verbatim>\<open>str::parse::<i32>\<close>: an optional sign, at least one decimal digit, a value of 32 bits.\<close>

definition digit_value :: "char \<Rightarrow> int option" where
  "digit_value c = (let n = of_char c :: int in if 48 \<le> n \<and> n \<le> 57 then Some (n - 48) else None)"

fun digits_value :: "int \<Rightarrow> string \<Rightarrow> int option" where
  "digits_value acc [] = Some acc"
| "digits_value acc (c # cs) =
     (case digit_value c of None \<Rightarrow> None | Some d \<Rightarrow> digits_value (10 * acc + d) cs)"

definition i32_parse :: "string \<Rightarrow> int option" where
  "i32_parse s =
     (let neg = prefix ''-'' s; ds = (if prefix ''-'' s \<or> prefix ''+'' s then tl s else s) in
      if ds = [] then None
      else case digits_value 0 ds of
             None \<Rightarrow> None
           | Some n \<Rightarrow> (let v = (if neg then - n else n)
                        in if - (2 ^ 31) \<le> v \<and> v < 2 ^ 31 then Some v else None))"

definition revision_of :: "string \<Rightarrow> int" where
  "revision_of s = (case i32_parse s of Some v \<Rightarrow> v | None \<Rightarrow> 0)"

lemma revision_of_bounds: "- (2 ^ 31) \<le> revision_of s \<and> revision_of s < 2 ^ 31"
  by (auto simp: revision_of_def i32_parse_def Let_def split: option.split)

text \<open>
  The integer a text denotes: an optional sign and decimal digits, weighted by their position.
\<close>

definition unsigned_part :: "string \<Rightarrow> string" where
  "unsigned_part s = (if prefix ''-'' s \<or> prefix ''+'' s then tl s else s)"

definition numeral_value :: "string \<Rightarrow> int option" where
  "numeral_value s =
     (let ds = unsigned_part s;
          v = (\<Sum>i < length ds. (of_char (rev ds ! i) - 48) * 10 ^ i)
      in if ds \<noteq> [] \<and> list_all (\<lambda>c. 48 \<le> (of_char c :: int) \<and> (of_char c :: int) \<le> 57) ds
         then Some (if prefix ''-'' s then - v else v) else None)"

lemma digits_value_sum:
  "digits_value acc ds =
     (if list_all (\<lambda>c. 48 \<le> (of_char c :: int) \<and> (of_char c :: int) \<le> 57) ds
      then Some (acc * 10 ^ length ds + (\<Sum>i < length ds. (of_char (rev ds ! i) - 48) * 10 ^ i)) else None)"
proof (induction ds arbitrary: acc)
  case (Cons d ds)
  have "(\<Sum>i < length ds. (of_char ((rev ds @ [d]) ! i) - 48) * 10 ^ i :: int) =
      (\<Sum>i < length ds. (of_char (rev ds ! i) - 48) * 10 ^ i)"
    by (intro sum.cong) (simp_all add: nth_append)
  then show ?case by (simp add: Cons digit_value_def Let_def nth_append algebra_simps)
qed simp

lemma revision_numeral:
  "revision_of t = (case numeral_value t of Some v \<Rightarrow> if - (2 ^ 31) \<le> v \<and> v < 2 ^ 31 then v else 0 | None \<Rightarrow> 0)"
  unfolding revision_of_def i32_parse_def numeral_value_def unsigned_part_def Let_def digits_value_sum
  by (auto split: option.splits if_splits)

text \<open>The decimal numeral of an integer.\<close>

fun decimal_nat :: "nat \<Rightarrow> string" where
  "decimal_nat n = (if n < 10 then [char_of (48 + n)] else decimal_nat (n div 10) @ [char_of (48 + n mod 10)])"

definition decimal :: "int \<Rightarrow> string" where
  "decimal n = (if n < 0 then ''-'' @ decimal_nat (nat (- n)) else decimal_nat (nat n))"

declare decimal_nat.simps [simp del]

lemma digit_value_digit:
  assumes "d < 10"
  shows "digit_value (char_of (48 + d)) = Some (int d)"
proof -
  have "of_char (char_of (48 + d) :: char) = 48 + d" using assms by (simp add: of_char_of)
  then have "of_char (char_of (48 + d) :: char) = int (48 + d)" by (metis of_nat_of_char)
  then show ?thesis using assms by (simp add: digit_value_def)
qed

lemma digits_value_snoc:
  "digits_value acc (xs @ [c]) =
     (case digits_value acc xs of None \<Rightarrow> None | Some v \<Rightarrow> map_option (\<lambda>d. 10 * v + d) (digit_value c))"
  by (induction xs arbitrary: acc) (auto split: option.split)

lemma digits_value_decimal: "digits_value 0 (decimal_nat n) = Some (int n)"
proof (induction n rule: decimal_nat.induct)
  case (1 n)
  then show ?case
    by (subst decimal_nat.simps) (auto simp: digits_value_snoc digit_value_digit zdiv_int zmod_int)
qed

lemma decimal_nat_start: "\<exists>d ds. d < (10 :: nat) \<and> decimal_nat n = char_of (48 + d) # ds"
proof (induction n rule: decimal_nat.induct)
  case (1 n)
  then show ?case by (subst decimal_nat.simps) fastforce
qed

lemma i32_parse_decimal:
  "i32_parse (decimal n) = (if - (2 ^ 31) \<le> n \<and> n < 2 ^ 31 then Some n else None)"
proof -
  obtain d :: nat and ds where d: "d < 10" "decimal_nat (nat n) = char_of (48 + d) # ds"
    using decimal_nat_start by blast
  have "of_char (char_of (48 + d) :: char) = 48 + d" using d(1) by (simp add: of_char_of)
  then have "char_of (48 + d) \<noteq> CHR ''-''" "char_of (48 + d) \<noteq> CHR ''+''"
    by (auto dest!: arg_cong [where f = "of_char :: char \<Rightarrow> nat"])
  moreover obtain d' :: nat and ds' where "decimal_nat (nat (- n)) = char_of (48 + d') # ds'"
    using decimal_nat_start by blast
  ultimately show ?thesis
    using digits_value_decimal [of "nat n"] digits_value_decimal [of "nat (- n)"] d(2)
    by (auto simp: i32_parse_def decimal_def Let_def)
qed

section \<open>Components\<close>

datatype BuildStyle = Configure | Cmake | Make | Meson | Custom

datatype ComponentOptionPlatform = Platform_All | Platform_Intel | Platform_Sparc | Platform_Arm

record ComponentOption =
  platform :: ComponentOptionPlatform
  opt :: string

datatype ('v, 'u) Source =
    GitSource (source_url: 'u)
  | ArchiveSource (source_version: 'v) (source_hash: "string option") (source_url: 'u)

record ('v, 'u) Component =
  comp_version :: 'v
  revision :: "int option"
  sources :: "(string, ('v, 'u) Source) HashMap"
  options :: "ComponentOption list"
  build_style :: BuildStyle

datatype component_error = MissingVersion | BadVersion string | BadUrl string | NoSource

text \<open>A step that may not return, then the next one.\<close>

definition run_bind :: "('a, 'e) res option \<Rightarrow> ('a \<Rightarrow> ('b, 'e) res option) \<Rightarrow> ('b, 'e) res option" where
  "run_bind r f =
     (case r of
        None \<Rightarrow> None
      | Some (Ok a) \<Rightarrow> f a
      | Some (Err e) \<Rightarrow> Some (Err e)
      | Some (Panic x) \<Rightarrow> Some (Panic x))"

definition component_options :: "Makefile \<Rightarrow> ComponentOption list" where
  "component_options m =
     (case fmlookup (mk_variables m) ''CONFIGURE_OPTIONS'' of
        Some opts \<Rightarrow> map (\<lambda>v. \<lparr>platform = Platform_All, opt = v\<rparr>) (var_values opts)
      | None \<Rightarrow> [])"

definition build_style_of :: "string option \<Rightarrow> BuildStyle" where
  "build_style_of style =
     (case style of
        Some s \<Rightarrow>
          (if s = ''justmake'' then Make else if s = ''cmake'' then Cmake else if s = ''meson'' then Meson
           else if s = ''custom'' then Custom else if s = ''configure'' then Configure else Configure)
      | None \<Rightarrow> Configure)"

definition source_of ::
  "(string \<Rightarrow> ('u, string) res) \<Rightarrow> 'v \<Rightarrow> string option \<Rightarrow> string option \<Rightarrow> string option \<Rightarrow> string option
     \<Rightarrow> (string \<times> ('v, 'u) Source, component_error) res" where
  "source_of url_parse ver component_src component_archive_url git_url component_archive_hash =
     (case (component_src, component_archive_url) of
        (Some name, Some url) \<Rightarrow>
          map_res (\<lambda>u. (name, ArchiveSource ver component_archive_hash u)) (map_err BadUrl (url_parse url))
      | _ \<Rightarrow>
          (case (component_src, git_url) of
             (Some name, Some url) \<Rightarrow> map_res (\<lambda>u. (name, GitSource u)) (map_err BadUrl (url_parse url))
           | _ \<Rightarrow> Err NoSource))"

definition new_from_makefile ::
  "(string \<Rightarrow> ('v, string) res) \<Rightarrow> (string \<Rightarrow> ('u, string) res) \<Rightarrow> nat \<Rightarrow> Makefile
     \<Rightarrow> (('v, 'u) Component, component_error) res option" where
  "new_from_makefile semver_parse url_parse k m =
     run_bind (get_first_value k m ''COMPONENT_VERSION'') (\<lambda>v.
     run_bind (case v of None \<Rightarrow> Some (Err MissingVersion)
               | Some s \<Rightarrow> Some (map_err BadVersion (semver_parse s))) (\<lambda>ver.
     run_bind (get_first_value k m ''COMPONENT_REVISION'') (\<lambda>rev.
     run_bind (get_first_value k m ''COMPONENT_SRC'') (\<lambda>component_src.
     run_bind (get_first_value k m ''COMPONENT_ARCHIVE_URL'') (\<lambda>component_archive_url.
     run_bind (get_first_value k m ''GIT_URL'') (\<lambda>git_url.
     run_bind (get_first_value k m ''COMPONENT_ARCHIVE_HASH'') (\<lambda>component_archive_hash.
     run_bind (get_first_value k m ''BUILD_STYLE'') (\<lambda>style.
     run_bind (Some (source_of url_parse ver component_src component_archive_url git_url component_archive_hash)) (\<lambda>src.
       Some (Ok \<lparr>comp_version = ver, revision = map_option revision_of rev,
         sources = hm_collect [src], options = component_options m,
         build_style = build_style_of style\<rparr>))))))))))"

section \<open>Repology\<close>

record Package =
  repo :: string
  pkg_name :: "string option"
  pkg_version :: string
  sub_repo :: "string option"
  orig_version :: "string option"
  status :: "string option"
  summary :: "string option"
  family :: "string option"
  categories :: "string list option"
  licenses :: "string list option"
  maintainers :: "string list option"
  www :: "string list option"
  downloads :: "string list option"

definition BASE_URL :: string where
  "BASE_URL = ''https://repology.org/api/v1/''"

text \<open>\<open>fetch\<close> is the request and the decoding of its JSON answer.\<close>

definition project ::
  "(string \<Rightarrow> ('u, 'e) res) \<Rightarrow> ('u \<Rightarrow> (Package list, 'e) res) \<Rightarrow> string \<Rightarrow> (Package list, 'e) res" where
  "project url_parse fetch package =
     res_bind (url_parse (BASE_URL @ ''/project/'' @ package)) fetch"

definition package_version :: "(string \<Rightarrow> ('v, string) res) \<Rightarrow> 'v \<Rightarrow> Package \<Rightarrow> ('v, 'e) res" where
  "package_version semver_parse v001 p =
     (case semver_parse (pkg_version p) of Ok v \<Rightarrow> Ok v | Err e \<Rightarrow> Ok v001 | Panic x \<Rightarrow> Panic x)"

definition find_newest_version ::
  "(string \<Rightarrow> ('v :: linorder, string) res) \<Rightarrow> 'v \<Rightarrow> ('v \<Rightarrow> string) \<Rightarrow> (string \<Rightarrow> ('u, 'e) res)
     \<Rightarrow> ('u \<Rightarrow> (Package list, 'e) res) \<Rightarrow> string \<Rightarrow> (string, 'e) res" where
  "find_newest_version semver_parse v001 to_string url_parse fetch package =
     res_bind (project url_parse fetch package) (\<lambda>pkgs.
     res_bind (fold_res (\<lambda>p vs. map_res (\<lambda>v. vs @ [v]) (package_version semver_parse v001 p)) pkgs []) (\<lambda>vs.
       let versions = sort vs in
       if versions = [] then Panic ''called `Option::unwrap()` on a `None` value''
       else Ok (to_string (last versions))))"

section \<open>Lemmas\<close>

lemma run_bind_Ok: "run_bind r f = Some (Ok b) \<longleftrightarrow> (\<exists>a. r = Some (Ok a) \<and> f a = Some (Ok b))"
  by (auto simp: run_bind_def split: option.split res.split)

lemma run_bind_simps [simp]:
  "run_bind None f = None" "run_bind (Some (Ok a)) f = f a"
  "run_bind (Some (Err e)) f = Some (Err e)" "run_bind (Some (Panic x)) f = Some (Panic x)"
  by (simp_all add: run_bind_def)

lemma source_of_Ok:
  assumes "source_of url_parse ver src archive git hash = Ok (name, s)"
  shows "src = Some name \<and>
    (case s of
       ArchiveSource v h u \<Rightarrow> v = ver \<and> h = hash \<and> (\<exists>a. archive = Some a \<and> url_parse a = Ok u)
     | GitSource u \<Rightarrow> archive = None \<and> (\<exists>g. git = Some g \<and> url_parse g = Ok u))"
  using assms by (auto simp: source_of_def split: option.splits)

text \<open>The address of the source that is used: the archive's, or the repository's when there is no archive.\<close>

definition chosen_url :: "string option \<Rightarrow> string option \<Rightarrow> string option \<Rightarrow> string option" where
  "chosen_url src archive git =
     (if src = None then None else case archive of Some a \<Rightarrow> Some a | None \<Rightarrow> git)"

lemma source_of_outcome:
  assumes "\<And>s. \<not> is_panic (url_parse s)"
  shows "\<not> is_panic (source_of url_parse ver src archive git hash) \<and>
    (is_err (source_of url_parse ver src archive git hash) \<longleftrightarrow>
      (case chosen_url src archive git of None \<Rightarrow> True | Some u \<Rightarrow> is_err (url_parse u)))"
proof -
  have "is_err (map_res f (map_err g (url_parse u))) = is_err (url_parse u)" for u
    and f :: "'a \<Rightarrow> string \<times> ('b, 'a) Source" and g :: "string \<Rightarrow> component_error"
    by (cases "url_parse u") auto
  then show ?thesis
    using assms by (auto simp: source_of_def chosen_url_def split: option.split)
qed

lemma package_versions:
  assumes "\<And>s. \<not> is_panic (semver_parse s)"
  shows "fold_res (\<lambda>p vs. map_res (\<lambda>v. vs @ [v]) (package_version semver_parse v001 p)) pkgs acc =
    Ok (acc @ map (\<lambda>p. case semver_parse (pkg_version p) of Ok v \<Rightarrow> v | _ \<Rightarrow> v001) pkgs)"
proof (induction pkgs arbitrary: acc)
  case (Cons p pkgs)
  then show ?case
    using assms [of "pkg_version p"] by (cases "semver_parse (pkg_version p)") (auto simp: package_version_def)
qed simp

lemma sort_eq_Nil [simp]: "sort xs = [] \<longleftrightarrow> xs = []"
  by (metis set_empty set_sort)

lemma last_sorted:
  assumes "sorted ys" and "ys \<noteq> []"
  shows "last ys = Max (set ys)"
proof -
  have "y \<le> last ys" if "y \<in> set ys" for y
    using assms that by (cases ys rule: rev_cases) (auto simp: sorted_append)
  then show ?thesis using assms(2) by (intro Max_eqI [symmetric]) auto
qed

lemma last_sort: "xs \<noteq> [] \<Longrightarrow> last (sort xs) = Max (set xs)"
  using last_sorted [of "sort xs"] by simp

lemma build_style_cases:
  "build_style_of style = Make \<longleftrightarrow> style = Some ''justmake''" "build_style_of style = Cmake \<longleftrightarrow> style = Some ''cmake''"
  "build_style_of style = Meson \<longleftrightarrow> style = Some ''meson''" "build_style_of style = Custom \<longleftrightarrow> style = Some ''custom''"
  by (simp_all add: build_style_of_def split: option.split)

section \<open>Properties\<close>

text \<open>
  C30: a component read from a makefile is what the makefile says: its version is the parsed
  \<^verbatim>\<open>COMPONENT_VERSION\<close>; it has exactly one source, named by \<^verbatim>\<open>COMPONENT_SRC\<close>, the archive at
  \<^verbatim>\<open>COMPONENT_ARCHIVE_URL\<close> with the component's own version and the hash, or, only without an archive, the
  repository at \<^verbatim>\<open>GIT_URL\<close>; its revision is \<^verbatim>\<open>COMPONENT_REVISION\<close> as a 32-bit integer, 0 if that is no such number, and
  missing if there is none; its options are the values of \<^verbatim>\<open>CONFIGURE_OPTIONS\<close> as they stand, references unresolved, for
  all platforms; and its build style is the one \<^verbatim>\<open>BUILD_STYLE\<close> names, where \<^verbatim>\<open>justmake\<close> is make and everything but
  \<^verbatim>\<open>justmake\<close>, \<^verbatim>\<open>cmake\<close>, \<^verbatim>\<open>meson\<close> and \<^verbatim>\<open>custom\<close> is configure.
\<close>

theorem new_from_makefile_correct:
  assumes "new_from_makefile semver_parse url_parse k m = Some (Ok c)"
  shows "\<exists>vt name s archive git hash rev style.
    get_first_value k m ''COMPONENT_VERSION'' = Some (Ok (Some vt) :: (string option, component_error) res)
    \<and> semver_parse vt = Ok (comp_version c)
    \<and> get_first_value k m ''COMPONENT_SRC'' = Some (Ok (Some name) :: (string option, component_error) res)
    \<and> get_first_value k m ''COMPONENT_ARCHIVE_URL'' = Some (Ok archive :: (string option, component_error) res)
    \<and> get_first_value k m ''GIT_URL'' = Some (Ok git :: (string option, component_error) res)
    \<and> get_first_value k m ''COMPONENT_ARCHIVE_HASH'' = Some (Ok hash :: (string option, component_error) res)
    \<and> get_first_value k m ''COMPONENT_REVISION'' = Some (Ok rev :: (string option, component_error) res)
    \<and> get_first_value k m ''BUILD_STYLE'' = Some (Ok style :: (string option, component_error) res)
    \<and> sources c = fmupd name s fmempty
    \<and> (case s of
         ArchiveSource v h u \<Rightarrow> v = comp_version c \<and> h = hash \<and> (\<exists>a. archive = Some a \<and> url_parse a = Ok u)
       | GitSource u \<Rightarrow> archive = None \<and> (\<exists>g. git = Some g \<and> url_parse g = Ok u))
    \<and> revision c = (case rev of
         None \<Rightarrow> None
       | Some t \<Rightarrow> Some (case numeral_value t of
            Some v \<Rightarrow> if - (2 ^ 31) \<le> v \<and> v < 2 ^ 31 then v else 0
          | None \<Rightarrow> 0))
    \<and> options c =
        (case fmlookup (mk_variables m) ''CONFIGURE_OPTIONS'' of
           Some v \<Rightarrow> map (\<lambda>t. \<lparr>platform = Platform_All, opt = t\<rparr>) (var_values v)
         | None \<Rightarrow> [])
    \<and> (build_style c = Make \<longleftrightarrow> style = Some ''justmake'')
    \<and> (build_style c = Cmake \<longleftrightarrow> style = Some ''cmake'')
    \<and> (build_style c = Meson \<longleftrightarrow> style = Some ''meson'')
    \<and> (build_style c = Custom \<longleftrightarrow> style = Some ''custom'')"
proof -
  from assms obtain v ver rev src archive git hash style nm s where
    v: "get_first_value k m ''COMPONENT_VERSION'' = Some (Ok v :: (string option, component_error) res)"
       "(case v of None \<Rightarrow> Some (Err MissingVersion) | Some s \<Rightarrow> Some (map_err BadVersion (semver_parse s))) = Some (Ok ver)"
    and g: "get_first_value k m ''COMPONENT_SRC'' = Some (Ok src :: (string option, component_error) res)"
      "get_first_value k m ''COMPONENT_ARCHIVE_URL'' = Some (Ok archive :: (string option, component_error) res)"
      "get_first_value k m ''GIT_URL'' = Some (Ok git :: (string option, component_error) res)"
      "get_first_value k m ''COMPONENT_ARCHIVE_HASH'' = Some (Ok hash :: (string option, component_error) res)"
      "get_first_value k m ''COMPONENT_REVISION'' = Some (Ok rev :: (string option, component_error) res)"
      "get_first_value k m ''BUILD_STYLE'' = Some (Ok style :: (string option, component_error) res)"
    and s: "source_of url_parse ver src archive git hash = Ok (nm, s)"
    and c: "c = \<lparr>comp_version = ver, revision = map_option revision_of rev, sources = hm_collect [(nm, s)],
      options = component_options m, build_style = build_style_of style\<rparr>"
    unfolding new_from_makefile_def run_bind_Ok by auto
  from v(2) obtain vt where vt: "v = Some vt" "semver_parse vt = Ok ver" by (auto split: option.splits)
  have src: "case s of
      ArchiveSource v h u \<Rightarrow> v = comp_version c \<and> h = hash \<and> (\<exists>a. archive = Some a \<and> url_parse a = Ok u)
    | GitSource u \<Rightarrow> archive = None \<and> (\<exists>g. git = Some g \<and> url_parse g = Ok u)"
    using source_of_Ok [OF s] by (auto simp: c split: Source.splits)
  have name: "get_first_value k m ''COMPONENT_SRC'' = Some (Ok (Some nm) :: (string option, component_error) res)"
    "sources c = fmupd nm s fmempty" using g(1) source_of_Ok [OF s] by (simp_all add: c hm_collect_def)
  have rev: "revision c = (case rev of
      None \<Rightarrow> None
    | Some t \<Rightarrow> Some (case numeral_value t of Some v \<Rightarrow> if - (2 ^ 31) \<le> v \<and> v < 2 ^ 31 then v else 0 | None \<Rightarrow> 0))"
    by (simp only: c Component.simps revision_numeral map_option_case)
  have opts: "options c = (case fmlookup (mk_variables m) ''CONFIGURE_OPTIONS'' of
      Some v \<Rightarrow> map (\<lambda>t. \<lparr>platform = Platform_All, opt = t\<rparr>) (var_values v) | None \<Rightarrow> [])"
    by (simp add: c component_options_def)
  have style: "build_style c = Make \<longleftrightarrow> style = Some ''justmake''" "build_style c = Cmake \<longleftrightarrow> style = Some ''cmake''"
    "build_style c = Meson \<longleftrightarrow> style = Some ''meson''" "build_style c = Custom \<longleftrightarrow> style = Some ''custom''"
    by (simp_all add: c build_style_cases)
  have "get_first_value k m ''COMPONENT_VERSION'' = Some (Ok (Some vt) :: (string option, component_error) res)"
    "semver_parse vt = Ok (comp_version c)" using v(1) vt by (simp_all add: c)
  then show ?thesis
    by (intro exI [of _ vt] exI [of _ nm] exI [of _ s] exI [of _ archive] exI [of _ git] exI [of _ hash] exI [of _ rev]
        exI [of _ style] conjI) (rule g name src rev opts style | assumption)+
qed

text \<open>A makefile of a component, and version and address parsers that accept every text but the empty one.\<close>

definition simple_var :: "string \<Rightarrow> string \<Rightarrow> string \<times> MakefileVariable" where
  "simple_var n v = (n, \<lparr>var_key = [], var_values = [v], var_mode = Mode_Set\<rparr>)"

definition sample_component :: Makefile where
  "sample_component = \<lparr>mk_path = [], mk_variables = fmap_of_list
     [simple_var ''COMPONENT_VERSION'' ''1.2.3'', simple_var ''COMPONENT_SRC'' ''nginx-$(COMPONENT_VERSION)'',
      simple_var ''COMPONENT_ARCHIVE_URL'' ''http://x/y'', simple_var ''CONFIGURE_OPTIONS'' ''--a=$(B)''],
     mk_includes = []\<rparr>"

definition non_empty :: "string \<Rightarrow> (string, string) res" where
  "non_empty s = (if s = [] then Err ''empty'' else Ok s)"

lemma non_empty_no_panic: "\<not> is_panic (non_empty s)"
  by (simp add: non_empty_def)

definition styled_component :: Makefile where
  "styled_component = sample_component\<lparr>mk_variables := fmap_of_list
     [simple_var ''COMPONENT_VERSION'' ''1.2.3'', simple_var ''COMPONENT_SRC'' ''nginx-$(COMPONENT_VERSION)'',
      simple_var ''COMPONENT_ARCHIVE_URL'' ''http://x/y'', simple_var ''COMPONENT_REVISION'' ''-012'',
      simple_var ''BUILD_STYLE'' ''justmake'', simple_var ''CONFIGURE_OPTIONS'' ''--a=$(B)'']\<rparr>"

theorem new_from_makefile_correct_witness:
  "\<exists>c s. new_from_makefile non_empty non_empty 3 styled_component = Some (Ok c) \<and> comp_version c = ''1.2.3''
     \<and> sources c = fmupd ''nginx-1.2.3'' s fmempty \<and> revision c = Some (- 12) \<and> build_style c = Make
     \<and> map opt (options c) = [''--a=$(B)'']"
proof -
  have ok: "case new_from_makefile non_empty non_empty 3 styled_component of Some (Ok c) \<Rightarrow> True | _ \<Rightarrow> False"
    by code_simp
  have g: "get_first_value 3 styled_component ''COMPONENT_VERSION'' = Some (Ok (Some ''1.2.3'') :: (string option, component_error) res)"
    "get_first_value 3 styled_component ''COMPONENT_SRC'' = Some (Ok (Some ''nginx-1.2.3'') :: (string option, component_error) res)"
    "get_first_value 3 styled_component ''COMPONENT_REVISION'' = Some (Ok (Some ''-012'') :: (string option, component_error) res)"
    "get_first_value 3 styled_component ''BUILD_STYLE'' = Some (Ok (Some ''justmake'') :: (string option, component_error) res)"
    by code_simp+
  have n: "numeral_value ''-012'' = Some (- 12)" by code_simp
  have opt: "map_option var_values (fmlookup (mk_variables styled_component) ''CONFIGURE_OPTIONS'') = Some [''--a=$(B)'']" by code_simp
  from ok obtain c where c: "new_from_makefile non_empty non_empty 3 styled_component = Some (Ok c)"
    by (auto split: option.splits res.splits)
  from new_from_makefile_correct [OF c] g n opt c show ?thesis by (auto simp: non_empty_def split: if_splits)
qed

text \<open>
  C31: when no variable the component needs runs into a reference cycle or has no value, and the version
  and address parsers do not panic, \<^verbatim>\<open>new_from_makefile\<close> returns without a panic, and fails exactly when the version
  is missing or malformed, the component names no source, or the address of the source it uses is malformed.
\<close>

theorem new_from_makefile_outcome:
  assumes "\<And>x. x \<in> {''COMPONENT_VERSION'', ''COMPONENT_REVISION'', ''COMPONENT_SRC'', ''COMPONENT_ARCHIVE_URL'',
      ''GIT_URL'', ''COMPONENT_ARCHIVE_HASH'', ''BUILD_STYLE''} \<Longrightarrow>
      get_first_value k m x = Some (Ok (env x) :: (string option, component_error) res)"
    and "\<And>s. \<not> is_panic (semver_parse s)" and "\<And>s. \<not> is_panic (url_parse s)"
  shows "\<exists>r. new_from_makefile semver_parse url_parse k m = Some r \<and> \<not> is_panic r
    \<and> (is_err r \<longleftrightarrow>
        (case env ''COMPONENT_VERSION'' of None \<Rightarrow> True | Some v \<Rightarrow> is_err (semver_parse v))
      \<or> (case chosen_url (env ''COMPONENT_SRC'') (env ''COMPONENT_ARCHIVE_URL'') (env ''GIT_URL'') of
            None \<Rightarrow> True | Some u \<Rightarrow> is_err (url_parse u)))"
proof -
  have env: "get_first_value k m ''COMPONENT_VERSION'' = Some (Ok (env ''COMPONENT_VERSION'') :: (string option, component_error) res)"
    "get_first_value k m ''COMPONENT_REVISION'' = Some (Ok (env ''COMPONENT_REVISION'') :: (string option, component_error) res)"
    "get_first_value k m ''COMPONENT_SRC'' = Some (Ok (env ''COMPONENT_SRC'') :: (string option, component_error) res)"
    "get_first_value k m ''COMPONENT_ARCHIVE_URL'' = Some (Ok (env ''COMPONENT_ARCHIVE_URL'') :: (string option, component_error) res)"
    "get_first_value k m ''GIT_URL'' = Some (Ok (env ''GIT_URL'') :: (string option, component_error) res)"
    "get_first_value k m ''COMPONENT_ARCHIVE_HASH'' = Some (Ok (env ''COMPONENT_ARCHIVE_HASH'') :: (string option, component_error) res)"
    "get_first_value k m ''BUILD_STYLE'' = Some (Ok (env ''BUILD_STYLE'') :: (string option, component_error) res)"
    by (rule assms(1); simp)+
  show ?thesis
  proof (cases "env ''COMPONENT_VERSION''")
    case None
    then show ?thesis by (simp add: new_from_makefile_def env)
  next
    case (Some v)
    show ?thesis
    proof (cases "semver_parse v")
      case (Ok ver)
      define src where "src = source_of url_parse ver (env ''COMPONENT_SRC'') (env ''COMPONENT_ARCHIVE_URL'')
        (env ''GIT_URL'') (env ''COMPONENT_ARCHIVE_HASH'')"
      from source_of_outcome [where url_parse = url_parse and ver = ver and src = "env ''COMPONENT_SRC''"
          and archive = "env ''COMPONENT_ARCHIVE_URL''" and git = "env ''GIT_URL''"
          and hash = "env ''COMPONENT_ARCHIVE_HASH''", OF assms(3)] Some Ok show ?thesis
        by (cases src) (simp_all add: new_from_makefile_def env flip: src_def)
    next
      case (Err e)
      with Some show ?thesis by (simp add: new_from_makefile_def env)
    next
      case (Panic x)
      with assms(2) [of v] show ?thesis by simp
    qed
  qed
qed

theorem new_from_makefile_outcome_witness:
  "\<exists>r. new_from_makefile non_empty non_empty 3 sample_component = Some r \<and> \<not> is_panic r \<and> \<not> is_err r"
proof -
  define env where "env = (\<lambda>x. if x = ''COMPONENT_VERSION'' then Some ''1.2.3''
    else if x = ''COMPONENT_SRC'' then Some ''nginx-1.2.3'' else if x = ''COMPONENT_ARCHIVE_URL'' then Some ''http://x/y'' else None)"
  have "list_all (\<lambda>x. get_first_value 3 sample_component x = Some (Ok (if x = ''COMPONENT_VERSION'' then Some ''1.2.3''
      else if x = ''COMPONENT_SRC'' then Some ''nginx-1.2.3'' else if x = ''COMPONENT_ARCHIVE_URL'' then Some ''http://x/y'' else None)
        :: (string option, component_error) res))
      [''COMPONENT_VERSION'', ''COMPONENT_REVISION'', ''COMPONENT_SRC'', ''COMPONENT_ARCHIVE_URL'',
       ''GIT_URL'', ''COMPONENT_ARCHIVE_HASH'', ''BUILD_STYLE'']"
    by code_simp
  then have "get_first_value 3 sample_component x = Some (Ok (env x) :: (string option, component_error) res)"
    if "x \<in> {''COMPONENT_VERSION'', ''COMPONENT_REVISION'', ''COMPONENT_SRC'', ''COMPONENT_ARCHIVE_URL'',
      ''GIT_URL'', ''COMPONENT_ARCHIVE_HASH'', ''BUILD_STYLE''}" for x
    using that unfolding env_def list_all_iff by (simp only: list.set Ball_def)
  from new_from_makefile_outcome [where semver_parse = non_empty and url_parse = non_empty,
      OF this non_empty_no_panic non_empty_no_panic] show ?thesis
    by (auto simp: env_def chosen_url_def non_empty_def)
qed

text \<open>
  C32: the revision of a component at the limits of 32 bits. It always lies between \<open>-2^31\<close> and \<open>2^31 - 1\<close>;
  a revision written as a decimal number is read as that number exactly when it fits, and is silently 0 when it
  does not.
\<close>

theorem revision_bounds:
  assumes "new_from_makefile semver_parse url_parse k m = Some (Ok c)"
    and "get_first_value k m ''COMPONENT_REVISION'' = Some (Ok given :: (string option, component_error) res)"
  shows "(case revision c of Some r \<Rightarrow> - (2 ^ 31) \<le> r \<and> r < 2 ^ 31 | None \<Rightarrow> given = None)
    \<and> (given = Some (decimal n) \<longrightarrow> revision c = Some (if - (2 ^ 31) \<le> n \<and> n < 2 ^ 31 then n else 0))"
proof -
  have "revision c = map_option revision_of given"
    using assms unfolding new_from_makefile_def run_bind_Ok by auto
  moreover have "revision_of (decimal n) = (if - (2 ^ 31) \<le> n \<and> n < 2 ^ 31 then n else 0)"
    by (simp add: revision_of_def i32_parse_decimal)
  ultimately show ?thesis
    using revision_of_bounds by (cases given) simp_all
qed

definition revised_component :: "string \<Rightarrow> Makefile" where
  "revised_component r = sample_component\<lparr>mk_variables :=
     fmupd ''COMPONENT_REVISION'' \<lparr>var_key = [], var_values = [r], var_mode = Mode_Set\<rparr> (mk_variables sample_component)\<rparr>"

theorem revision_bounds_witness:
  "\<exists>c. new_from_makefile non_empty non_empty 3 (revised_component ''2147483648'') = Some (Ok c) \<and> revision c = Some 0"
proof -
  have ok: "case new_from_makefile non_empty non_empty 3 (revised_component ''2147483648'') of Some (Ok c) \<Rightarrow> True | _ \<Rightarrow> False"
    and rev: "get_first_value 3 (revised_component ''2147483648'') ''COMPONENT_REVISION'' =
      Some (Ok (Some ''2147483648'') :: (string option, component_error) res)"
    by code_simp+
  have "''2147483648'' = decimal 2147483648" by (simp add: decimal_def decimal_nat.simps char_of_def bit_0)
  moreover from ok obtain c where c: "new_from_makefile non_empty non_empty 3 (revised_component ''2147483648'') = Some (Ok c)"
    by (auto split: option.splits res.splits)
  ultimately show ?thesis using revision_bounds [OF c rev, of 2147483648] c by auto
qed

text \<open>
  The newest version of a package is the greatest of its versions, a version that is not a semantic
  version counting as \<^verbatim>\<open>0.0.1\<close>; a package without any version makes \<^verbatim>\<open>find_newest_version\<close> panic.
\<close>

theorem find_newest_version_correct:
  assumes "\<And>s. \<not> is_panic (semver_parse s)" and "project url_parse fetch package = Ok pkgs"
  shows "find_newest_version semver_parse v001 to_string url_parse fetch package =
    (if pkgs = [] then Panic ''called `Option::unwrap()` on a `None` value''
     else Ok (to_string (Max ((\<lambda>p. case semver_parse (pkg_version p) of Ok v \<Rightarrow> v | _ \<Rightarrow> v001) ` set pkgs))))"
proof (cases "pkgs = []")
  case False
  then show ?thesis
    using assms(2) last_sort [of "map (\<lambda>p. case semver_parse (pkg_version p) of Ok v \<Rightarrow> v | _ \<Rightarrow> v001) pkgs"]
    by (simp add: find_newest_version_def package_versions [OF assms(1)] Let_def)
qed (simp add: find_newest_version_def assms(2))

definition sample_package :: "string \<Rightarrow> Package" where
  "sample_package v = \<lparr>repo = ''freebsd'', pkg_name = None, pkg_version = v, sub_repo = None, orig_version = None,
     status = None, summary = None, family = None, categories = None, licenses = None, maintainers = None,
     www = None, downloads = None\<rparr>"

lemma sample_package_version: "pkg_version (sample_package v) = v"
  by (simp add: sample_package_def)

theorem find_newest_version_correct_witness:
  "find_newest_version non_empty ''0.0.1'' id non_empty (\<lambda>u. Ok [sample_package ''1.2'', sample_package [], sample_package ''1.3'']) ''nginx''
     = (Ok ''1.3'' :: (string, string) res)"
proof -
  have "project non_empty (\<lambda>u. Ok [sample_package ''1.2'', sample_package [], sample_package ''1.3'']) ''nginx'' =
      Ok [sample_package ''1.2'', sample_package [], sample_package ''1.3'']"
    by (simp add: project_def non_empty_def BASE_URL_def)
  note newest = find_newest_version_correct [where semver_parse = non_empty and ?v001.0 = "''0.0.1''" and to_string = id,
      OF non_empty_no_panic this]
  have "Max (set [''1.2'', ''0.0.1'', ''1.3'']) = ''1.3''" by code_simp
  then show ?thesis using newest by (simp add: sample_package_version non_empty_def)
qed

end
