(* ===== verification/Userland_Includes.thy ===== *)
theory Userland_Includes
  imports Userland_Makefile
begin

text \<open>
  Following includes (\<^verbatim>\<open>Makefile::parse_all\<close> in \<^verbatim>\<open>src/userland/src/lib.rs\<close>): an abstract specification of the
  flattened makefile as a big-step relation without fuel, hash map order or the special case for makefiles
  without includes, and the lemma that \<open>parse_all\<close> implements it; when the recursion ends and when it cannot.
\<close>

section \<open>Specification\<close>

text \<open>
  \<open>flattened os parse cwd m V cwd'\<close>: started in the directory \<open>cwd\<close>, following the includes of \<open>m\<close>
  succeeds with the variables \<open>V\<close> and leaves the process in \<open>cwd'\<close>. The included makefiles override each
  other in the order they are included, and the including one overrides them all.
\<close>

type_synonym variables = "(string, MakefileVariable) HashMap"

text \<open>
  \<open>reads_include\<close>: in the directory \<open>cwd\<close>, the name \<open>i\<close> stands for the makefile \<open>x\<close>. \<open>included\<close>: the makefiles that the
  includes of \<open>m\<close> stand for, one for each and in their order, in the directory of \<open>m\<close>, which becomes the current one.
\<close>

definition reads_include :: "os_calls \<Rightarrow> makefile_parser \<Rightarrow> string \<Rightarrow> string \<Rightarrow> Makefile \<Rightarrow> bool" where
  "reads_include os parse cwd i x \<longleftrightarrow>
     (\<exists>path content y. os_canonicalize os cwd i = Ok path \<and> os_read os cwd path = Ok content
        \<and> parse_makefile_string parse content = Ok y \<and> x = y\<lparr>mk_path := path\<rparr>)"

definition included :: "os_calls \<Rightarrow> makefile_parser \<Rightarrow> string \<Rightarrow> Makefile \<Rightarrow> Makefile list \<Rightarrow> string \<Rightarrow> bool" where
  "included os parse cwd m xs cwd1 \<longleftrightarrow>
     (if mk_includes m = [] then xs = [] \<and> cwd1 = cwd
      else os_chdir os cwd (case path_parent (mk_path m) of Some d \<Rightarrow> d | None \<Rightarrow> ''/'') = Ok cwd1
        \<and> list_all2 (reads_include os parse cwd1) (mk_includes m) xs)"

inductive flattened :: "os_calls \<Rightarrow> makefile_parser \<Rightarrow> string \<Rightarrow> Makefile \<Rightarrow> variables \<Rightarrow> string \<Rightarrow> bool"
  and flattened_seq :: "os_calls \<Rightarrow> makefile_parser \<Rightarrow> string \<Rightarrow> Makefile list \<Rightarrow> variables \<Rightarrow> variables \<Rightarrow> string \<Rightarrow> bool"
  for os parse where
  flat: "included os parse cwd m includes cwd1 \<Longrightarrow>
     flattened_seq os parse cwd1 includes fmempty V cwd2 \<Longrightarrow>
     flattened os parse cwd m (V ++\<^sub>f mk_variables m) cwd2"
| flat_done: "flattened_seq os parse cwd [] V V cwd"
| flat_next: "flattened os parse cwd i W cwd1 \<Longrightarrow> flattened_seq os parse cwd1 is (V ++\<^sub>f W) V' cwd2 \<Longrightarrow>
     flattened_seq os parse cwd (i # is) V V' cwd2"

inductive_cases flattenedE: "flattened os parse cwd m V cwd2"

section \<open>Included makefiles are makefiles that were read\<close>

lemma include_step_reads:
  "include_step os parse cwd i acc = Ok acc' \<longleftrightarrow> (\<exists>x. reads_include os parse cwd i x \<and> acc' = acc @ [x])"
  by (auto simp: include_step_def parse_single_file_def reads_include_def)

lemma include_steps_read:
  "fold_res (include_step os parse cwd) is acc = Ok acc' \<longleftrightarrow>
     (\<exists>xs. list_all2 (reads_include os parse cwd) is xs \<and> acc' = acc @ xs)"
proof (induction "is" arbitrary: acc)
  case (Cons i "is")
  then show ?case
    by (auto simp: include_step_reads list_all2_Cons1 append_eq_append_conv2)
qed auto

lemma parse_included_iff:
  "parse_included_makefiles os parse cwd m = Ok (xs, cwd1) \<longleftrightarrow> included os parse cwd m xs cwd1"
  by (auto simp: parse_included_makefiles_def included_def get_includes_def include_steps_read split: option.splits)

lemma parse_single_file_all_set:
  assumes "pest_parser (makefile_grammar upper) parse" and "parse_single_file os parse cwd path = Ok m"
  shows "all_set m \<and> mk_path m = path"
proof -
  from assms(2) obtain c m0 where m0: "parse_makefile_string parse c = Ok m0" and m: "m = m0\<lparr>mk_path := path\<rparr>"
    by (auto simp: parse_single_file_def)
  then obtain ps where "mk_variables m0 = hm_collect (makefile_assignments ps)"
    using parse_makefile_tree [OF assms(1), of c] by (auto split: res.splits)
  with m show ?thesis by (simp add: all_set_def parsed_mode_set del: fmlookup_hm_collect)
qed

lemma included_all_set:
  assumes "pest_parser (makefile_grammar upper) parse"
    and "included os parse cwd m ms cwd1"
  shows "\<forall>i \<in> set ms. all_set i"
proof -
  have one: "all_set x" if "reads_include os parse c i x" for c i x
  proof -
    from that obtain path where "parse_single_file os parse c path = Ok x"
      by (auto simp: reads_include_def parse_single_file_def)
    with parse_single_file_all_set [OF assms(1)] show ?thesis by blast
  qed
  have "list_all2 (reads_include os parse c) is xs \<Longrightarrow> \<forall>x \<in> set xs. all_set x" for c "is" xs
    by (induction rule: list_all2_induct) (auto dest: one)
  with assms(2) show ?thesis by (auto simp: included_def split: if_splits)
qed

lemma no_includes_flattened:
  "\<not> has_includes m \<Longrightarrow> flattened os parse cwd m (mk_variables m) cwd"
  using flat [of os parse cwd m "[]" cwd fmempty cwd] flat_done
  by (simp add: included_def has_includes_def)

section \<open>Refinement\<close>

definition only_vars :: "variables \<Rightarrow> Makefile" where
  "only_vars V = \<lparr>mk_path = [], mk_variables = V, mk_includes = []\<rparr>"

lemma Makefile_default_vars: "Makefile_default = only_vars fmempty"
  by (simp add: Makefile_default_def only_vars_def)

lemma merge_only_vars:
  assumes "hash_iteration entries" and "all_set m"
  shows "merge entries (only_vars V) m = only_vars (V ++\<^sub>f mk_variables m)"
  using merge_all_set [OF assms, of "only_vars V"]
  by (simp add: Makefile.equality merge_frame only_vars_def)

lemma all_set_add: "all_set (only_vars V) \<Longrightarrow> all_set (only_vars W) \<Longrightarrow> all_set (only_vars (V ++\<^sub>f W))"
  by (auto simp: all_set_def only_vars_def split: if_splits)

lemma all_set_only_vars [simp]: "all_set (only_vars (mk_variables m)) = all_set m" "all_set (only_vars fmempty)"
  by (simp_all add: all_set_def only_vars_def)

lemma flattened_all_set:
  assumes "pest_parser (makefile_grammar upper) parse"
  shows "flattened os parse cwd m V cwd' \<Longrightarrow> all_set m \<Longrightarrow> all_set (only_vars V)"
    and "flattened_seq os parse cwd ms V V' cwd' \<Longrightarrow> \<forall>i \<in> set ms. all_set i \<Longrightarrow> all_set (only_vars V) \<Longrightarrow> all_set (only_vars V')"
proof (induct rule: flattened_flattened_seq.inducts)
  case (flat cwd m incs cwd1 V cwd2)
  then show ?case using included_all_set [OF assms flat.hyps(1)] by (simp add: all_set_add)
qed (simp_all add: all_set_add)

text \<open>Soundness: what the loop and the recursion return is what the specification says.\<close>

lemma include_loop_sound:
  assumes h: "hash_iteration entries" and p: "pest_parser (makefile_grammar upper) parse"
    and rec: "\<And>cwd m r cwd'. all_set m \<Longrightarrow> rec cwd m = Some (Ok (r, cwd')) \<Longrightarrow>
      \<exists>W. r = only_vars W \<and> flattened os parse cwd m W cwd'"
  shows "include_loop entries rec ms (only_vars V) cwd = Some (Ok (fin, cwd')) \<Longrightarrow> \<forall>i \<in> set ms. all_set i \<Longrightarrow>
    \<exists>V'. fin = only_vars V' \<and> flattened_seq os parse cwd ms V V' cwd'"
proof (induction ms arbitrary: V cwd)
  case Nil
  then show ?case by (auto intro: flat_done)
next
  case (Cons i ms)
  obtain W c where W: "flattened os parse cwd i W c" "all_set (only_vars W)"
    and loop: "include_loop entries rec ms (only_vars (V ++\<^sub>f W)) c = Some (Ok (fin, cwd'))"
  proof (cases "has_includes i")
    case True
    with Cons.prems(1) obtain fi c where r: "rec cwd i = Some (Ok (fi, c))"
      and l: "include_loop entries rec ms (merge entries (only_vars V) fi) c = Some (Ok (fin, cwd'))"
      by (auto split: option.splits res.splits)
    have i: "all_set i" using Cons.prems(2) by simp
    from rec [OF i r] obtain W where W: "fi = only_vars W" "flattened os parse cwd i W c" by blast
    from flattened_all_set(1) [OF p W(2) i] have "all_set (only_vars W)" .
    with l W show thesis
      using merge_only_vars [OF h, of "only_vars W" V] by (intro that [of W c]) (simp_all add: only_vars_def)
  next
    case False
    with Cons.prems merge_only_vars [OF h, of i V] show thesis
      by (intro that [of "mk_variables i" cwd]) (simp_all add: no_includes_flattened)
  qed
  from Cons.IH [OF loop] Cons.prems(2) obtain V' where "fin = only_vars V'"
    "flattened_seq os parse c ms (V ++\<^sub>f W) V' cwd'" by auto
  with W(1) show ?case by (blast intro: flat_next)
qed

lemma parse_all_sound:
  assumes h: "hash_iteration entries" and p: "pest_parser (makefile_grammar upper) parse"
  shows "all_set m \<Longrightarrow> parse_all k os parse entries cwd m = Some (Ok (fin, cwd')) \<Longrightarrow>
    \<exists>V. fin = only_vars V \<and> flattened os parse cwd m V cwd'"
proof (induction k arbitrary: m cwd fin cwd')
  case (Suc k)
  then obtain incs cwd1 fin0 where i: "parse_included_makefiles os parse cwd m = Ok (incs, cwd1)"
    and l: "include_loop entries (parse_all k os parse entries) incs (only_vars fmempty) cwd1 = Some (Ok (fin0, cwd'))"
    and fin: "fin = merge entries fin0 m"
    by (auto simp: Makefile_default_vars split: res.splits)
  from include_loop_sound [OF h p Suc.IH l] included_all_set [OF p i [unfolded parse_included_iff]] obtain V where
    "fin0 = only_vars V" "flattened_seq os parse cwd1 incs fmempty V cwd'" by blast
  with i [unfolded parse_included_iff] fin merge_only_vars [OF h Suc.prems(1)] show ?case by (blast intro: flat)
qed simp

text \<open>Completeness: enough fuel gives what the specification allows.\<close>

lemma parse_all_complete:
  assumes h: "hash_iteration entries" and p: "pest_parser (makefile_grammar upper) parse"
  shows "flattened os parse cwd m V cwd' \<Longrightarrow> all_set m \<Longrightarrow>
      \<exists>k. \<forall>j \<ge> k. parse_all j os parse entries cwd m = Some (Ok (only_vars V, cwd'))"
    and "flattened_seq os parse cwd ms V V' cwd' \<Longrightarrow> \<forall>i \<in> set ms. all_set i \<Longrightarrow>
      \<exists>k. \<forall>j \<ge> k. include_loop entries (parse_all j os parse entries) ms (only_vars V) cwd = Some (Ok (only_vars V', cwd'))"
proof (induct rule: flattened_flattened_seq.inducts)
  case (flat cwd m incs cwd1 V cwd2)
  with included_all_set [OF p flat.hyps(1)] obtain k where
    k: "\<forall>j \<ge> k. include_loop entries (parse_all j os parse entries) incs (only_vars fmempty) cwd1 = Some (Ok (only_vars V, cwd2))"
    by blast
  have "parse_all j os parse entries cwd m = Some (Ok (only_vars (V ++\<^sub>f mk_variables m), cwd2))" if "j \<ge> Suc k" for j
    using that k flat.hyps(1) [folded parse_included_iff] merge_only_vars [OF h flat.prems, of V]
    by (cases j) (simp_all add: Makefile_default_vars)
  then show ?case by blast
next
  case (flat_done cwd V)
  then show ?case by simp
next
  case (flat_next cwd i W cwd1 ms V V' cwd2)
  then obtain k l where k: "\<And>j. j \<ge> k \<Longrightarrow> parse_all j os parse entries cwd i = Some (Ok (only_vars W, cwd1))"
    and l: "\<And>j. j \<ge> l \<Longrightarrow> include_loop entries (parse_all j os parse entries) ms (only_vars (V ++\<^sub>f W)) cwd1 =
      Some (Ok (only_vars V', cwd2))" by auto
  have W: "all_set (only_vars W)" using flattened_all_set(1) [OF p flat_next.hyps(1)] flat_next.prems by simp
  have "include_loop entries (parse_all j os parse entries) (i # ms) (only_vars V) cwd = Some (Ok (only_vars V', cwd2))"
    if j: "j \<ge> max k l" for j
  proof (cases "has_includes i")
    case True
    then show ?thesis
      using k [of j] l [of j] j merge_only_vars [OF h W, of V] by (simp add: only_vars_def)
  next
    case False
    then have "included os parse cwd i xs c \<longleftrightarrow> xs = [] \<and> c = cwd" for xs c
      by (simp add: included_def has_includes_def)
    moreover have "flattened_seq os parse cwd [] fmempty V0 c \<longleftrightarrow> V0 = fmempty \<and> c = cwd" for V0 c
      by (auto elim: flattened_seq.cases intro: flattened_flattened_seq.flat_done)
    ultimately have "W = mk_variables i" "cwd1 = cwd"
      using flat_next.hyps(1) by (auto elim!: flattenedE)
    with False show ?thesis
      using l [of j] j merge_only_vars [OF h, of i V] flat_next.prems by simp
  qed
  then show ?case by blast
qed

section \<open>Termination and cycles\<close>

lemma include_loop_returns:
  assumes "\<And>i cwd. i \<in> set ms \<Longrightarrow> has_includes i \<Longrightarrow> rec cwd i \<noteq> None"
  shows "include_loop entries rec ms fin cwd \<noteq> None"
  using assms
proof (induction ms arbitrary: fin cwd)
  case (Cons i ms)
  have "has_includes i \<Longrightarrow> rec cwd i \<noteq> None" using Cons.prems by simp
  moreover have "include_loop entries rec ms f c \<noteq> None" for f c using Cons by simp
  ultimately show ?case by (auto split: option.split res.split)
qed simp

lemma parse_all_rank:
  assumes "\<And>cwd m ms cwd' i. parse_included_makefiles os parse cwd m = Ok (ms, cwd') \<Longrightarrow> i \<in> set ms \<Longrightarrow>
      has_includes i \<Longrightarrow> rank i < (rank m :: nat)"
  shows "rank m < k \<Longrightarrow> parse_all k os parse entries cwd m \<noteq> None"
proof (induction k arbitrary: m cwd)
  case (Suc k)
  show ?case
  proof (cases "parse_included_makefiles os parse cwd m")
    case (Ok x)
    obtain ms cwd' where x: "x = (ms, cwd')" by force
    have "include_loop entries (parse_all k os parse entries) ms Makefile_default cwd' \<noteq> None"
    proof (rule include_loop_returns)
      fix i c assume "i \<in> set ms" "has_includes i"
      from assms [OF Ok [unfolded x] this] Suc.prems show "parse_all k os parse entries c i \<noteq> None"
        by (intro Suc.IH) simp
    qed
    with Ok x show ?thesis by simp
  qed simp_all
qed simp

lemma include_loop_stuck:
  assumes "\<And>cwd. rec cwd i = None" and "has_includes i" and "\<forall>x \<in> set pre. \<not> has_includes x"
  shows "include_loop entries rec (pre @ i # post) fin cwd = None"
  using assms(3) by (induction pre arbitrary: fin) (simp_all add: assms(1,2))

lemma parse_all_stuck:
  assumes "\<And>m cwd. m \<in> C \<Longrightarrow> \<exists>pre i post cwd'. parse_included_makefiles os parse cwd m = Ok (pre @ i # post, cwd')
      \<and> (\<forall>x \<in> set pre. \<not> has_includes x) \<and> has_includes i \<and> i \<in> C"
  shows "m \<in> C \<Longrightarrow> parse_all k os parse entries cwd m = None"
proof (induction k arbitrary: m cwd)
  case (Suc k)
  from assms [OF Suc.prems, of cwd] obtain pre i post cwd' where
    i: "parse_included_makefiles os parse cwd m = Ok (pre @ i # post, cwd')"
      "\<forall>x \<in> set pre. \<not> has_includes x" "has_includes i" "i \<in> C" by blast
  have "include_loop entries (parse_all k os parse entries) (pre @ i # post) fin c = None" for fin c
    using Suc.IH [OF i(4)] i(3,2) by (rule include_loop_stuck)
  with i(1) show ?case by simp
qed simp

section \<open>Properties\<close>

text \<open>
  C5: following the includes of a makefile refines its specification. For every order of hash map
  iteration and every parser of the grammar, \<^verbatim>\<open>parse_all\<close> on a makefile that was read returns a makefile exactly
  when the specification gives its variables \<open>V\<close>: the names it includes are looked up in its own directory, one
  after the other, and each file is read and flattened in turn, later files overriding
  earlier ones, and the including file overriding them all. The result has no path and no includes.
\<close>

theorem parse_all_refines:
  assumes "hash_iteration entries" and "pest_parser (makefile_grammar upper) parse" and "all_set m"
  shows "(\<exists>k. parse_all k os parse entries cwd m = Some (Ok (fin, cwd'))) \<longleftrightarrow>
    (\<exists>V. fin = \<lparr>mk_path = [], mk_variables = V, mk_includes = []\<rparr> \<and> flattened os parse cwd m V cwd')"
proof
  assume "\<exists>k. parse_all k os parse entries cwd m = Some (Ok (fin, cwd'))"
  then show "\<exists>V. fin = \<lparr>mk_path = [], mk_variables = V, mk_includes = []\<rparr> \<and> flattened os parse cwd m V cwd'"
    using parse_all_sound [OF assms] by (auto simp: only_vars_def)
next
  assume "\<exists>V. fin = \<lparr>mk_path = [], mk_variables = V, mk_includes = []\<rparr> \<and> flattened os parse cwd m V cwd'"
  then show "\<exists>k. parse_all k os parse entries cwd m = Some (Ok (fin, cwd'))"
    using parse_all_complete(1) [OF assms(1,2) _ assms(3)] by (fastforce simp: only_vars_def)
qed

text \<open>An operating system with one text in every file, for the examples.\<close>

definition sample_os :: "string \<Rightarrow> os_calls" where
  "sample_os content = \<lparr>os_read = (\<lambda>cwd p. Ok content), os_canonicalize = (\<lambda>cwd p. Ok (''/'' @ p)),
     os_chdir = (\<lambda>cwd d. Ok d)\<rparr>"

definition with_incs :: "string list \<Rightarrow> Makefile" where
  "with_incs is = \<lparr>mk_path = ''/w/Makefile'', mk_variables = fmempty, mk_includes = is\<rparr>"

definition sample_b :: Makefile where
  "sample_b = \<lparr>mk_path = ''/b.mk'', mk_variables = fmap_of_list
     [(''B'', \<lparr>var_key = [], var_values = [''1''], var_mode = Mode_Set\<rparr>)], mk_includes = []\<rparr>"

definition sample_loop :: "string \<Rightarrow> Makefile" where
  "sample_loop p = \<lparr>mk_path = p, mk_variables = fmempty, mk_includes = [''a.mk'']\<rparr>"

lemma sample_trees:
  "(case sample_mk_parse K_makefile ''B=1'' of
      Ok ps \<Rightarrow> Some (makefile_assignments ps, makefile_includes ps) | _ \<Rightarrow> None) =
     Some ([(''B'', \<lparr>var_key = [], var_values = [''1''], var_mode = Mode_Set\<rparr>)], [])"
  "(case sample_mk_parse K_makefile ''include a.mk'' of
      Ok ps \<Rightarrow> Some (makefile_assignments ps, makefile_includes ps) | _ \<Rightarrow> None) = Some ([], [''a.mk''])"
  by code_simp+

lemma sample_texts:
  "parse_makefile_string sample_mk_parse ''B=1'' = Ok (sample_b\<lparr>mk_path := []\<rparr>)"
  "parse_makefile_string sample_mk_parse ''include a.mk'' = Ok (sample_loop [])"
  using sample_trees parse_makefile_tree [OF sample_mk_contract, of "''B=1''"]
    parse_makefile_tree [OF sample_mk_contract, of "''include a.mk''"]
  by (auto simp: sample_b_def sample_loop_def hm_collect_def fmap_ext fmlookup_of_list split: res.splits)

lemma sample_files:
  "parse_single_file (sample_os ''B=1'') sample_mk_parse cwd p = Ok (sample_b\<lparr>mk_path := p\<rparr>)"
  "parse_single_file (sample_os ''include a.mk'') sample_mk_parse cwd p = Ok (sample_loop p)"
  by (simp_all add: parse_single_file_def sample_os_def sample_texts sample_loop_def)

lemma include_step_sample:
  assumes "parse_single_file (sample_os c) parse cwd (''/'' @ i) = Ok m"
  shows "include_step (sample_os c) parse cwd i acc = Ok (acc @ [m])"
  using assms by (simp add: include_step_def sample_os_def)

lemma sample_chdir [simp]: "os_chdir (sample_os c) cwd d = Ok d"
  by (simp add: sample_os_def)

lemma sample_included:
  "\<exists>cwd'. parse_included_makefiles (sample_os ''B=1'') sample_mk_parse cwd (with_incs [''b.mk'']) = Ok ([sample_b], cwd')"
  by (simp add: parse_included_makefiles_def with_incs_def get_includes_def include_step_sample sample_files
      sample_b_def split: option.split)

lemma sample_included_loop:
  "\<exists>cwd'. parse_included_makefiles (sample_os ''include a.mk'') sample_mk_parse cwd (sample_loop p) =
     Ok ([] @ sample_loop ''/a.mk'' # [], cwd')"
  by (simp add: parse_included_makefiles_def sample_loop_def [of p] get_includes_def include_step_sample sample_files
      split: option.split)

text \<open>Two included makefiles that assign the same variable.\<close>

definition two_files_os :: os_calls where
  "two_files_os = \<lparr>os_read = (\<lambda>cwd p. Ok (if p = ''/w/a.mk'' then ''B=1'' else ''B=2'')),
     os_canonicalize = (\<lambda>cwd p. Ok (path_join cwd p)), os_chdir = (\<lambda>cwd d. Ok d)\<rparr>"

definition b_is :: "string \<Rightarrow> variables" where
  "b_is v = fmupd ''B'' \<lparr>var_key = [], var_values = [v], var_mode = Mode_Set\<rparr> fmempty"

lemma two_files_tree:
  "(case sample_mk_parse K_makefile ''B=2'' of
      Ok ps \<Rightarrow> Some (makefile_assignments ps, makefile_includes ps) | _ \<Rightarrow> None) =
     Some ([(''B'', \<lparr>var_key = [], var_values = [''2''], var_mode = Mode_Set\<rparr>)], [])"
  by code_simp

lemma two_files_texts:
  "parse_makefile_string sample_mk_parse ''B=1'' = Ok \<lparr>mk_path = [], mk_variables = b_is ''1'', mk_includes = []\<rparr>"
  "parse_makefile_string sample_mk_parse ''B=2'' = Ok \<lparr>mk_path = [], mk_variables = b_is ''2'', mk_includes = []\<rparr>"
  using sample_trees(1) two_files_tree parse_makefile_tree [OF sample_mk_contract, of "''B=1''"]
    parse_makefile_tree [OF sample_mk_contract, of "''B=2''"]
  by (auto simp: b_is_def hm_collect_def split: res.splits)

lemma two_files_included:
  "included two_files_os sample_mk_parse ''/'' (with_incs [''a.mk'', ''b.mk''])
     [\<lparr>mk_path = ''/w/a.mk'', mk_variables = b_is ''1'', mk_includes = []\<rparr>,
      \<lparr>mk_path = ''/w/b.mk'', mk_variables = b_is ''2'', mk_includes = []\<rparr>] ''/w''"
proof -
  have "path_parent ''/w/Makefile'' = Some ''/w''" "path_join ''/w'' ''a.mk'' = ''/w/a.mk''" "path_join ''/w'' ''b.mk'' = ''/w/b.mk''"
    by code_simp+
  then show ?thesis
    by (simp add: included_def with_incs_def reads_include_def two_files_os_def two_files_texts)
qed

theorem parse_all_refines_witness:
  "\<exists>k cwd'. parse_all k two_files_os sample_mk_parse sorted_list_of_fmap ''/'' (with_incs [''a.mk'', ''b.mk'']) =
     Some (Ok (\<lparr>mk_path = [], mk_variables = b_is ''2'', mk_includes = []\<rparr>, cwd'))"
proof -
  let ?f = "\<lambda>n v. \<lparr>mk_path = n, mk_variables = b_is v, mk_includes = []\<rparr>"
  have f: "flattened two_files_os sample_mk_parse ''/w'' (?f n v) (b_is v) ''/w''" for n v
    using no_includes_flattened [of "?f n v" two_files_os sample_mk_parse "''/w''"] by (simp add: has_includes_def)
  have "flattened_seq two_files_os sample_mk_parse ''/w'' [?f ''/w/a.mk'' ''1'', ?f ''/w/b.mk'' ''2''] fmempty
      (fmempty ++\<^sub>f b_is ''1'' ++\<^sub>f b_is ''2'') ''/w''"
    by (rule flat_next [OF f flat_next [OF f flat_done]])
  from flat [OF two_files_included this]
  have "flattened two_files_os sample_mk_parse ''/'' (with_incs [''a.mk'', ''b.mk'']) (b_is ''2'') ''/w''"
    by (simp add: with_incs_def b_is_def)
  moreover have "all_set (with_incs [''a.mk'', ''b.mk''])" by (simp add: all_set_def with_incs_def)
  ultimately show ?thesis
    using parse_all_refines [OF sorted_iter.hash_iteration_axioms sample_mk_contract, of "with_incs [''a.mk'', ''b.mk'']"] by blast
qed

text \<open>
  C28: following includes ends when includes do not go round in circles: if every included makefile that has
  includes of its own ranks below the one that includes it, \<^verbatim>\<open>parse_all\<close> returns, and recursion one level deeper
  than the rank is enough.
\<close>

theorem parse_all_returns:
  assumes "\<And>cwd m ms cwd' i. parse_included_makefiles os parse cwd m = Ok (ms, cwd') \<Longrightarrow> i \<in> set ms \<Longrightarrow>
      has_includes i \<Longrightarrow> rank i < (rank m :: nat)"
  shows "\<exists>r. parse_all (Suc (rank m)) os parse entries cwd m = Some r"
proof -
  have "parse_all (Suc (rank m)) os parse entries cwd m \<noteq> None"
    by (rule parse_all_rank [of os parse rank, OF assms lessI])
  then show ?thesis by blast
qed

theorem parse_all_returns_witness:
  "\<exists>r. parse_all 1 (sample_os ''B=1'') sample_mk_parse sorted_list_of_fmap ''/'' (with_incs [''b.mk'']) = Some r"
proof -
  have *: "\<forall>i \<in> set ms. \<not> has_includes i"
    if "fold_res (include_step (sample_os ''B=1'') sample_mk_parse cwd) incs [] = Ok ms" for cwd incs ms
    using that by (rule fold_res_invariant [where P = "\<lambda>ms. \<forall>i \<in> set ms. \<not> has_includes i"])
      (auto simp: include_step_sample sample_files has_includes_def sample_b_def)
  have "\<not> has_includes i" if "parse_included_makefiles (sample_os ''B=1'') sample_mk_parse cwd m = Ok (ms, cwd')"
    "i \<in> set ms" for cwd m ms cwd' i
    using that * by (auto simp: parse_included_makefiles_def split: option.splits)
  then show ?thesis
    using parse_all_returns [of "sample_os ''B=1''" sample_mk_parse "\<lambda>_. 0"] by simp
qed

text \<open>
  C29: \<^verbatim>\<open>parse_all\<close> has no guard against include cycles: from a set of makefiles each of which includes, after
  only makefiles without includes, another makefile of the set, it never returns. A makefile that includes itself
  recurses until the stack is exhausted.
\<close>

theorem parse_all_diverges:
  assumes "\<And>m cwd. m \<in> C \<Longrightarrow> \<exists>pre i post cwd'. parse_included_makefiles os parse cwd m = Ok (pre @ i # post, cwd')
      \<and> (\<forall>x \<in> set pre. \<not> has_includes x) \<and> has_includes i \<and> i \<in> C"
    and "m \<in> C"
  shows "parse_all k os parse entries cwd m = None"
  using assms by (rule parse_all_stuck)

theorem parse_all_diverges_witness:
  "parse_all 40 (sample_os ''include a.mk'') sample_mk_parse sorted_list_of_fmap ''/'' (sample_loop ''/a.mk'') = None"
proof (rule parse_all_diverges [where C = "range sample_loop"])
  fix m cwd assume "m \<in> range sample_loop"
  then obtain p where "m = sample_loop p" by blast
  moreover have "has_includes (sample_loop ''/a.mk'')" by (simp add: has_includes_def sample_loop_def)
  moreover obtain cwd' where "parse_included_makefiles (sample_os ''include a.mk'') sample_mk_parse cwd (sample_loop p) =
      Ok ([] @ sample_loop ''/a.mk'' # [], cwd')" using sample_included_loop by blast
  ultimately show "\<exists>pre i post cwd'. parse_included_makefiles (sample_os ''include a.mk'') sample_mk_parse cwd m =
      Ok (pre @ i # post, cwd') \<and> (\<forall>x \<in> set pre. \<not> has_includes x) \<and> has_includes i \<and> i \<in> range sample_loop"
    by (intro exI [of _ "[]"] exI [of _ "sample_loop ''/a.mk''"] exI [of _ cwd']) auto
qed simp

end
