(* ===== verification/Pkg6dev_Commands.thy ===== *)
theory Pkg6dev_Commands
  imports Rust_IO Pkg6dev_Diff Userland_Component Userland_Includes
begin

text \<open>
  The two commands of \<^verbatim>\<open>pkg6dev\<close> (\<^verbatim>\<open>src/pkg6dev/src/main.rs\<close>) with their effects: which files they read, what they
  print and what they write. The answers of the file system are a record \<open>dev_sys\<close>; the argument parser and the
  text of a derived \<^verbatim>\<open>Debug\<close> are left to parameters.
\<close>

section \<open>The system\<close>

datatype dev_op = ReadDir string | ReadManifest string | OpenOutput string | WriteLine string string | PrintLine string

record dev_sys =
  dev_read_dir :: "dev_op list \<Rightarrow> string \<Rightarrow> ((string, io_error) res list, io_error) res"
  dev_read :: "dev_op list \<Rightarrow> string \<Rightarrow> (string, io_error) res"
  dev_exists :: "dev_op list \<Rightarrow> string \<Rightarrow> bool"
  dev_open :: "dev_op list \<Rightarrow> string \<Rightarrow> (unit, io_error) res"
  dev_write :: "dev_op list \<Rightarrow> string \<Rightarrow> string \<Rightarrow> (unit, io_error) res"

datatype dev_error =
    DevIOError io_error
  | DevActionError ActionError
  | DevMakefileError makefile_error
  | DevComponentError component_error

type_synonym 'a dev_io = "(dev_op, 'a, dev_error) io"

definition print_line :: "string \<Rightarrow> unit dev_io" where
  [rust_calls]: "print_line l = io_call (PrintLine l) (\<lambda>_. Ok ())"

section \<open>\<^verbatim>\<open>diff-component\<close>\<close>

text \<open>The names of the files of the directory that end in \<^verbatim>\<open>.p5m\<close>; a name that is not UTF-8 makes the code panic.\<close>

definition manifest_files :: "(string, io_error) res list \<Rightarrow> (string list, dev_error) res" where
  "manifest_files es =
     fold_res (\<lambda>p acc. if utf8_valid p then Ok (acc @ [p])
                       else Panic ''called `Result::unwrap()` on an `Err` value'')
       (filter (\<lambda>p. path_extension p = Some ''p5m'') (List.map_filter (\<lambda>e. case e of Ok p \<Rightarrow> Some p | _ \<Rightarrow> None) es)) []"

text \<open>
  \<^verbatim>\<open>manifest_files.iter().map(Manifest::parse_file).collect()\<close>: reading stops at the first error, which becomes
  part of the value.
\<close>

fun collect_manifests :: "dev_sys \<Rightarrow> manifest_parser \<Rightarrow> string list \<Rightarrow> (Manifest list, ActionError) res dev_io" where
  "collect_manifests S parse [] = io_return (Ok [])"
| "collect_manifests S parse (f # fs) =
     io_bind (io_call (ReadManifest f) (\<lambda>tr.
       case parse_file parse (dev_read S tr) f of Ok m \<Rightarrow> Ok (Ok m) | Err e \<Rightarrow> Ok (Err e) | Panic x \<Rightarrow> Panic x)) (\<lambda>m.
       case m of
         Ok m0 \<Rightarrow> io_bind (collect_manifests S parse fs) (\<lambda>ms. io_return (map_res (\<lambda>l. m0 # l) ms))
       | Err e \<Rightarrow> io_return (Err e)
       | Panic x \<Rightarrow> io_res (Panic x))"

definition missing_text :: "File \<Rightarrow> string" where
  "missing_text f = ''file '' @ file_path f @ '' is missing in the manifests''"

definition removed_text :: "File \<Rightarrow> string" where
  "removed_text f = ''file path='' @ file_path f @ '' has been removed from the sample-manifest''"

definition write_missing :: "dev_sys \<Rightarrow> string \<Rightarrow> File list \<Rightarrow> unit dev_io" where
  "write_missing S out missing_files =
     io_bind (io_call (OpenOutput out) (\<lambda>tr. map_err DevIOError (dev_open S tr out))) (\<lambda>_.
       io_fold (\<lambda>f _. io_call (WriteLine out (''file path='' @ file_path f))
           (\<lambda>tr. map_err DevIOError (dev_write S tr out (''file path='' @ file_path f))))
         missing_files ())"

definition diff_component ::
  "dev_sys \<Rightarrow> manifest_parser \<Rightarrow> repl_entries \<Rightarrow> string \<Rightarrow> string list option \<Rightarrow> string option \<Rightarrow> unit dev_io" where
  "diff_component S parse entries component_path replacements output_manifest =
     (let repl = map_option parse_tripplet_replacements replacements;
          sample_file = path_join component_path ''manifests/sample-manifest.p5m'' in
      io_bind (io_call (ReadDir component_path) (\<lambda>tr. map_err DevIOError (dev_read_dir S tr component_path))) (\<lambda>es.
      io_bind (io_res (manifest_files es)) (\<lambda>fs.
      io_bind (collect_manifests S parse fs) (\<lambda>manifests_res.
      io_bind (io_call (ReadManifest sample_file) (\<lambda>tr. map_err DevActionError (parse_file parse (dev_read S tr) sample_file))) (\<lambda>sample.
      io_bind (io_res (unwrap manifests_res)) (\<lambda>manifests.
      let missing_files = find_files_missing_in_manifests entries sample manifests repl in
      io_bind (io_fold (\<lambda>f _. print_line (missing_text f)) missing_files ()) (\<lambda>_.
      io_bind (io_ask (\<lambda>tr. find_removed_files entries (dev_exists S tr) sample manifests component_path repl)) (\<lambda>removed_files.
      io_bind (io_fold (\<lambda>f _. print_line (removed_text f)) removed_files ()) (\<lambda>_.
        case output_manifest of
          Some out \<Rightarrow> write_missing S out missing_files
        | None \<Rightarrow> io_return ())))))))))"

section \<open>\<^verbatim>\<open>show-component\<close>\<close>

definition indent :: "string \<Rightarrow> string" where
  "indent v = str_replace [CHR 0x0A] [CHR 0x0A, CHR 0x09] v"

definition show_var :: "nat \<Rightarrow> Makefile \<Rightarrow> string \<Rightarrow> (string \<Rightarrow> unit dev_io) \<Rightarrow> unit dev_io" where
  "show_var k m name f =
     io_bind (io_pure (map_option Ok (get k m name))) (\<lambda>v.
       case v of Some var \<Rightarrow> f var | None \<Rightarrow> io_return ())"

text \<open>
  The printing part of \<^verbatim>\<open>show_component_info\<close>. \<open>newest\<close> is \<open>find_newest_version\<close> with its parameters,
  \<open>debug_error\<close> and \<open>debug\<close> the derived \<^verbatim>\<open>Debug\<close> texts, \<open>k\<close> the bound on the recursion of \<open>parse_all\<close> and \<open>get\<close>.
\<close>

definition show_makefile ::
  "(string \<Rightarrow> (string, 'e) res) \<Rightarrow> ('e \<Rightarrow> string) \<Rightarrow> (('v, 'u) Component \<Rightarrow> string) \<Rightarrow> nat \<Rightarrow> Makefile
     \<Rightarrow> ('v, 'u) Component \<Rightarrow> unit dev_io" where
  "show_makefile newest debug_error debug k makefile component =
     io_bind (io_pure (map_option Ok (get k makefile ''COMPONENT_NAME''))) (\<lambda>nm.
     io_bind (case nm of
         Some var \<Rightarrow>
           io_bind (print_line (''Name: '' @ indent var)) (\<lambda>_.
             io_bind (io_pure (get_first_value k makefile ''COMPONENT_NAME'')) (\<lambda>n.
               io_return (case n of Some component_name \<Rightarrow> component_name | None \<Rightarrow> [])))
       | None \<Rightarrow> io_return []) (\<lambda>name.
     io_bind (show_var k makefile ''COMPONENT_VERSION'' (\<lambda>var.
       io_bind (print_line (''Version: '' @ indent var)) (\<lambda>_.
         case newest name of
           Ok latest \<Rightarrow> print_line (''Latest Version: '' @ latest)
         | Err e \<Rightarrow> print_line (''Error: Could not get latest version info: '' @ debug_error e)
         | Panic x \<Rightarrow> io_res (Panic x)))) (\<lambda>_.
     io_bind (show_var k makefile ''BUILD_BITS'' (\<lambda>var. print_line (''Build bits: '' @ indent var))) (\<lambda>_.
     io_bind (show_var k makefile ''COMPONENT_BUILD_ACTION'' (\<lambda>var. print_line (''Build action: '' @ indent var))) (\<lambda>_.
     io_bind (show_var k makefile ''COMPONENT_PROJECT_URL'' (\<lambda>var. print_line (''Project URl: '' @ indent var))) (\<lambda>_.
     io_bind (show_var k makefile ''COMPONENT_ARCHIVE_URL'' (\<lambda>var. print_line (''Source URl: '' @ indent var))) (\<lambda>_.
     io_bind (show_var k makefile ''COMPONENT_ARCHIVE_HASH'' (\<lambda>var. print_line (''Source Archive File Hash: '' @ indent var))) (\<lambda>_.
     io_bind (show_var k makefile ''REQUIRED_PACKAGES'' (\<lambda>var.
       print_line (''Dependencies:'' @ [CHR 0x0A, CHR 0x09] @ indent var))) (\<lambda>_.
     io_bind (show_var k makefile ''COMPONENT_INSTALL_ACTION'' (\<lambda>var.
       print_line (''Install Action:'' @ [CHR 0x0A, CHR 0x09] @ var))) (\<lambda>_.
     print_line (''Component: '' @ debug component)))))))))))"

definition show_component_info ::
  "os_calls \<Rightarrow> makefile_parser \<Rightarrow> var_entries \<Rightarrow> (string \<Rightarrow> ('v, string) res) \<Rightarrow> (string \<Rightarrow> ('u, string) res)
     \<Rightarrow> (string \<Rightarrow> (string, 'e) res) \<Rightarrow> ('e \<Rightarrow> string) \<Rightarrow> (('v, 'u) Component \<Rightarrow> string) \<Rightarrow> nat \<Rightarrow> string \<Rightarrow> string
     \<Rightarrow> unit dev_io" where
  "show_component_info os parse entries semver_parse url_parse newest debug_error debug k cwd component_path =
     (let makefile_path = path_join component_path ''Makefile'' in
      io_bind (io_res (map_err DevMakefileError (parse_single_file os parse cwd makefile_path))) (\<lambda>initial.
      io_bind (io_pure (map_option (map_err DevMakefileError) (parse_all k os parse entries cwd initial))) (\<lambda>(makefile, _).
      io_bind (io_pure (map_option (map_err DevComponentError) (new_from_makefile semver_parse url_parse k makefile))) (\<lambda>component.
        show_makefile newest debug_error debug k makefile component))))"

section \<open>Lemmas\<close>

lemma print_loop: "io_fold (\<lambda>f _. print_line (t f)) fs () tr = Some (Ok (), tr @ map (PrintLine \<circ> t) fs)"
  by (induction fs arbitrary: tr) (simp_all add: rust_calls io_bind_def)

text \<open>What was read: each manifest is the parse of what the system answered at that point.\<close>

definition manifests_read :: "dev_sys \<Rightarrow> manifest_parser \<Rightarrow> dev_op list \<Rightarrow> string list \<Rightarrow> Manifest list \<Rightarrow> bool" where
  "manifests_read S parse tr fs ms \<longleftrightarrow> length ms = length fs
     \<and> (\<forall>i < length fs. parse_file parse (dev_read S (tr @ map ReadManifest (take i fs))) (fs ! i) = Ok (ms ! i))"

lemma manifests_read_Cons:
  assumes "parse_file parse (dev_read S tr) f = Ok m" and "manifests_read S parse (tr @ [ReadManifest f]) fs ms"
  shows "manifests_read S parse tr (f # fs) (m # ms)"
  unfolding manifests_read_def
proof (intro conjI allI impI)
  fix i assume "i < length (f # fs)"
  then show "parse_file parse (dev_read S (tr @ map ReadManifest (take i (f # fs)))) ((f # fs) ! i) = Ok ((m # ms) ! i)"
    using assms by (cases i) (simp_all add: manifests_read_def)
qed (use assms(2) in \<open>simp add: manifests_read_def\<close>)

lemma collect_manifests_Ok:
  "collect_manifests S parse fs tr = Some (Ok (Ok ms), tr') \<Longrightarrow>
     tr' = tr @ map ReadManifest fs \<and> manifests_read S parse tr fs ms"
proof (induction fs arbitrary: ms tr)
  case (Cons f fs)
  then obtain m where m: "parse_file parse (dev_read S tr) f = Ok m"
    by (auto simp: io_bind_Ok split: res.splits)
  with Cons.prems obtain ms0 where ms0: "collect_manifests S parse fs (tr @ [ReadManifest f]) = Some (Ok (Ok ms0), tr')"
    and "ms = m # ms0" by (auto simp: io_bind_Ok)
  with Cons.IH [OF ms0] m show ?case by (simp add: manifests_read_Cons)
qed (simp add: manifests_read_def)

lemma write_loop_Ok:
  "io_fold (\<lambda>f _. io_call (WriteLine out (t f)) (\<lambda>tr. a tr f)) fs () tr = Some (Ok (), tr') \<Longrightarrow>
     tr' = tr @ map (\<lambda>f. WriteLine out (t f)) fs"
  by (induction fs arbitrary: tr) (simp, fastforce simp: io_bind_Ok)

lemma manifest_files_Ok:
  assumes "manifest_files es = Ok fs"
  shows "fs = filter (\<lambda>p. path_extension p = Some ''p5m'') (List.map_filter (\<lambda>e. case e of Ok p \<Rightarrow> Some p | _ \<Rightarrow> None) es)"
proof -
  have "fold_res (\<lambda>p acc. if utf8_valid p then Ok (acc @ [p]) else Panic x) xs acc = Ok ys \<Longrightarrow> ys = acc @ xs"
    for xs acc ys x
    by (induction xs arbitrary: acc) (simp, fastforce split: if_splits)
  from this [of _ _ "[]"] assms show ?thesis by (simp add: manifest_files_def)
qed

section \<open>Properties\<close>

text \<open>
  C35: what \<^verbatim>\<open>diff-component\<close> does when it succeeds, as the exact sequence of its calls: it lists the component's
  directory, reads its \<^verbatim>\<open>.p5m\<close> manifests and the sample manifest, prints one line for every missing and then one for
  every removed file, and, only if an output file was named, truncates it and writes one file action for every
  missing file, in the same order.
\<close>

theorem diff_component_output:
  assumes "diff_component S parse entries cp repl out tr = Some (Ok (), tr')"
  shows "\<exists>es fs sample manifests missing removed. let
      sample_file = path_join cp ''manifests/sample-manifest.p5m'';
      r = map_option parse_tripplet_replacements repl;
      read = tr @ ReadDir cp # map ReadManifest fs;
      told = read @ ReadManifest sample_file # map (PrintLine \<circ> missing_text) missing in
    dev_read_dir S tr cp = Ok es
    \<and> fs = filter (\<lambda>p. path_extension p = Some ''p5m'') (List.map_filter (\<lambda>e. case e of Ok p \<Rightarrow> Some p | _ \<Rightarrow> None) es)
    \<and> manifests_read S parse (tr @ [ReadDir cp]) fs manifests
    \<and> parse_file parse (dev_read S read) sample_file = Ok sample
    \<and> missing = find_files_missing_in_manifests entries sample manifests r
    \<and> removed = find_removed_files entries (dev_exists S told) sample manifests cp r
    \<and> tr' = told @ map (PrintLine \<circ> removed_text) removed
      @ (case out of None \<Rightarrow> [] | Some p \<Rightarrow> OpenOutput p # map (\<lambda>f. WriteLine p (''file path='' @ file_path f)) missing)"
proof -
  let ?sample = "path_join cp ''manifests/sample-manifest.p5m''"
  let ?repl = "map_option parse_tripplet_replacements repl"
  from assms obtain es fs manifests tr1 sample where es: "dev_read_dir S tr cp = Ok es" and fs: "manifest_files es = Ok fs"
    and ms: "collect_manifests S parse fs (tr @ [ReadDir cp]) = Some (Ok (Ok manifests), tr1)"
    and sample: "parse_file parse (dev_read S tr1) ?sample = Ok sample"
    and last: "(case out of
        Some p \<Rightarrow> write_missing S p (find_files_missing_in_manifests entries sample manifests ?repl) | None \<Rightarrow> io_return ())
      (tr1 @ ReadManifest ?sample # map (PrintLine \<circ> missing_text) (find_files_missing_in_manifests entries sample manifests ?repl)
        @ map (PrintLine \<circ> removed_text) (find_removed_files entries
          (dev_exists S (tr1 @ ReadManifest ?sample # map (PrintLine \<circ> missing_text)
            (find_files_missing_in_manifests entries sample manifests ?repl))) sample manifests cp ?repl)) = Some (Ok (), tr')"
    by (auto simp: diff_component_def Let_def io_bind_Ok print_loop)
  define missing where "missing = find_files_missing_in_manifests entries sample manifests ?repl"
  define told where "told = tr1 @ ReadManifest ?sample # map (PrintLine \<circ> missing_text) missing"
  define removed where "removed = find_removed_files entries (dev_exists S told) sample manifests cp ?repl"
  have tr1: "tr1 = tr @ ReadDir cp # map ReadManifest fs" and read: "manifests_read S parse (tr @ [ReadDir cp]) fs manifests"
    using collect_manifests_Ok [OF ms] by simp_all
  have "tr' = told @ map (PrintLine \<circ> removed_text) removed
      @ (case out of None \<Rightarrow> [] | Some p \<Rightarrow> OpenOutput p # map (\<lambda>f. WriteLine p (''file path='' @ file_path f)) missing)"
    using last unfolding missing_def [symmetric] told_def [symmetric] removed_def [symmetric]
    by (auto simp: told_def write_missing_def io_bind_Ok dest: write_loop_Ok split: option.splits)
  then show ?thesis
    using es manifest_files_Ok [OF fs] read sample
    by (intro exI [of _ es] exI [of _ fs] exI [of _ sample] exI [of _ manifests] exI [of _ missing] exI [of _ removed])
      (simp add: Let_def missing_def told_def removed_def tr1)
qed

definition sample_dev_sys :: dev_sys where
  "sample_dev_sys = \<lparr>dev_read_dir = \<lambda>_ _. Ok [Ok ''c/a.p5m'', Ok ''c/Makefile''],
     dev_read = \<lambda>_ p. Ok (if p = ''c/a.p5m'' then ''file path=x'' else ''file path=y''), dev_exists = \<lambda>_ _. False,
     dev_open = \<lambda>_ _. Ok (), dev_write = \<lambda>_ _ _. Ok ()\<rparr>"

theorem diff_component_output_witness:
  "\<exists>tr'. diff_component sample_dev_sys sample_parse sorted_list_of_fmap ''c'' None (Some ''out'') [] = Some (Ok (), tr')
     \<and> WriteLine ''out'' ''file path=y'' \<in> set tr' \<and> OpenOutput ''out'' \<in> set tr'"
proof -
  have eval: "diff_component sample_dev_sys sample_parse sorted_list_of_fmap ''c'' None (Some ''out'') [] =
      Some (Ok (), [ReadDir ''c'', ReadManifest ''c/a.p5m'', ReadManifest ''c/manifests/sample-manifest.p5m'',
        PrintLine ''file y is missing in the manifests'', PrintLine ''file path=x has been removed from the sample-manifest'',
        OpenOutput ''out'', WriteLine ''out'' ''file path=y''])"
    by code_simp
  from diff_component_output [OF eval] eval show ?thesis by auto
qed

end
