(* ===== verification/Pkg6dev_Main.thy ===== *)
theory Pkg6dev_Main
  imports Pkg6dev_Commands
begin

text \<open>
  The program \<^verbatim>\<open>pkg6dev\<close> (\<^verbatim>\<open>src/pkg6dev/src/main.rs\<close>): the command line as \<^verbatim>\<open>clap\<close> hands it over, and the
  dispatch to the two commands. What \<^verbatim>\<open>diff-component\<close> does is a property of \<open>Pkg6dev_Commands\<close>; here is what
  \<^verbatim>\<open>show-component\<close> prints, as a list of lines.
\<close>

datatype Commands_pkg6dev =
    DiffComponent (diff_path: string) (diff_replacements: "string list option") (diff_output: "string option")
  | ShowComponent (show_path: string)

record App =
  app_command :: Commands_pkg6dev

text \<open>The parameters are those of the two commands.\<close>

definition main_pkg6dev ::
  "dev_sys \<Rightarrow> manifest_parser \<Rightarrow> repl_entries \<Rightarrow> os_calls \<Rightarrow> makefile_parser \<Rightarrow> var_entries
     \<Rightarrow> (string \<Rightarrow> ('v, string) res) \<Rightarrow> (string \<Rightarrow> ('u, string) res) \<Rightarrow> (string \<Rightarrow> (string, 'e) res)
     \<Rightarrow> ('e \<Rightarrow> string) \<Rightarrow> (('v, 'u) Component \<Rightarrow> string) \<Rightarrow> nat \<Rightarrow> string \<Rightarrow> App \<Rightarrow> unit dev_io" where
  "main_pkg6dev S parse entries os mk_parse mk_entries semver_parse url_parse newest debug_error debug k cwd cli =
     (case app_command cli of
        ShowComponent component \<Rightarrow>
          show_component_info os mk_parse mk_entries semver_parse url_parse newest debug_error debug k cwd component
      | DiffComponent component replacements output_manifest \<Rightarrow>
          diff_component S parse entries component replacements output_manifest)"


section \<open>What \<^verbatim>\<open>show-component\<close> prints\<close>

text \<open>The line for a variable, if it is defined.\<close>

definition shown :: "nat \<Rightarrow> Makefile \<Rightarrow> string \<Rightarrow> (string \<Rightarrow> string list) \<Rightarrow> string list" where
  "shown k m name f = (case get k m name of Some (Some var) \<Rightarrow> f var | _ \<Rightarrow> [])"

definition latest_line :: "('e \<Rightarrow> string) \<Rightarrow> (string, 'e) res \<Rightarrow> string" where
  "latest_line debug_error r =
     (case r of
        Ok latest \<Rightarrow> ''Latest Version: '' @ latest
      | Err e \<Rightarrow> ''Error: Could not get latest version info: '' @ debug_error e
      | Panic x \<Rightarrow> [])"

definition component_lines :: "nat \<Rightarrow> Makefile \<Rightarrow> string \<Rightarrow> string \<Rightarrow> string list" where
  "component_lines k m latest debugged =
     shown k m ''COMPONENT_NAME'' (\<lambda>v. [''Name: '' @ indent v])
     @ shown k m ''COMPONENT_VERSION'' (\<lambda>v. [''Version: '' @ indent v, latest])
     @ shown k m ''BUILD_BITS'' (\<lambda>v. [''Build bits: '' @ indent v])
     @ shown k m ''COMPONENT_BUILD_ACTION'' (\<lambda>v. [''Build action: '' @ indent v])
     @ shown k m ''COMPONENT_PROJECT_URL'' (\<lambda>v. [''Project URl: '' @ indent v])
     @ shown k m ''COMPONENT_ARCHIVE_URL'' (\<lambda>v. [''Source URl: '' @ indent v])
     @ shown k m ''COMPONENT_ARCHIVE_HASH'' (\<lambda>v. [''Source Archive File Hash: '' @ indent v])
     @ shown k m ''REQUIRED_PACKAGES'' (\<lambda>v. [''Dependencies:'' @ [CHR 0x0A, CHR 0x09] @ indent v])
     @ shown k m ''COMPONENT_INSTALL_ACTION'' (\<lambda>v. [''Install Action:'' @ [CHR 0x0A, CHR 0x09] @ v])
     @ [''Component: '' @ debugged]"

lemma io_pure_bind_Ok:
  "io_bind (io_pure r) f tr = Some (Ok b, tr') \<longleftrightarrow> (\<exists>a. r = Some (Ok a) \<and> f a tr = Some (Ok b, tr'))"
  by (auto simp: io_bind_Ok io_pure_def)

lemma print_line_run [simp]: "print_line l tr = Some (Ok (), tr @ [PrintLine l])"
  by (simp add: rust_calls)

lemma show_var_Ok:
  assumes "show_var k m name f tr = Some (Ok u, tr')"
    and "\<And>var tr1. f var tr = Some (Ok (), tr1) \<Longrightarrow> tr1 = tr @ map PrintLine (t var)"
  shows "tr' = tr @ map PrintLine (shown k m name t)"
proof -
  obtain v where v: "get k m name = Some v" "(case v of Some var \<Rightarrow> f var | None \<Rightarrow> io_return ()) tr = Some (Ok (), tr')"
    using assms(1) by (auto simp: show_var_def io_pure_bind_Ok)
  then show ?thesis using assms(2) by (cases v) (simp_all add: shown_def)
qed

lemma show_line_Ok:
  "show_var k m name (\<lambda>var. print_line (t var)) tr = Some (Ok u, tr') \<Longrightarrow>
     tr' = tr @ map PrintLine (shown k m name (\<lambda>v. [t v]))"
  by (erule show_var_Ok) simp

text \<open>The name that the newest version is looked up under.\<close>

definition queried_name :: "nat \<Rightarrow> Makefile \<Rightarrow> string" where
  "queried_name k m =
     (case get k m ''COMPONENT_NAME'' of
        Some (Some _) \<Rightarrow>
          (case get_first_value k m ''COMPONENT_NAME'' :: (string option, dev_error) res option of
             Some (Ok (Some n)) \<Rightarrow> n
           | _ \<Rightarrow> [])
      | _ \<Rightarrow> [])"

lemma show_version_Ok:
  assumes "show_var k m name (\<lambda>var. io_bind (print_line (''Version: '' @ indent var)) (\<lambda>_.
      case newest of
        Ok latest \<Rightarrow> print_line (''Latest Version: '' @ latest)
      | Err e \<Rightarrow> print_line (''Error: Could not get latest version info: '' @ debug_error e)
      | Panic x \<Rightarrow> io_res (Panic x))) tr = Some (Ok u, tr')"
  shows "tr' = tr @ map PrintLine (shown k m name (\<lambda>v. [''Version: '' @ indent v, latest_line debug_error newest]))"
  using assms by (rule show_var_Ok) (auto simp: io_bind_Ok latest_line_def split: res.splits)

lemma show_makefile_Ok:
  assumes "show_makefile newest debug_error debug k m component tr = Some (Ok (), tr')"
  shows "tr' = tr @ map PrintLine (component_lines k m
    (latest_line debug_error (newest (queried_name k m))) (debug component))"
proof -
  have name: "f (queried_name k m) (tr @ map PrintLine (shown k m ''COMPONENT_NAME'' (\<lambda>v. [''Name: '' @ indent v])))
      = Some (Ok (), tr')"
    if "io_bind (io_pure (map_option Ok (get k m ''COMPONENT_NAME''))) (\<lambda>nm.
      io_bind (case nm of
          Some var \<Rightarrow>
            io_bind (print_line (''Name: '' @ indent var)) (\<lambda>_.
              io_bind (io_pure (get_first_value k m ''COMPONENT_NAME'')) (\<lambda>n.
                io_return (case n of Some component_name \<Rightarrow> component_name | None \<Rightarrow> [])))
        | None \<Rightarrow> io_return []) f) tr = Some (Ok (), tr')" for f :: "string \<Rightarrow> unit dev_io"
    using that
    by (auto simp: io_pure_bind_Ok io_bind_Ok io_pure_def queried_name_def shown_def split: option.splits)
  from name [OF assms [unfolded show_makefile_def]] show ?thesis
    unfolding io_bind_Ok component_lines_def
    by - (elim exE conjE, drule show_version_Ok, (drule show_line_Ok)+, simp)
qed

text \<open>
  C36: what \<^verbatim>\<open>show-component\<close> does when it succeeds. It reads the makefile of the component, follows its
  includes and reads the component from it; then it prints one line for every variable of a fixed list that is
  defined, in that order and with its references resolved, after the version the newest version known elsewhere or
  why it is not known, and last the component itself. It prints nothing else and writes nothing.
\<close>

theorem show_component_output:
  assumes "show_component_info os parse entries semver_parse url_parse newest debug_error debug k cwd cp tr
    = Some (Ok (), tr')"
  shows "\<exists>initial makefile more component.
    parse_single_file os parse cwd (path_join cp ''Makefile'') = Ok initial
    \<and> parse_all k os parse entries cwd initial = Some (Ok (makefile, more))
    \<and> new_from_makefile semver_parse url_parse k makefile = Some (Ok component)
    \<and> tr' = tr @ map PrintLine (component_lines k makefile
        (latest_line debug_error (newest (queried_name k makefile))) (debug component))"
  using assms
  by (fastforce simp: show_component_info_def Let_def io_bind_Ok io_pure_def dest!: show_makefile_Ok)


definition sample_component_text :: string where
  "sample_component_text = ''COMPONENT_VERSION=1.2'' @ [CHR 0x0A] @ ''COMPONENT_SRC=a'' @ [CHR 0x0A]
     @ ''COMPONENT_ARCHIVE_URL=b'' @ [CHR 0x0A]"

theorem show_component_output_witness:
  "\<exists>tr'. show_component_info (sample_os sample_component_text) sample_mk_parse sorted_list_of_fmap non_empty non_empty
       (\<lambda>_. Ok ''1.3'') id (\<lambda>_. ''debug'') 3 ''/'' ''c'' [] = Some (Ok (), tr')
     \<and> PrintLine ''Latest Version: 1.3'' \<in> set tr' \<and> last tr' = PrintLine ''Component: debug''"
proof -
  have eval: "show_component_info (sample_os sample_component_text) sample_mk_parse sorted_list_of_fmap non_empty non_empty
       (\<lambda>_. Ok ''1.3'') id (\<lambda>_. ''debug'') 3 ''/'' ''c'' [] =
     Some (Ok (), [PrintLine ''Version: 1.2'', PrintLine ''Latest Version: 1.3'', PrintLine ''Source URl: b'',
       PrintLine ''Component: debug''])"
    by code_simp
  from show_component_output [OF eval] eval show ?thesis by auto
qed

end
