(* ===== verification/Specfile_Parser.thy ===== *)
theory Specfile_Parser
  imports Pest_Reference
begin

text \<open>
  \<^verbatim>\<open>src/specfile/src/lib.rs\<close> and its grammar \<^verbatim>\<open>src/specfile/src/specfile.pest\<close>: reading an RPM spec file. The
  generated parser is a parameter. \<open>section_line\<close> counts the lines of a section in an \<^verbatim>\<open>i32\<close>; its increment
  panics on overflow, as in a build with overflow checks.
\<close>

section \<open>The grammar\<close>

datatype spec_rule =
    S_EOI | S_alpha | S_digit | S_uppercase | S_char | S_WHITESPACE | S_text | S_variable_name | S_variable_text
  | S_variable | S_empty_variable | S_multiline_variable | S_section_text | S_comment_line | S_section_line
  | S_section_name | S_section | S_file

fun spec_rule_ty :: "spec_rule \<Rightarrow> rule_ty" where
  "spec_rule_ty S_WHITESPACE = Silent"
| "spec_rule_ty S_file = Silent"
| "spec_rule_ty S_text = Atomic"
| "spec_rule_ty S_variable_name = Atomic"
| "spec_rule_ty S_variable_text = Atomic"
| "spec_rule_ty S_section_text = Atomic"
| "spec_rule_ty S_comment_line = Atomic"
| "spec_rule_ty S_section_name = Atomic"
| "spec_rule_ty _ = Normal"

fun spec_rule_body :: "spec_rule \<Rightarrow> spec_rule pexp" where
  "spec_rule_body S_EOI = Eoi"
| "spec_rule_body S_alpha = Alt (Cls (char_range (CHR ''a'') (CHR ''z''))) (Cls (char_range (CHR ''A'') (CHR ''Z'')))"
| "spec_rule_body S_digit = Cls (char_range (CHR ''0'') (CHR ''9''))"
| "spec_rule_body S_uppercase = Cls (char_range (CHR ''A'') (CHR ''Z''))"
| "spec_rule_body S_char = alts [Cls ascii_alphanumeric, Lit '','', Lit ''.'', Lit ''_'', Lit ''/'', Lit ''-'', Lit ''='',
     Lit ''>'', Lit ''<'', Lit ''!'', Lit [CHR 0x27], Lit ''#'', Lit '':'', Lit ''{'', Lit ''}'', Lit ''%'', Lit ''*'',
     Lit ''@'', Lit [CHR 0x22]]"
| "spec_rule_body S_WHITESPACE = Alt (Lit '' '') (Lit [CHR 0x09])"
| "spec_rule_body S_text = Alt (Plus (Rule S_char)) (Rule S_WHITESPACE)"
| "spec_rule_body S_variable_name = seqs [Rule S_uppercase, Plus (Rule S_alpha), Star (Rule S_digit)]"
| "spec_rule_body S_variable_text = Plus (Rule S_text)"
| "spec_rule_body S_variable = seqs [Rule S_variable_name, Lit '':'', Rule S_variable_text]"
| "spec_rule_body S_empty_variable = Seq (Rule S_variable_name) (Lit '':'')"
| "spec_rule_body S_multiline_variable =
     seqs [Rule S_variable_name, Lit '':'', Opt newline_exp, Plus (Seq (Rule S_text) newline_exp)]"
| "spec_rule_body S_section_text = Plus (Rule S_text)"
| "spec_rule_body S_comment_line = Seq (Lit ''#'') (Rule S_section_text)"
| "spec_rule_body S_section_line =
     Alt (Seq (Rule S_comment_line) newline_exp) (Seq (Rule S_section_text) newline_exp)"
| "spec_rule_body S_section_name = Plus (Alt (Cls ascii_alpha_lower) (Cls ascii_digit))"
| "spec_rule_body S_section =
     seqs [Lit ''%'', Rule S_section_name, newline_exp, Plus (Rule S_section_line)]"
| "spec_rule_body S_file =
     seqs [Soi,
       Plus (alts [Seq (Rule S_variable) (Plus newline_exp), Seq (Rule S_multiline_variable) (Plus newline_exp),
         Seq (Rule S_empty_variable) (Plus newline_exp), Rule S_section, newline_exp]),
       Eoi]"

definition spec_grammar :: "spec_rule grammar" where
  "spec_grammar = \<lparr>rule_ty = spec_rule_ty, rule_body = spec_rule_body, skip = Star (Rule S_WHITESPACE), eoi = S_EOI\<rparr>"

lemma spec_grammar_simps [simp]:
  "rule_ty spec_grammar = spec_rule_ty" "rule_body spec_grammar = spec_rule_body" "eoi spec_grammar = S_EOI"
  by (simp_all add: spec_grammar_def)

section \<open>Spec files\<close>

record SpecFile =
  spec_name :: string
  spec_version :: string
  spec_release :: string
  spec_summary :: string
  spec_license :: string
  spec_sources :: "string list"
  spec_variables :: "(string, string) HashMap"
  description :: string
  prep_script :: string
  build_script :: string
  install_script :: string
  spec_files :: "string list"
  changelog :: string

definition SpecFile_default :: SpecFile where
  "SpecFile_default = \<lparr>spec_name = [], spec_version = [], spec_release = [], spec_summary = [], spec_license = [],
     spec_sources = [], spec_variables = fmempty, description = [], prep_script = [], build_script = [],
     install_script = [], spec_files = [], changelog = []\<rparr>"

datatype KnownVariableControl = Control_Name | Control_Version | Control_Release | Control_Summary | Control_License | Control_None

definition i32_succ :: "int \<Rightarrow> (int, 'e) res" where
  "i32_succ n = (if n = 2 ^ 31 - 1 then Panic ''attempt to add with overflow'' else Ok (n + 1))"

definition append_newline_string :: "string \<Rightarrow> int \<Rightarrow> string" where
  "append_newline_string s section_line = (if section_line = 0 then s else [CHR 0x0A] @ s)"

section \<open>Reading\<close>

text \<open>The loop over the parts of a variable: the state is \<open>var_control\<close>, \<open>var_name_tmp\<close> and the spec file.\<close>

definition spec_variable_part ::
  "spec_rule pair \<Rightarrow> KnownVariableControl \<times> string \<times> SpecFile \<Rightarrow> KnownVariableControl \<times> string \<times> SpecFile" where
  "spec_variable_part p st =
     (let (control, tmp, spec) = st in
      case as_rule p of
        S_variable_name \<Rightarrow>
          (if as_str p = ''Name'' then (Control_Name, tmp, spec)
           else if as_str p = ''Version'' then (Control_Version, tmp, spec)
           else if as_str p = ''Release'' then (Control_Release, tmp, spec)
           else if as_str p = ''Summary'' then (Control_Summary, tmp, spec)
           else if as_str p = ''License'' then (Control_License, tmp, spec)
           else (Control_None, as_str p, spec))
      | S_variable_text \<Rightarrow>
          (case control of
             Control_Name \<Rightarrow> (control, tmp, spec\<lparr>spec_name := as_str p\<rparr>)
           | Control_Version \<Rightarrow> (control, tmp, spec\<lparr>spec_version := as_str p\<rparr>)
           | Control_Release \<Rightarrow> (control, tmp, spec\<lparr>spec_release := as_str p\<rparr>)
           | Control_Summary \<Rightarrow> (control, tmp, spec\<lparr>spec_summary := as_str p\<rparr>)
           | Control_License \<Rightarrow> (control, tmp, spec\<lparr>spec_license := as_str p\<rparr>)
           | Control_None \<Rightarrow> (control, tmp, spec\<lparr>spec_variables := snd (hm_insert tmp (as_str p) (spec_variables spec))\<rparr>))
      | _ \<Rightarrow> (control, tmp, spec))"

text \<open>One text of a section line; the state is \<open>section_line\<close> and the spec file.\<close>

definition spec_section_text ::
  "string \<Rightarrow> spec_rule pair \<Rightarrow> int \<times> SpecFile \<Rightarrow> (int \<times> SpecFile, pest_error) res" where
  "spec_section_text section_name p st =
     (let (n, spec) = st; line = append_newline_string (as_str p) n in
      if as_rule p = S_section_text then
        (if section_name = ''description'' then
           map_res (\<lambda>n'. (n', spec\<lparr>description := description spec @ line\<rparr>)) (i32_succ n)
         else if section_name = ''prep'' then
           map_res (\<lambda>n'. (n', spec\<lparr>prep_script := prep_script spec @ line\<rparr>)) (i32_succ n)
         else if section_name = ''build'' then
           map_res (\<lambda>n'. (n', spec\<lparr>build_script := build_script spec @ line\<rparr>)) (i32_succ n)
         else if section_name = ''files'' then
           Ok (n, spec\<lparr>spec_files := spec_files spec @ [str_trim_end (as_str p)]\<rparr>)
         else if section_name = ''install'' then
           map_res (\<lambda>n'. (n', spec\<lparr>install_script := install_script spec @ line\<rparr>)) (i32_succ n)
         else if section_name = ''changelog'' then
           map_res (\<lambda>n'. (n', spec\<lparr>changelog := changelog spec @ line\<rparr>)) (i32_succ n)
         else Panic ''Unknown Section'')
      else Ok (n, spec))"

text \<open>One part of a section; the state is \<open>section_name_tmp\<close>, \<open>section_line\<close> and the spec file.\<close>

definition spec_section_part ::
  "spec_rule pair \<Rightarrow> string \<times> int \<times> SpecFile \<Rightarrow> (string \<times> int \<times> SpecFile, pest_error) res" where
  "spec_section_part p st =
     (let (tmp, n, spec) = st in
      case as_rule p of
        S_section_name \<Rightarrow> Ok (as_str p, n, spec)
      | S_section_line \<Rightarrow> map_res (\<lambda>st. (tmp, st)) (fold_res (spec_section_text tmp) (into_inner p) (n, spec))
      | _ \<Rightarrow> Panic ''Rule not known please update the code'')"

definition spec_pair :: "spec_rule pair \<Rightarrow> SpecFile \<Rightarrow> (SpecFile, pest_error) res" where
  "spec_pair p spec =
     (case as_rule p of
        S_variable \<Rightarrow> Ok (snd (snd (fold spec_variable_part (into_inner p) (Control_None, [], spec))))
      | S_section \<Rightarrow> map_res (\<lambda>st. snd (snd st)) (fold_res spec_section_part (into_inner p) ([], 0, spec))
      | S_EOI \<Rightarrow> Ok spec
      | _ \<Rightarrow> Panic ''Rule not known please update the code'')"

definition spec_parse ::
  "(spec_rule \<Rightarrow> string \<Rightarrow> (spec_rule pair list, pest_error) res) \<Rightarrow> string \<Rightarrow> (SpecFile, pest_error) res" where
  "spec_parse parse file_contents =
     res_bind (parse S_file file_contents) (\<lambda>pairs. fold_res spec_pair pairs SpecFile_default)"

section \<open>What the tree says\<close>

definition section_lines :: "spec_rule pair \<Rightarrow> string list" where
  "section_lines p = concat (map (\<lambda>l. map as_str (filter (\<lambda>t. as_rule t = S_section_text) (into_inner l)))
     (filter (\<lambda>l. as_rule l = S_section_line) (into_inner p)))"

text \<open>The variables and the sections of a spec file, in order.\<close>

definition spec_assignments :: "spec_rule pair list \<Rightarrow> (string \<times> string) list" where
  "spec_assignments ps = map (\<lambda>p. (pair_text S_variable_name (into_inner p), pair_text S_variable_text (into_inner p)))
     (filter (\<lambda>p. as_rule p = S_variable) ps)"

definition spec_sections :: "spec_rule pair list \<Rightarrow> (string \<times> string list) list" where
  "spec_sections ps = map (\<lambda>p. (pair_text S_section_name (into_inner p), section_lines p))
     (filter (\<lambda>p. as_rule p = S_section) ps)"

definition value_of :: "(string \<times> string) list \<Rightarrow> string \<Rightarrow> string" where
  "value_of vs k = (case map_of (rev vs) k of Some v \<Rightarrow> v | None \<Rightarrow> [])"

definition texts_of :: "(string \<times> string list) list \<Rightarrow> string \<Rightarrow> string list list" where
  "texts_of ss k = map snd (filter (\<lambda>s. fst s = k) ss)"

abbreviation known_variables :: "string list" where
  "known_variables \<equiv> [''Name'', ''Version'', ''Release'', ''Summary'', ''License'']"

abbreviation known_sections :: "string list" where
  "known_sections \<equiv> [''description'', ''prep'', ''build'', ''files'', ''install'', ''changelog'']"

definition script_of :: "(string \<times> string list) list \<Rightarrow> string \<Rightarrow> string" where
  "script_of ss k = concat (map (str_join [CHR 0x0A]) (texts_of ss k))"

text \<open>The spec file that assignments \<open>vs\<close> and sections \<open>ss\<close> make up.\<close>

definition spec_fields :: "(string \<times> string) list \<Rightarrow> (string \<times> string list) list \<Rightarrow> SpecFile" where
  "spec_fields vs ss =
     \<lparr>spec_name = value_of vs ''Name'', spec_version = value_of vs ''Version'', spec_release = value_of vs ''Release'',
      spec_summary = value_of vs ''Summary'', spec_license = value_of vs ''License'', spec_sources = [],
      spec_variables = hm_collect (filter (\<lambda>v. fst v \<notin> set known_variables) vs),
      description = script_of ss ''description'', prep_script = script_of ss ''prep'',
      build_script = script_of ss ''build'', install_script = script_of ss ''install'',
      spec_files = concat (map (map str_trim_end) (texts_of ss ''files'')), changelog = script_of ss ''changelog''\<rparr>"

definition spec_of :: "spec_rule pair list \<Rightarrow> SpecFile" where
  "spec_of ps = spec_fields (spec_assignments ps) (spec_sections ps)"

text \<open>A pair \<open>spec_parse\<close> can handle.\<close>

definition readable :: "spec_rule pair \<Rightarrow> bool" where
  "readable p \<longleftrightarrow> as_rule p = S_variable \<or> as_rule p = S_EOI
     \<or> as_rule p = S_section \<and> (pair_text S_section_name (into_inner p) \<in> set known_sections \<or> section_lines p = [])"

section \<open>Lemmas\<close>

lemma newline_no_pairs: "derives g at newline_exp s ts \<Longrightarrow> ts = []"
  by (auto elim!: derives_elims)

lemma variable_children:
  assumes "wf_pair spec_grammar p" and "as_rule p = S_variable"
  shows "\<exists>n t. into_inner p = [Pair S_variable_name n [], Pair S_variable_text t []]"
  using assms by (cases p) (auto elim!: derives_SeqE derives_RuleE derives_LitE)

lemma section_line_children:
  assumes "wf_pair spec_grammar p" and "as_rule p = S_section_line"
  shows "\<exists>t. into_inner p = [Pair S_comment_line t []] \<or> into_inner p = [Pair S_section_text t []]"
  using assms by (cases p) (auto elim!: derives_AltE derives_SeqE derives_RuleE derives_LitE)

lemma section_children:
  assumes "wf_pair spec_grammar p" and "as_rule p = S_section"
  shows "\<exists>n ls. into_inner p = Pair S_section_name n [] # ls
    \<and> (\<forall>l \<in> set ls. as_rule l = S_section_line \<and> wf_pair spec_grammar l)"
proof -
  obtain s ts where p: "p = Pair S_section s ts" using assms(2) by (cases p) auto
  with assms(1) have "derives spec_grammar False (spec_rule_body S_section) s ts" by auto
  then obtain s1 t1 s2 t2 s3 t3 s4 t4 where n: "derives spec_grammar False (Rule S_section_name) s1 t1"
    and nl: "derives spec_grammar False newline_exp s2 t2"
    and l: "derives spec_grammar False (Rule S_section_line) s3 t3"
    and ls: "derives spec_grammar False (Star (Rule S_section_line)) s4 t4" and ts: "ts = t1 @ t2 @ t3 @ t4"
    by (auto elim!: derives_SeqE derives_LitE)
  from n obtain nm where "t1 = [Pair S_section_name nm []]" by (auto elim!: derives_RuleE)
  moreover have "as_rule q = S_section_line \<and> wf_pair spec_grammar q" if "q \<in> set (t3 @ t4)" for q
    using derives_emits [OF l, of q] derives_emits [OF ls, of q] that by (auto simp: may_emit_simps)
  ultimately show ?thesis using newline_no_pairs [OF nl] ts p by simp
qed

text \<open>A section of a known name, line by line.\<close>

definition add_lines :: "string \<Rightarrow> string \<Rightarrow> string list \<Rightarrow> SpecFile \<Rightarrow> SpecFile" where
  "add_lines nm text fs spec =
     (if nm = ''description'' then spec\<lparr>description := description spec @ text\<rparr>
      else if nm = ''prep'' then spec\<lparr>prep_script := prep_script spec @ text\<rparr>
      else if nm = ''build'' then spec\<lparr>build_script := build_script spec @ text\<rparr>
      else if nm = ''files'' then spec\<lparr>spec_files := spec_files spec @ fs\<rparr>
      else if nm = ''install'' then spec\<lparr>install_script := install_script spec @ text\<rparr>
      else if nm = ''changelog'' then spec\<lparr>changelog := changelog spec @ text\<rparr> else spec)"

lemma add_lines_Nil [simp]: "add_lines nm [] [] spec = spec"
  by (simp add: add_lines_def)

lemma section_text_step:
  assumes "nm \<in> set known_sections" and "n < 2 ^ 31 - 1" and "as_rule p = S_section_text"
  shows "spec_section_text nm p (n, spec) =
    Ok (if nm = ''files'' then n else n + 1,
        add_lines nm (append_newline_string (as_str p) n) [str_trim_end (as_str p)] spec)"
  using assms by (auto simp: spec_section_text_def i32_succ_def add_lines_def)

lemma add_lines_add: "add_lines nm t' fs' (add_lines nm t fs spec) = add_lines nm (t @ t') (fs @ fs') spec"
  by (simp add: add_lines_def)

text \<open>The text that lines add to a script when \<open>n\<close> lines of the section went before.\<close>

definition glue :: "int \<Rightarrow> string list \<Rightarrow> string" where
  "glue n ts = (if n = 0 then str_join [CHR 0x0A] ts else concat (map (Cons (CHR 0x0A)) ts))"

lemma str_join_nl_Cons: "str_join [CHR 0x0A] (t # ts) = t @ concat (map (Cons (CHR 0x0A)) ts)"
  by (induction ts arbitrary: t) simp_all

lemma glue_simps:
  "glue n [] = []" "0 \<le> n \<Longrightarrow> glue n (t # ts) = append_newline_string t n @ glue (n + 1) ts"
  by (simp_all add: glue_def append_newline_string_def str_join_nl_Cons)

lemma add_lines_files: "add_lines ''files'' t fs spec = add_lines ''files'' t' fs spec"
  by (simp add: add_lines_def)

text \<open>The texts of the lines, comments left out.\<close>

definition line_texts :: "spec_rule pair list \<Rightarrow> string list" where
  "line_texts ls = concat (map (\<lambda>l. map as_str (filter (\<lambda>t. as_rule t = S_section_text) (into_inner l))) ls)"

lemma line_texts_Cons:
  assumes "wf_pair spec_grammar l" and "as_rule l = S_section_line"
  obtains (comment) t where "into_inner l = [Pair S_comment_line t []]" "line_texts (l # ls) = line_texts ls"
  | (line) t where "into_inner l = [Pair S_section_text t []]" "line_texts (l # ls) = t # line_texts ls"
  using section_line_children [OF assms] by (auto simp: line_texts_def)

lemma section_lines_run:
  assumes "nm \<in> set known_sections" and "\<forall>l \<in> set ls. as_rule l = S_section_line \<and> wf_pair spec_grammar l"
    and "0 \<le> n" and "n + int (length (line_texts ls)) < 2 ^ 31"
  shows "\<exists>n'. fold_res spec_section_part ls (nm, n, spec) =
    Ok (nm, n', add_lines nm (glue n (line_texts ls)) (map str_trim_end (line_texts ls)) spec)"
  using assms(2-4)
proof (induction ls arbitrary: n spec)
  case Nil
  then show ?case by (simp add: line_texts_def glue_simps)
next
  case (Cons l ls)
  then have l: "as_rule l = S_section_line" "wf_pair spec_grammar l" by simp_all
  from l(2,1) show ?case
  proof (cases rule: line_texts_Cons [where ls = ls])
    case (comment t)
    then show ?thesis
      using Cons l by (simp add: spec_section_part_def [of l] spec_section_text_def)
  next
    case (line t)
    define n1 where "n1 = (if nm = ''files'' then n else n + 1)"
    have n: "n < 2 ^ 31 - 1" using Cons.prems(3) line(2) by simp
    have step: "spec_section_part l (nm, n, spec) =
        Ok (nm, n1, add_lines nm (append_newline_string t n) [str_trim_end t] spec)"
      using line(1) l section_text_step [OF assms(1) n, of "Pair S_section_text t []"]
      by (simp add: spec_section_part_def [of l] n1_def)
    obtain n' where n': "fold_res spec_section_part ls (nm, n1, add_lines nm (append_newline_string t n) [str_trim_end t] spec) =
        Ok (nm, n', add_lines nm (glue n1 (line_texts ls)) (map str_trim_end (line_texts ls))
          (add_lines nm (append_newline_string t n) [str_trim_end t] spec))"
      using Cons.IH [of n1] Cons.prems line(2) by (force simp: n1_def split: if_splits)
    have "add_lines nm (append_newline_string t n @ glue n1 (line_texts ls)) (map str_trim_end (t # line_texts ls)) spec =
        add_lines nm (glue n (t # line_texts ls)) (map str_trim_end (t # line_texts ls)) spec"
      using add_lines_files Cons.prems(2) by (auto simp: n1_def glue_simps)
    then show ?thesis using step n' by (simp add: add_lines_add line(2))
  qed
qed

lemma section_lines_unknown:
  assumes "nm \<notin> set known_sections" and "\<forall>l \<in> set ls. as_rule l = S_section_line \<and> wf_pair spec_grammar l"
  shows "fold_res spec_section_part ls (nm, n, spec) =
    (if line_texts ls = [] then Ok (nm, n, spec) else Panic ''Unknown Section'')"
  using assms(2)
proof (induction ls arbitrary: n spec)
  case Nil
  then show ?case by (simp add: line_texts_def)
next
  case (Cons l ls)
  then have l: "as_rule l = S_section_line" "wf_pair spec_grammar l" by simp_all
  from l(2,1) show ?case
  proof (cases rule: line_texts_Cons [where ls = ls])
    case (comment t)
    then show ?thesis
      using Cons l by (simp add: spec_section_part_def [of l] spec_section_text_def)
  next
    case (line t)
    then show ?thesis
      using assms(1) l by (simp add: spec_section_part_def [of l] spec_section_text_def)
  qed
qed

lemma spec_pair_section:
  assumes "wf_pair spec_grammar p" and "as_rule p = S_section" and "length (section_lines p) < 2 ^ 31"
  shows "spec_pair p spec =
    (if readable p
     then Ok (add_lines (pair_text S_section_name (into_inner p)) (str_join [CHR 0x0A] (section_lines p))
       (map str_trim_end (section_lines p)) spec)
     else Panic ''Unknown Section'')"
proof -
  obtain n ls where p: "into_inner p = Pair S_section_name n [] # ls"
    and ls: "\<forall>l \<in> set ls. as_rule l = S_section_line \<and> wf_pair spec_grammar l"
    using section_children [OF assms(1,2)] by blast
  have "filter (\<lambda>t. as_rule t = S_section_name) ls = []" "filter (\<lambda>l. as_rule l = S_section_line) ls = ls"
    using ls by (auto simp: filter_empty_conv filter_id_conv)
  then have nm: "pair_text S_section_name (into_inner p) = n" and lines: "section_lines p = line_texts ls"
    by (simp_all add: p pair_text_def section_lines_def line_texts_def)
  have run: "spec_pair p spec = map_res (\<lambda>st. snd (snd st)) (fold_res spec_section_part ls (n, 0, spec))"
    using assms(2) by (simp add: spec_pair_def p spec_section_part_def)
  show ?thesis
  proof (cases "n \<in> set known_sections")
    case True
    have "0 + int (length (line_texts ls)) < 2 ^ 31" using assms(3) lines by simp
    from section_lines_run [OF True ls _ this, of spec] True assms(2) show ?thesis
      by (auto simp: run nm lines readable_def glue_def)
  next
    case False
    with section_lines_unknown [OF False ls, of 0 spec] assms(2) show ?thesis
      by (auto simp: run nm lines readable_def)
  qed
qed

definition set_variable :: "string \<Rightarrow> string \<Rightarrow> SpecFile \<Rightarrow> SpecFile" where
  "set_variable n t spec =
     (if n = ''Name'' then spec\<lparr>spec_name := t\<rparr> else if n = ''Version'' then spec\<lparr>spec_version := t\<rparr>
      else if n = ''Release'' then spec\<lparr>spec_release := t\<rparr> else if n = ''Summary'' then spec\<lparr>spec_summary := t\<rparr>
      else if n = ''License'' then spec\<lparr>spec_license := t\<rparr> else spec\<lparr>spec_variables := fmupd n t (spec_variables spec)\<rparr>)"

lemma spec_pair_variable:
  assumes "wf_pair spec_grammar p" and "as_rule p = S_variable"
  shows "spec_pair p spec = Ok (set_variable (pair_text S_variable_name (into_inner p))
    (pair_text S_variable_text (into_inner p)) spec)"
proof -
  obtain n t where p: "into_inner p = [Pair S_variable_name n [], Pair S_variable_text t []]"
    using variable_children [OF assms] by blast
  then have "pair_text S_variable_name (into_inner p) = n" "pair_text S_variable_text (into_inner p) = t"
    by (simp_all add: pair_text_def)
  then show ?thesis
    using assms(2) by (simp add: p spec_pair_def spec_variable_part_def set_variable_def hm_insert_def)
qed

lemma spec_pair_unreadable:
  assumes "wf_pair spec_grammar p" and "\<not> readable p" and "length (section_lines p) < 2 ^ 31"
  shows "is_panic (spec_pair p spec)"
  using assms spec_pair_section [OF assms(1) _ assms(3), of spec]
  by (cases "as_rule p") (auto simp: readable_def spec_pair_def)

lemma value_of_snoc: "value_of (vs @ [(n, t)]) k = (if n = k then t else value_of vs k)"
  by (simp add: value_of_def)

lemma script_of_snoc: "script_of (ss @ [(n, ls)]) k = script_of ss k @ (if n = k then str_join [CHR 0x0A] ls else [])"
  by (simp add: script_of_def texts_of_def)

lemma texts_of_snoc: "texts_of (ss @ [(n, ls)]) k = texts_of ss k @ (if n = k then [ls] else [])"
  by (simp add: texts_of_def)

lemma hm_collect_snoc: "hm_collect (xs @ [(k, v)]) = fmupd k v (hm_collect xs)"
  by (simp add: hm_collect_def)

lemma spec_of_snoc:
  assumes "wf_pair spec_grammar p" and "readable p" and "length (section_lines p) < 2 ^ 31"
  shows "spec_pair p (spec_of ps) = Ok (spec_of (ps @ [p]))"
proof -
  consider "as_rule p = S_variable" | "as_rule p = S_section" | "as_rule p = S_EOI"
    using assms(2) by (auto simp: readable_def)
  then show ?thesis
  proof cases
    case 1
    then have "spec_assignments (ps @ [p]) = spec_assignments ps @
        [(pair_text S_variable_name (into_inner p), pair_text S_variable_text (into_inner p))]"
      "spec_sections (ps @ [p]) = spec_sections ps" by (simp_all add: spec_assignments_def spec_sections_def)
    then show ?thesis
      by (simp add: spec_pair_variable [OF assms(1) 1] spec_of_def spec_fields_def value_of_snoc hm_collect_snoc set_variable_def)
  next
    case 2
    then have "spec_assignments (ps @ [p]) = spec_assignments ps"
      "spec_sections (ps @ [p]) = spec_sections ps @ [(pair_text S_section_name (into_inner p), section_lines p)]"
      by (simp_all add: spec_assignments_def spec_sections_def)
    then show ?thesis
      using assms(2)
      by (simp add: spec_pair_section [OF assms(1) 2 assms(3)] spec_of_def spec_fields_def script_of_snoc texts_of_snoc add_lines_def)
  next
    case 3
    then show ?thesis
      by (simp add: spec_pair_def spec_of_def spec_assignments_def spec_sections_def)
  qed
qed

lemma spec_pairs:
  assumes "\<And>p. p \<in> set ps \<Longrightarrow> wf_pair spec_grammar p \<and> length (section_lines p) < 2 ^ 31"
  shows "if list_all readable ps then fold_res spec_pair ps SpecFile_default = Ok (spec_of ps)
    else is_panic (fold_res spec_pair ps SpecFile_default)"
  using assms
proof (induction ps rule: rev_induct)
  case Nil
  then show ?case
    by (simp add: spec_of_def spec_fields_def SpecFile_default_def value_of_def script_of_def texts_of_def spec_assignments_def
        spec_sections_def hm_collect_def)
next
  case (snoc p ps)
  show ?case
  proof (cases "list_all readable ps")
    case True
    with snoc have "fold_res spec_pair ps SpecFile_default = Ok (spec_of ps)" by simp
    with True snoc.prems [of p] show ?thesis
      using spec_of_snoc [of p ps] spec_pair_unreadable [of p "spec_of ps"]
      by (auto simp: fold_res_append list_all_append is_panic_bind)
  next
    case False
    with snoc have "is_panic (fold_res spec_pair ps SpecFile_default)" by simp
    with False show ?thesis by (auto simp: fold_res_append list_all_append is_panic_bind)
  qed
qed

lemma file_pairs:
  assumes "pest_parser spec_grammar parse" and "parse S_file c = Ok ps" and "p \<in> set ps"
  shows "wf_pair spec_grammar p \<and> as_rule p \<in> {S_variable, S_multiline_variable, S_empty_variable, S_section, S_EOI}"
  using pest_parser.parse_pairs [OF assms] by (auto simp: may_emit_simps)

lemma parsed_pairs:
  assumes "pest_parser spec_grammar parse" and "parse S_file c = Ok ps"
    and "\<forall>(n, ls) \<in> set (spec_sections ps). length ls < 2 ^ 31"
  shows "if list_all readable ps then spec_parse parse c = Ok (spec_of ps) else is_panic (spec_parse parse c)"
proof -
  have lines: "length (section_lines p) < 2 ^ 31" if "p \<in> set ps" for p
  proof (cases "as_rule p = S_section")
    case True
    with that assms(3) show ?thesis by (auto simp: spec_sections_def)
  next
    case False
    have p: "wf_pair spec_grammar p" "as_rule p \<in> {S_variable, S_multiline_variable, S_empty_variable, S_EOI}"
      using file_pairs [OF assms(1,2) that] False by auto
    have "as_rule l \<noteq> S_section_line" if l: "l \<in> set (into_inner p)" for l
    proof
      assume "as_rule l = S_section_line"
      moreover have "may_emit spec_grammar (spec_rule_body (as_rule p)) (as_rule l)"
        using p(1) l derives_emits [of spec_grammar False _ _ _ l] by (cases p) auto
      ultimately show False using p(2) by (auto simp: may_emit_simps)
    qed
    then have "filter (\<lambda>l. as_rule l = S_section_line) (into_inner p) = []"
      by (auto simp: filter_empty_conv)
    then show ?thesis by (simp add: section_lines_def)
  qed
  with spec_pairs [of ps] file_pairs [OF assms(1,2)] show ?thesis
    by (simp add: spec_parse_def assms(2))
qed

section \<open>Properties\<close>

text \<open>
  C7: reading a spec file. When the tree has only variables and sections of the six known names (or
  sections without text), \<^verbatim>\<open>parse\<close> returns what the tree says: the five known variables by their last value, all
  others in the map, each script as its lines joined by line feeds without the comment lines (sections of the
  same name follow each other without a separator), the lines of \<^verbatim>\<open>%files\<close> trimmed, and \<^verbatim>\<open>sources\<close> always empty.
\<close>

theorem spec_parse_refines:
  assumes "pest_parser spec_grammar parse" and "parse S_file c = Ok ps" and "list_all readable ps"
    and "\<forall>(n, ls) \<in> set (spec_sections ps). length ls < 2 ^ 31"
  shows "spec_parse parse c = Ok (spec_of ps)"
  using parsed_pairs [OF assms(1,2,4)] assms(3) by simp

definition sample_spec :: string where
  "sample_spec = ''Name: x'' @ [CHR 0x0A] @ ''%prep'' @ [CHR 0x0A] @ ''a'' @ [CHR 0x0A] @ ''b'' @ [CHR 0x0A]"

definition sample_spec_parse :: "spec_rule \<Rightarrow> string \<Rightarrow> (spec_rule pair list, pest_error) res" where
  "sample_spec_parse = peg_parse spec_grammar"

lemma sample_spec_contract: "pest_parser spec_grammar sample_spec_parse"
  unfolding sample_spec_parse_def by (rule ref_parser.pest_parser_axioms)

lemma sample_spec_eval:
  "(case sample_spec_parse S_file sample_spec of
      Ok ps \<Rightarrow> Some (list_all readable ps, spec_sections ps, spec_name (spec_of ps), prep_script (spec_of ps)) | _ \<Rightarrow> None) =
    Some (True, [(''prep'', [''a'', ''b''])], ''x'', ''a'' @ [CHR 0x0A] @ ''b'')"
  by code_simp

theorem spec_parse_refines_witness:
  "\<exists>spec. spec_parse sample_spec_parse sample_spec = Ok spec \<and> spec_name spec = ''x''
     \<and> prep_script spec = ''a'' @ [CHR 0x0A] @ ''b''"
proof -
  from sample_spec_eval obtain ps where ps: "sample_spec_parse S_file sample_spec = Ok ps" "list_all readable ps"
    and ss: "spec_sections ps = [(''prep'', [''a'', ''b''])]"
    and fields: "spec_name (spec_of ps) = ''x''" "prep_script (spec_of ps) = ''a'' @ [CHR 0x0A] @ ''b''"
    by (auto split: res.splits)
  have "\<forall>(n, ls) \<in> set (spec_sections ps). length ls < 2 ^ 31" by (simp add: ss)
  from spec_parse_refines [OF sample_spec_contract ps this] fields show ?thesis by simp
qed

text \<open>
  C16: exactly when reading a spec file panics (for sections of fewer than \<open>2\<^sup>31\<close> lines): the grammar accepts
  a variable without text (\<^verbatim>\<open>empty_variable\<close>) or over several lines (\<^verbatim>\<open>multiline_variable\<close>), which \<^verbatim>\<open>parse\<close> does not
  handle, or a section of an unknown name with at least one line that is not a comment.
\<close>

theorem spec_parse_panics:
  assumes "pest_parser spec_grammar parse" and "parse S_file c = Ok ps"
    and "\<forall>(n, ls) \<in> set (spec_sections ps). length ls < 2 ^ 31"
  shows "is_panic (spec_parse parse c) \<longleftrightarrow>
    list_ex (\<lambda>p. as_rule p = S_empty_variable \<or> as_rule p = S_multiline_variable
      \<or> as_rule p = S_section \<and> section_lines p \<noteq> []
        \<and> pair_text S_section_name (into_inner p) \<notin> set known_sections) ps"
proof -
  have "readable p \<longleftrightarrow> \<not> (as_rule p = S_empty_variable \<or> as_rule p = S_multiline_variable
      \<or> as_rule p = S_section \<and> section_lines p \<noteq> [] \<and> pair_text S_section_name (into_inner p) \<notin> set known_sections)"
    if "p \<in> set ps" for p
    using file_pairs [OF assms(1,2) that] by (auto simp: readable_def)
  then show ?thesis
    using parsed_pairs [OF assms] by (auto simp: list_ex_iff list_all_iff split: if_splits)
qed

theorem spec_parse_panics_witness:
  "is_panic (spec_parse sample_spec_parse (''Url:'' @ [CHR 0x0A]))"
proof -
  have eval: "(case sample_spec_parse S_file (''Url:'' @ [CHR 0x0A]) of
      Ok ps \<Rightarrow> Some (map as_rule ps, spec_sections ps) | _ \<Rightarrow> None) = Some ([S_empty_variable, S_EOI], [])"
    by code_simp
  then obtain ps where ps: "sample_spec_parse S_file (''Url:'' @ [CHR 0x0A]) = Ok ps"
    by (auto split: res.splits)
  with eval have "map as_rule ps = [S_empty_variable, S_EOI]" "spec_sections ps = []" by simp_all
  then show ?thesis using spec_parse_panics [OF sample_spec_contract ps] by auto
qed

end
