(* ===== verification/Specfile_Macros.thy ===== *)
theory Specfile_Macros
  imports Pest_Reference
begin

text \<open>
  \<^verbatim>\<open>src/specfile/src/macros.rs\<close> and its grammar \<^verbatim>\<open>src/specfile/src/macro.pest\<close>: replacing the macros of a script,
  line by line. The generated parser is a parameter; the line the code prints for a macro parameter is left out.
\<close>

section \<open>The grammar\<close>

datatype macro_rule =
    Q_EOI | Q_WHITESPACE | Q_char | Q_text | Q_env_variable_char | Q_macro_parameter | Q_macro_name
  | Q_macro_parameters | Q_spec_macro_without_parameters | Q_spec_macro_with_parameters | Q_spec_macro
  | Q_spec_optional_macro | Q_function | Q_text_with_macros | Q_file | Q_env_variable

fun macro_rule_ty :: "macro_rule \<Rightarrow> rule_ty" where
  "macro_rule_ty Q_WHITESPACE = Silent"
| "macro_rule_ty Q_macro_parameters = Silent"
| "macro_rule_ty Q_spec_macro_without_parameters = Silent"
| "macro_rule_ty Q_spec_macro_with_parameters = Silent"
| "macro_rule_ty Q_text = Atomic"
| "macro_rule_ty Q_macro_parameter = Atomic"
| "macro_rule_ty Q_macro_name = Atomic"
| "macro_rule_ty Q_spec_optional_macro = Atomic"
| "macro_rule_ty Q_env_variable = Atomic"
| "macro_rule_ty _ = Normal"

fun macro_rule_body :: "macro_rule \<Rightarrow> macro_rule pexp" where
  "macro_rule_body Q_EOI = Eoi"
| "macro_rule_body Q_WHITESPACE = Alt (Lit '' '') (Lit [CHR 0x09])"
| "macro_rule_body Q_char = alts [Cls ascii_alphanumeric, Lit ''.'', Lit ''_'', Lit ''/'', Lit ''-'', Lit ''='', Lit ''>'',
     Lit ''<'', Lit ''!'', Lit [CHR 0x27], Lit ''#'', Lit [CHR 0x22]]"
| "macro_rule_body Q_text = alts [Plus (Rule Q_char), Rule Q_WHITESPACE, newline_exp]"
| "macro_rule_body Q_env_variable_char =
     Alt (Cls (char_range (CHR ''A'') (CHR ''Z''))) (Cls (char_range (CHR ''0'') (CHR ''9'')))"
| "macro_rule_body Q_macro_parameter = Plus (Rule Q_char)"
| "macro_rule_body Q_macro_name = Plus (Rule Q_char)"
| "macro_rule_body Q_macro_parameters = Star (Alt (Lit '','') (Rule Q_macro_parameter))"
| "macro_rule_body Q_spec_macro_without_parameters =
     Alt (seqs [Lit ''%{'', Rule Q_macro_name, Lit ''}'']) (Seq (Lit ''%'') (Rule Q_macro_name))"
| "macro_rule_body Q_spec_macro_with_parameters =
     Alt (seqs [Lit ''%{'', Rule Q_macro_name, Lit ''('', Rule Q_macro_parameters, Lit '')'', Lit ''}''])
         (seqs [Lit ''%'', Rule Q_macro_name, Lit ''('', Rule Q_macro_parameters, Lit '')''])"
| "macro_rule_body Q_spec_macro = Alt (Rule Q_spec_macro_with_parameters) (Rule Q_spec_macro_without_parameters)"
| "macro_rule_body Q_spec_optional_macro = seqs [Lit ''%{?'', Plus (Rule Q_char), Lit ''}'']"
| "macro_rule_body Q_function =
     seqs [Lit ''%('', Star (alts [Rule Q_spec_macro, Rule Q_spec_optional_macro, Rule Q_text]), Lit '')'']"
| "macro_rule_body Q_text_with_macros = alts [Rule Q_function, Rule Q_spec_macro, Rule Q_spec_optional_macro]"
| "macro_rule_body Q_file =
     seqs [Soi, Star (Rule Q_text), Plus (Alt (Rule Q_text) (Rule Q_text_with_macros)), Star (Rule Q_text), Eoi]"
| "macro_rule_body Q_env_variable = Seq (Lit ''$'') (Plus (Alt (Rule Q_env_variable_char) (Lit ''_'')))"

definition macro_grammar :: "macro_rule grammar" where
  "macro_grammar = \<lparr>rule_ty = macro_rule_ty, rule_body = macro_rule_body, skip = Star (Rule Q_WHITESPACE), eoi = Q_EOI\<rparr>"

lemma macro_grammar_simps [simp]:
  "rule_ty macro_grammar = macro_rule_ty" "rule_body macro_grammar = macro_rule_body" "eoi macro_grammar = Q_EOI"
  by (simp_all add: macro_grammar_def)

section \<open>Replacing\<close>

datatype macro_error = DoesNotExist string | MacroSyntax pest_error

record MacroParser =
  macros :: "(string, string) HashMap"

record Macro =
  m_name :: string
  m_parameters :: "string list"

definition get_variable :: "MacroParser \<Rightarrow> string \<Rightarrow> (string, macro_error) res" where
  "get_variable mp macro_name =
     (case fmlookup (macros mp) macro_name of Some v \<Rightarrow> Ok v | None \<Rightarrow> Err (DoesNotExist macro_name))"

text \<open>The three nested loops over the pairs of a line; the state is \<open>replaced_line\<close>.\<close>

definition macro_part :: "MacroParser \<Rightarrow> macro_rule pair \<Rightarrow> string \<Rightarrow> (string, macro_error) res" where
  "macro_part mp p line =
     (case as_rule p of
        Q_macro_name \<Rightarrow> map_res (\<lambda>v. line @ v) (get_variable mp (as_str p))
      | Q_macro_parameter \<Rightarrow> Ok line
      | _ \<Rightarrow> Panic ''Unexpected macro match please update the code together with the peg grammar'')"

definition macro_inner :: "MacroParser \<Rightarrow> macro_rule pair \<Rightarrow> string \<Rightarrow> (string, macro_error) res" where
  "macro_inner mp p line =
     (case as_rule p of
        Q_spec_macro \<Rightarrow> fold_res (macro_part mp) (into_inner p) line
      | _ \<Rightarrow> Panic ''Unexpected inner match please update the code together with the peg grammar'')"

definition macro_pair :: "MacroParser \<Rightarrow> macro_rule pair \<Rightarrow> string \<Rightarrow> (string, macro_error) res" where
  "macro_pair mp p line =
     (case as_rule p of
        Q_text_with_macros \<Rightarrow> fold_res (macro_inner mp) (into_inner p) line
      | Q_EOI \<Rightarrow> Ok line
      | Q_text \<Rightarrow> Ok (line @ as_str p @ '' '')
      | _ \<Rightarrow> Panic ''Unexpected match please update the code together with the peg grammar'')"

type_synonym macro_parser = "macro_rule \<Rightarrow> string \<Rightarrow> (macro_rule pair list, pest_error) res"

definition macro_line :: "macro_parser \<Rightarrow> MacroParser \<Rightarrow> string \<Rightarrow> (string, macro_error) res" where
  "macro_line parse mp line =
     res_bind (map_err MacroSyntax (parse Q_file line)) (\<lambda>pairs.
     res_bind (fold_res (\<lambda>p l. fold_res (macro_pair mp) (into_inner p) l) pairs []) (\<lambda>replaced_line.
       Ok (str_trim_end replaced_line)))"

text \<open>One turn of the loop over the numbered lines.\<close>

definition macro_line_step ::
  "macro_parser \<Rightarrow> MacroParser \<Rightarrow> nat \<times> string \<Rightarrow> string \<Rightarrow> (string, macro_error) res" where
  "macro_line_step parse mp il return_string =
     (let (i, line) = il in
      res_bind (macro_line parse mp line) (\<lambda>replaced_line.
        if i = 0 then Ok (return_string @ replaced_line)
        else Ok (return_string @ [CHR 0x0A] @ replaced_line)))"

definition macro_parse :: "macro_parser \<Rightarrow> MacroParser \<Rightarrow> string \<Rightarrow> (string, macro_error) res" where
  "macro_parse parse mp raw_string =
     fold_res (macro_line_step parse mp) (enumerate 0 (str_lines raw_string)) []"

section \<open>What the tree says\<close>

text \<open>A line is a sequence of words, names of macros, and constructs the code has no replacement for.\<close>

datatype piece = Word string | Use string | Unsupported

definition macro_pieces :: "macro_rule pair \<Rightarrow> piece list" where
  "macro_pieces p =
     (case as_rule p of
        Q_spec_macro \<Rightarrow> map (\<lambda>q. Use (as_str q)) (filter (\<lambda>q. as_rule q = Q_macro_name) (into_inner p))
      | _ \<Rightarrow> [Unsupported])"

definition pair_pieces :: "macro_rule pair \<Rightarrow> piece list" where
  "pair_pieces p =
     (case as_rule p of
        Q_text \<Rightarrow> [Word (as_str p)]
      | Q_text_with_macros \<Rightarrow> concat (map macro_pieces (into_inner p))
      | _ \<Rightarrow> [])"

definition line_pieces :: "macro_rule pair list \<Rightarrow> piece list" where
  "line_pieces ps = concat (map pair_pieces (concat (map into_inner ps)))"

text \<open>What stands for a piece, if anything does, and the outcome at the first piece nothing stands for.\<close>

fun piece_text :: "MacroParser \<Rightarrow> piece \<Rightarrow> string option" where
  "piece_text mp (Word s) = Some (s @ '' '')"
| "piece_text mp (Use n) = fmlookup (macros mp) n"
| "piece_text mp Unsupported = None"

definition replaced :: "MacroParser \<Rightarrow> piece list \<Rightarrow> string" where
  "replaced mp qs = concat (map (\<lambda>q. the (piece_text mp q)) qs)"

definition run_pieces :: "MacroParser \<Rightarrow> piece list \<Rightarrow> string \<Rightarrow> (string, macro_error) res" where
  "run_pieces mp qs line =
     (case find (\<lambda>q. piece_text mp q = None) qs of
        None \<Rightarrow> Ok (line @ replaced mp qs)
      | Some (Use n) \<Rightarrow> Err (DoesNotExist n)
      | Some _ \<Rightarrow> Panic ''Unexpected inner match please update the code together with the peg grammar'')"

section \<open>Lemmas\<close>

lemma run_pieces_simps [simp]:
  "run_pieces mp [] line = Ok line"
  "run_pieces mp (Word s # qs) line = run_pieces mp qs (line @ s @ '' '')"
  "run_pieces mp (Use n # qs) line =
     (case fmlookup (macros mp) n of Some v \<Rightarrow> run_pieces mp qs (line @ v) | None \<Rightarrow> Err (DoesNotExist n))"
  "run_pieces mp (Unsupported # qs) line =
     Panic ''Unexpected inner match please update the code together with the peg grammar''"
  by (auto simp: run_pieces_def replaced_def split: option.split piece.split)

lemma run_pieces_append: "run_pieces mp (qs @ rs) line = res_bind (run_pieces mp qs line) (run_pieces mp rs)"
proof (induction qs arbitrary: line)
  case (Cons q qs)
  then show ?case by (cases q) (auto split: option.split)
qed simp

text \<open>A loop whose body runs the pieces of one pair runs the pieces of all.\<close>

lemma fold_run_pieces:
  assumes "\<And>p line. p \<in> set ps \<Longrightarrow> f p line = run_pieces mp (pc p) line"
  shows "fold_res f ps line = run_pieces mp (concat (map pc ps)) line"
  using assms
proof (induction ps arbitrary: line)
  case (Cons p ps)
  then show ?case by (cases "run_pieces mp (pc p) line") (simp_all add: run_pieces_append)
qed simp

lemma concat_map_if: "concat (map (\<lambda>x. if P x then [f x] else []) xs) = map f (filter P xs)"
  by (induction xs) auto

lemma macro_emits:
  "may_emit macro_grammar (macro_rule_body Q_file) q \<longleftrightarrow> q \<in> {Q_text, Q_text_with_macros, Q_EOI}"
  "may_emit macro_grammar (macro_rule_body Q_spec_macro) q \<longleftrightarrow> q \<in> {Q_macro_name, Q_macro_parameter}"
  by (auto simp: may_emit_simps)

lemma macro_part_run:
  assumes "as_rule p \<in> {Q_macro_name, Q_macro_parameter}"
  shows "macro_part mp p line = run_pieces mp (if as_rule p = Q_macro_name then [Use (as_str p)] else []) line"
  using assms by (auto simp: macro_part_def get_variable_def split: option.split)

lemma macro_inner_run:
  assumes "wf_pair macro_grammar p"
  shows "macro_inner mp p line = run_pieces mp (macro_pieces p) line"
proof (cases "as_rule p = Q_spec_macro")
  case True
  have "as_rule q \<in> {Q_macro_name, Q_macro_parameter}" if "q \<in> set (into_inner p)" for q
    using wf_pair_child [OF assms _ that] True macro_emits(2) by simp
  then have "fold_res (macro_part mp) (into_inner p) line =
      run_pieces mp (concat (map (\<lambda>q. if as_rule q = Q_macro_name then [Use (as_str q)] else []) (into_inner p))) line"
    using macro_part_run by (intro fold_run_pieces) blast
  also have "concat (map (\<lambda>q. if as_rule q = Q_macro_name then [Use (as_str q)] else []) (into_inner p)) = macro_pieces p"
    using True by (simp add: macro_pieces_def concat_map_if)
  finally show ?thesis using True by (simp add: macro_inner_def)
qed (cases "as_rule p", simp_all add: macro_inner_def macro_pieces_def)

lemma macro_pair_run:
  assumes "wf_pair macro_grammar p" and "as_rule p \<in> {Q_text, Q_text_with_macros, Q_EOI}"
  shows "macro_pair mp p line = run_pieces mp (pair_pieces p) line"
proof (cases "as_rule p = Q_text_with_macros")
  case True
  have "wf_pair macro_grammar q" if "q \<in> set (into_inner p)" for q
    using wf_pair_child [OF assms(1) _ that] True by simp
  then have "fold_res (macro_inner mp) (into_inner p) line = run_pieces mp (concat (map macro_pieces (into_inner p))) line"
    by (intro fold_run_pieces macro_inner_run)
  with True show ?thesis by (simp add: macro_pair_def pair_pieces_def)
qed (use assms(2) in \<open>auto simp: macro_pair_def pair_pieces_def\<close>)

lemma macro_line_run:
  assumes "pest_parser macro_grammar parse" and "parse Q_file line = Ok ps"
  shows "macro_line parse mp line = map_res str_trim_end (run_pieces mp (line_pieces ps) [])"
proof -
  obtain t ts where ps: "ps = [Pair Q_file t ts]" and d: "derives macro_grammar False (macro_rule_body Q_file) t ts"
    using pest_parser.parse_normal_root [OF assms] by auto
  have "wf_pair macro_grammar q \<and> as_rule q \<in> {Q_text, Q_text_with_macros, Q_EOI}" if "q \<in> set ts" for q
    using derives_emits [OF d _ that] macro_emits(1) by simp
  then have "fold_res (macro_pair mp) ts [] = run_pieces mp (concat (map pair_pieces ts)) []"
    by (intro fold_run_pieces macro_pair_run) blast+
  then show ?thesis
    using assms(2) by (cases "run_pieces mp (concat (map pair_pieces ts)) []")
      (simp_all add: macro_line_def ps line_pieces_def)
qed

text \<open>The loop over numbered lines joins the outcomes by line feeds.\<close>

lemma macro_lines_join:
  assumes "\<And>l. l \<in> set ls \<Longrightarrow> macro_line parse mp l = Ok (out l)"
  shows "fold_res (macro_line_step parse mp) (enumerate n ls) acc =
    Ok (acc @ (if n = 0 then str_join [CHR 0x0A] (map out ls) else concat (map (\<lambda>l. CHR 0x0A # out l) ls)))"
  using assms
proof (induction ls arbitrary: n acc)
  case (Cons l ls)
  have "str_join [CHR 0x0A] (out l # map out ls) = out l @ concat (map (\<lambda>l. CHR 0x0A # out l) ls)"
    by (induction ls arbitrary: l) simp_all
  with Cons show ?case by (simp add: macro_line_step_def)
qed simp

lemma macro_lines_fail:
  assumes "list_all (\<lambda>l. \<exists>out. macro_line parse mp l = Ok out) pre" and "\<And>out. macro_line parse mp l \<noteq> Ok out"
  shows "fold_res (macro_line_step parse mp) (enumerate n (pre @ l # post)) acc = macro_line parse mp l"
  using assms(1)
proof (induction pre arbitrary: n acc)
  case Nil
  then show ?case using assms(2) by (cases "macro_line parse mp l") (auto simp: macro_line_step_def)
next
  case (Cons x pre)
  then show ?case by (auto simp: macro_line_step_def)
qed

section \<open>Properties\<close>

text \<open>
  C11: replacing the macros of one line, for every parser of the grammar. Each word of the line is kept with
  one space after it, each macro \<^verbatim>\<open>%name\<close> or \<^verbatim>\<open>%{name}\<close> is replaced by its definition, and white space at the end
  is dropped. If something in the line has no replacement, the first such thing decides: an undefined macro gives
  the error \<^verbatim>\<open>DoesNotExist\<close> with its name, a \<^verbatim>\<open>%(...)\<close> function or an optional macro \<^verbatim>\<open>%{?...}\<close> makes the code panic.
\<close>

theorem macro_line_refines:
  assumes "pest_parser macro_grammar parse"
  shows "macro_line parse mp line =
    (case parse Q_file line of
       Err e \<Rightarrow> Err (MacroSyntax e)
     | Panic x \<Rightarrow> Panic x
     | Ok ps \<Rightarrow>
         (case find (\<lambda>q. piece_text mp q = None) (line_pieces ps) of
            None \<Rightarrow> Ok (str_trim_end (replaced mp (line_pieces ps)))
          | Some (Use n) \<Rightarrow> Err (DoesNotExist n)
          | Some _ \<Rightarrow> Panic ''Unexpected inner match please update the code together with the peg grammar''))"
proof (cases "parse Q_file line")
  case (Ok ps)
  then show ?thesis
    using macro_line_run [OF assms Ok, of mp]
    by (auto simp: run_pieces_def split: option.split piece.split)
qed (simp_all add: macro_line_def)

definition sample_macro_parse :: macro_parser where
  "sample_macro_parse = peg_parse macro_grammar"

definition sample_macros :: MacroParser where
  "sample_macros = \<lparr>macros = fmap_of_list [(''dir'', ''/usr'')]\<rparr>"

lemma sample_macro_eval:
  "(case sample_macro_parse Q_file ''cd %{dir}'' of Ok ps \<Rightarrow> Some (line_pieces ps) | _ \<Rightarrow> None) = Some [Word ''cd'', Use ''dir'']"
  "(case sample_macro_parse Q_file ''cd %{?x}'' of Ok ps \<Rightarrow> Some (line_pieces ps) | _ \<Rightarrow> None) = Some [Word ''cd'', Unsupported]"
  by code_simp+

theorem macro_line_refines_witness:
  "macro_line sample_macro_parse sample_macros ''cd %{dir}'' = Ok ''cd /usr''
   \<and> is_panic (macro_line sample_macro_parse sample_macros ''cd %{?x}'')"
proof -
  have contract: "pest_parser macro_grammar sample_macro_parse"
    unfolding sample_macro_parse_def by (rule ref_parser.pest_parser_axioms)
  obtain ps qs where ps: "sample_macro_parse Q_file ''cd %{dir}'' = Ok ps" "line_pieces ps = [Word ''cd'', Use ''dir'']"
    and qs: "sample_macro_parse Q_file ''cd %{?x}'' = Ok qs" "line_pieces qs = [Word ''cd'', Unsupported]"
    using sample_macro_eval by (auto split: res.splits)
  have "str_trim_end ''cd /usr'' = ''cd /usr''" by code_simp
  then have "macro_line sample_macro_parse sample_macros ''cd %{dir}'' = Ok ''cd /usr''"
    using macro_line_refines [OF contract, of sample_macros "''cd %{dir}''"] ps
    by (simp add: replaced_def sample_macros_def fmlookup_of_list)
  moreover have "is_panic (macro_line sample_macro_parse sample_macros ''cd %{?x}'')"
    using macro_line_refines [OF contract, of sample_macros "''cd %{?x}''"] qs by simp
  ultimately show ?thesis by blast
qed

text \<open>
  Replacing the macros of a text goes line by line. If every line succeeds, the outcome is the lines'
  outcomes joined by line feeds (a line feed at the end of the text is dropped); otherwise it is the failure of
  the first line that fails, and nothing of the text is returned.
\<close>

lemma macro_parse_lines:
  "macro_parse parse mp raw =
    (case find (\<lambda>l. is_err (macro_line parse mp l) \<or> is_panic (macro_line parse mp l)) (str_lines raw) of
       Some l \<Rightarrow> macro_line parse mp l
     | None \<Rightarrow> Ok (str_join [CHR 0x0A]
         (map (\<lambda>l. case macro_line parse mp l of Ok out \<Rightarrow> out | _ \<Rightarrow> []) (str_lines raw))))"
proof (cases "find (\<lambda>l. is_err (macro_line parse mp l) \<or> is_panic (macro_line parse mp l)) (str_lines raw)")
  case None
  then have "macro_line parse mp l = Ok (case macro_line parse mp l of Ok out \<Rightarrow> out | _ \<Rightarrow> [])"
    if "l \<in> set (str_lines raw)" for l
    using that by (cases "macro_line parse mp l") (auto simp: find_None_iff)
  from macro_lines_join [OF this, of "str_lines raw" 0 "[]"] None show ?thesis
    by (simp add: macro_parse_def)
next
  case (Some l)
  from find_first [OF this] obtain pre post where raw: "str_lines raw = pre @ l # post"
    and pre: "\<forall>x \<in> set pre. \<not> (is_err (macro_line parse mp x) \<or> is_panic (macro_line parse mp x))"
    and l: "is_err (macro_line parse mp l) \<or> is_panic (macro_line parse mp l)"
    by blast
  have "list_all (\<lambda>l. \<exists>out. macro_line parse mp l = Ok out) pre"
    using pre res_total by (auto simp: list_all_iff)
  moreover have "macro_line parse mp l \<noteq> Ok out" for out using l by auto
  ultimately show ?thesis
    using macro_lines_fail [of parse mp pre l 0 post "[]"] Some by (simp add: macro_parse_def raw)
qed

end
