(* ===== verification/Ports_Workspace.thy ===== *)
theory Ports_Workspace
  imports Rust_IO Ips_Manifest Specfile_Parser Specfile_Macros
begin

text \<open>
  The tool \<^verbatim>\<open>ports\<close>: \<^verbatim>\<open>src/ports/src/sources.rs\<close>, \<^verbatim>\<open>src/ports/src/workspace.rs\<close> and \<^verbatim>\<open>run_package_command\<close> of
  \<^verbatim>\<open>src/ports/src/main.rs\<close>. Calls to the file system, to other programs and to the network go into the list of
  calls of a computation (\<open>sys_op\<close>); their answers are given by a record \<open>sys\<close>. The crates \<^verbatim>\<open>url\<close>,
  \<^verbatim>\<open>shellexpand\<close> and \<^verbatim>\<open>which\<close> are parameters.
\<close>

section \<open>The system\<close>

datatype sys_op =
    MkDir string | Fetch string | CreateFile string | WriteFile string string | Which string
  | Spawn string "string list" "(string, string) HashMap option" | Wait string
  | GetCwd | Chdir string | ReadFile string | Print string

record sys =
  sys_mkdir :: "sys_op list \<Rightarrow> string \<Rightarrow> (unit, io_error) res"
  sys_fetch :: "sys_op list \<Rightarrow> string \<Rightarrow> (string, string) res"
  sys_create :: "sys_op list \<Rightarrow> string \<Rightarrow> (unit, io_error) res"
  sys_write :: "sys_op list \<Rightarrow> string \<Rightarrow> string \<Rightarrow> (unit, io_error) res"
  sys_which :: "sys_op list \<Rightarrow> string \<Rightarrow> (string, string) res"
  sys_spawn :: "sys_op list \<Rightarrow> string \<Rightarrow> string list \<Rightarrow> (unit, io_error) res"
  sys_wait :: "sys_op list \<Rightarrow> (int option, io_error) res"
  sys_getcwd :: "sys_op list \<Rightarrow> (string, io_error) res"
  sys_chdir :: "sys_op list \<Rightarrow> string \<Rightarrow> (unit, io_error) res"
  sys_read :: "sys_op list \<Rightarrow> string \<Rightarrow> (string, io_error) res"
  sys_env :: "(string \<times> string) list"

section \<open>Sources\<close>

datatype SourceError = CantCreateSource string | UrlParseError string

record 'u Source =
  src_url :: 'u
  local_name :: string

text \<open>What is used of the crate \<^verbatim>\<open>url\<close>: parsing, the path of an address, and its text.\<close>

record 'u url_crate =
  url_parse :: "string \<Rightarrow> ('u, string) res"
  url_path :: "'u \<Rightarrow> string"
  url_str :: "'u \<Rightarrow> string"

definition Source_new :: "'u url_crate \<Rightarrow> string \<Rightarrow> string \<Rightarrow> ('u Source, SourceError) res" where
  "Source_new U url_string local_base =
     res_bind (map_err UrlParseError (url_parse U url_string)) (\<lambda>url.
       let path_vec = str_split (CHR ''/'') (url_path U url) in
       if path_vec \<noteq> [] then Ok \<lparr>src_url = url, local_name = path_join local_base (last path_vec)\<rparr>
       else Err (CantCreateSource (url_str U url)))"

definition Source_to_string :: "'u Source \<Rightarrow> string" where
  "Source_to_string s = local_name s"

section \<open>Workspaces\<close>

datatype 'u WorkspaceError =
    NonZeroCommandExitCode string int
  | UnextractableSource "'u Source"
  | InvalidStatusCode
  | SourceHasNoExtension "'u Source"
  | WsIOError io_error
  | VariableLookupError string
  | WsSourceError SourceError
  | ReqwestError string
  | UnrunableScript string
  | PathLookupError string
  | IpsActionError ActionError

record Workspace =
  ws_root :: string
  source_dir :: string
  build_dir :: string
  proto_dir :: string

type_synonym ('u, 'a) ws_io = "(sys_op, 'a, 'u WorkspaceError) io"

definition DEFAULTWORKSPACEROOT :: string where "DEFAULTWORKSPACEROOT = ''~/.ports/wks''"

definition DEFAULTARCH :: string where "DEFAULTARCH = ''i386''"

definition DEFAULTTAR :: string where "DEFAULTTAR = ''gtar''"

definition DEFAULTSHEBANG :: string where "DEFAULTSHEBANG = ''#!/usr/bin/env bash''"

text \<open>\<^verbatim>\<open>Path::to_str\<close>: every path below is built from strings, so it is valid UTF-8.\<close>

definition path_to_str :: "string \<Rightarrow> string option" where
  "path_to_str p = Some p"

definition create_dir_all :: "sys \<Rightarrow> string \<Rightarrow> ('u, unit) ws_io" where
  [rust_calls]: "create_dir_all S p = io_call (MkDir p) (\<lambda>tr. map_err WsIOError (sys_mkdir S tr p))"

definition create_file :: "sys \<Rightarrow> string \<Rightarrow> ('u, unit) ws_io" where
  [rust_calls]: "create_file S p = io_call (CreateFile p) (\<lambda>tr. map_err WsIOError (sys_create S tr p))"

definition write_all :: "sys \<Rightarrow> string \<Rightarrow> string \<Rightarrow> ('u, unit) ws_io" where
  [rust_calls]: "write_all S p bytes = io_call (WriteFile p bytes) (\<lambda>tr. map_err WsIOError (sys_write S tr p bytes))"

definition spawn :: "sys \<Rightarrow> string \<Rightarrow> string list \<Rightarrow> (string, string) HashMap option \<Rightarrow> ('u, unit) ws_io" where
  [rust_calls]: "spawn S prog args env = io_call (Spawn prog args env) (\<lambda>tr. map_err WsIOError (sys_spawn S tr prog args))"

definition set_current_dir :: "sys \<Rightarrow> string \<Rightarrow> ('u, unit) ws_io" where
  [rust_calls]: "set_current_dir S p = io_call (Chdir p) (\<lambda>tr. map_err WsIOError (sys_chdir S tr p))"

definition init_root :: "sys \<Rightarrow> Workspace \<Rightarrow> ('u, unit) ws_io" where
  "init_root S ws =
     io_bind (create_dir_all S (ws_root ws)) (\<lambda>_.
     io_bind (create_dir_all S (build_dir ws)) (\<lambda>_.
     io_bind (create_dir_all S (source_dir ws)) (\<lambda>_.
     io_bind (create_dir_all S (proto_dir ws)) (\<lambda>_. io_return ()))))"

definition Workspace_new :: "sys \<Rightarrow> (string \<Rightarrow> (string, string) res) \<Rightarrow> string \<Rightarrow> ('u, Workspace) ws_io" where
  "Workspace_new S shellexpand root =
     (let root_dir = (if root = [] then DEFAULTWORKSPACEROOT else root) in
      io_bind (io_res (map_err VariableLookupError (shellexpand root_dir))) (\<lambda>expanded_root_dir.
        let ws = \<lparr>ws_root = expanded_root_dir,
                  source_dir = path_join expanded_root_dir ''sources'',
                  build_dir = path_join (path_join expanded_root_dir ''build'') DEFAULTARCH,
                  proto_dir = path_join (path_join expanded_root_dir ''build'') ''proto''\<rparr>
        in io_bind (init_root S ws) (\<lambda>_. io_return ws)))"

definition expand_source_path :: "Workspace \<Rightarrow> string \<Rightarrow> string" where
  "expand_source_path ws fname = path_join (source_dir ws) fname"

definition get_proto_dir :: "Workspace \<Rightarrow> string" where "get_proto_dir ws = proto_dir ws"

definition get_build_dir :: "Workspace \<Rightarrow> string" where "get_build_dir ws = build_dir ws"

definition get_macros :: "Workspace \<Rightarrow> (string, string) HashMap" where
  "get_macros ws = hm_collect [(''proto_dir'', proto_dir ws), (''build_dir'', build_dir ws), (''source_dir'', source_dir ws)]"

definition get_source :: "sys \<Rightarrow> 'u url_crate \<Rightarrow> Workspace \<Rightarrow> string \<Rightarrow> 'u Source list \<Rightarrow> ('u, 'u Source list) ws_io" where
  "get_source S U ws src src_vec =
     io_bind (io_res (map_err WsSourceError (Source_new U src (source_dir ws)))) (\<lambda>src_struct.
     io_bind (io_call (Fetch (url_str U (src_url src_struct)))
       (\<lambda>tr. map_err ReqwestError (sys_fetch S tr (url_str U (src_url src_struct))))) (\<lambda>bytes.
     io_bind (create_file S (local_name src_struct)) (\<lambda>_.
     io_bind (write_all S (local_name src_struct) bytes) (\<lambda>_.
       io_return (src_vec @ [src_struct])))))"

definition get_sources :: "sys \<Rightarrow> 'u url_crate \<Rightarrow> Workspace \<Rightarrow> string list \<Rightarrow> ('u, 'u Source list) ws_io" where
  "get_sources S U ws sources = io_fold (get_source S U ws) sources []"

text \<open>The end of a command that was started: waiting for it and looking at its exit code.\<close>

definition wait_success :: "sys \<Rightarrow> string \<Rightarrow> ('u, unit) ws_io" where
  "wait_success S command =
     io_bind (io_call (Wait command) (\<lambda>tr. map_err WsIOError (sys_wait S tr))) (\<lambda>status.
       io_res (case status of
                 None \<Rightarrow> Err InvalidStatusCode
               | Some code \<Rightarrow> if code = 0 then Ok () else Err (NonZeroCommandExitCode command code)))"

definition unpack_source :: "sys \<Rightarrow> Workspace \<Rightarrow> 'u Source \<Rightarrow> ('u, unit) ws_io" where
  "unpack_source S ws src =
     (case path_extension (local_name src) of
        Some ext \<Rightarrow>
          (case path_to_str ext of
             None \<Rightarrow> io_res (Err (SourceHasNoExtension src))
           | Some e \<Rightarrow>
               if \<not> str_contains_str ''tar'' e then io_res (Err (UnextractableSource src))
               else
                 (case (path_to_str (build_dir ws), path_to_str (local_name src)) of
                    (Some d, Some f) \<Rightarrow>
                      io_bind (spawn S DEFAULTTAR [''-C'', d, ''-xaf'', f, ''--strip-components=1''] None) (\<lambda>_.
                        wait_success S ''tar'')
                  | _ \<Rightarrow> io_res (Err (UnextractableSource src))))
      | None \<Rightarrow> io_res (Err (UnextractableSource src)))"

definition unpack_all_sources :: "sys \<Rightarrow> Workspace \<Rightarrow> 'u Source list \<Rightarrow> ('u, unit) ws_io" where
  "unpack_all_sources S ws sources = io_fold (\<lambda>src _. unpack_source S ws src) sources ()"

text \<open>\<^verbatim>\<open>env::vars()\<close>: the variables of the process as strings, with a panic if a name or a value is not valid UTF-8.\<close>

definition env_vars :: "sys \<Rightarrow> ((string \<times> string) list, 'e) res" where
  "env_vars S =
     (if list_all (\<lambda>(k, v). utf8_valid k \<and> utf8_valid v) (sys_env S) then Ok (sys_env S)
      else Panic ''called `Result::unwrap()` on an `Err` value'')"

definition filtered_env :: "(string \<times> string) list \<Rightarrow> (string, string) HashMap" where
  "filtered_env env =
     hm_collect (filter (\<lambda>(k, _). k = ''TERM'' \<or> k = ''TZ'' \<or> k = ''LANG'' \<or> k = ''PATH'') env)"

definition ws_build :: "sys \<Rightarrow> Workspace \<Rightarrow> string \<Rightarrow> ('u, unit) ws_io" where
  "ws_build S ws script =
     (let build_script_path = path_join (build_dir ws) ''build_script.sh'' in
      io_bind (create_file S build_script_path) (\<lambda>_.
      io_bind (write_all S build_script_path DEFAULTSHEBANG) (\<lambda>_.
      io_bind (write_all S build_script_path [CHR 0x0A]) (\<lambda>_.
      io_bind (write_all S build_script_path script) (\<lambda>_.
      io_bind (write_all S build_script_path [CHR 0x0A]) (\<lambda>_.
      io_bind (io_call (Which ''bash'') (\<lambda>tr. map_err PathLookupError (sys_which S tr ''bash''))) (\<lambda>bash.
      io_bind (io_res (env_vars S)) (\<lambda>vars.
      io_bind (io_res (case path_to_str build_script_path of
                         None \<Rightarrow> Err (UnrunableScript ''build_script'') | Some p \<Rightarrow> Ok p)) (\<lambda>p.
      io_bind (spawn S bash [''-ex'', p] (Some (filtered_env vars))) (\<lambda>_.
        wait_success S ''build_script''))))))))))"

text \<open>\<open>parse_object\<close> and \<open>H\<close> are the object parser and the hash functions of \<open>compute_payload\<close>.\<close>

definition package_file ::
  "sys \<Rightarrow> (string \<Rightarrow> object_file option) \<Rightarrow> hashers \<Rightarrow> string \<Rightarrow> Manifest \<Rightarrow> ('u, Manifest) ws_io" where
  "package_file S parse_object H f manifest =
     (let p = (if prefix ''/'' f then tl f else f) in
      io_bind (io_call (ReadFile p) (\<lambda>tr. map_err IpsActionError
        (File_read_from_path (compute_payload (sys_read S tr) parse_object H) path_to_str p))) (\<lambda>file.
        io_return (Manifest_add_file file manifest)))"

definition package ::
  "sys \<Rightarrow> (string \<Rightarrow> object_file option) \<Rightarrow> hashers \<Rightarrow> (Manifest \<Rightarrow> string) \<Rightarrow> Workspace \<Rightarrow> string list
     \<Rightarrow> ('u, unit) ws_io" where
  "package S parse_object H debug ws file_list =
     io_bind (io_call GetCwd (\<lambda>tr. map_err WsIOError (sys_getcwd S tr))) (\<lambda>cwd.
     io_bind (set_current_dir S (proto_dir ws)) (\<lambda>_.
     io_bind (io_fold (package_file S parse_object H) file_list Manifest_new) (\<lambda>manifest.
     io_bind (set_current_dir S cwd) (\<lambda>_.
     io_bind (io_call (Print (debug manifest)) (\<lambda>_. Ok ())) (\<lambda>_. io_return ())))))"

section \<open>The command \<^verbatim>\<open>package\<close>\<close>

datatype 'u ports_error =
    PortsIOError io_error
  | PortsSpecError pest_error
  | PortsWorkspaceError "'u WorkspaceError"
  | PortsNotString string
  | PortsMacroError macro_error

definition macro_entry ::
  "string \<times> string \<Rightarrow> (string, string) HashMap \<Rightarrow> ((string, string) HashMap, 'u ports_error) res" where
  "macro_entry m macro_map =
     (case path_to_str (snd m) of
        Some s \<Rightarrow> Ok (snd (hm_insert (fst m) s macro_map))
      | None \<Rightarrow> Err (PortsNotString (snd m)))"

text \<open>\<open>entries\<close> is the order in which the macros of the workspace are visited.\<close>

definition run_package_command ::
  "sys \<Rightarrow> 'u url_crate \<Rightarrow> (string \<Rightarrow> (string, string) res) \<Rightarrow> (string \<Rightarrow> object_file option) \<Rightarrow> hashers
     \<Rightarrow> (Manifest \<Rightarrow> string) \<Rightarrow> (spec_rule \<Rightarrow> string \<Rightarrow> (spec_rule pair list, pest_error) res) \<Rightarrow> macro_parser
     \<Rightarrow> ((string, string) HashMap \<Rightarrow> (string \<times> string) list) \<Rightarrow> string \<Rightarrow> (sys_op, unit, 'u ports_error) io" where
  "run_package_command S U shellexpand parse_object H debug spec_parser macro_parser entries spec_file =
     io_bind (io_call (ReadFile spec_file) (\<lambda>tr. map_err PortsIOError (sys_read S tr spec_file))) (\<lambda>content_string.
     io_bind (io_res (map_err PortsSpecError (spec_parse spec_parser content_string))) (\<lambda>spec.
     io_bind (io_map_err PortsWorkspaceError (Workspace_new S shellexpand [])) (\<lambda>ws.
     io_bind (io_map_err PortsWorkspaceError (get_sources S U ws (spec_sources spec))) (\<lambda>downloaded.
     io_bind (io_map_err PortsWorkspaceError (unpack_all_sources S ws downloaded)) (\<lambda>_.
     io_bind (io_res (fold_res macro_entry (entries (get_macros ws)) fmempty)) (\<lambda>macro_map.
     io_bind (io_res (map_err PortsMacroError (macro_parse macro_parser \<lparr>macros = macro_map\<rparr> (build_script spec)))) (\<lambda>script.
     io_bind (io_map_err PortsWorkspaceError (ws_build S ws script)) (\<lambda>_.
     io_bind (io_map_err PortsWorkspaceError (package S parse_object H debug ws (spec_files spec))) (\<lambda>_.
       io_return ())))))))))"

section \<open>Lemmas\<close>

lemma filtered_env_lookup:
  "fmlookup (filtered_env vars) k = (if k \<in> {''TERM'', ''TZ'', ''LANG'', ''PATH''} then map_of (rev vars) k else None)"
proof -
  have "map_of (filter (\<lambda>x. P (fst x)) xs) k = (if P k then map_of xs k else None)" for P and xs :: "(string \<times> string) list"
    by (induction xs) auto
  from this [of "\<lambda>k. k = ''TERM'' \<or> k = ''TZ'' \<or> k = ''LANG'' \<or> k = ''PATH''" "rev vars"] show ?thesis
    by (simp add: filtered_env_def rev_filter case_prod_unfold)
qed

lemma wait_success_Ok:
  "wait_success S command tr = Some (Ok (), tr') \<longleftrightarrow> sys_wait S tr = Ok (Some 0) \<and> tr' = tr @ [Wait command]"
  by (auto simp: wait_success_def io_bind_Ok split: option.splits if_splits)


text \<open>The path \<^verbatim>\<open>package\<close> reads for a line of the file list.\<close>

definition package_path :: "string \<Rightarrow> string" where
  "package_path f = (if prefix ''/'' f then tl f else f)"

lemma read_from_path_Ok:
  "File_read_from_path compute path_to_str p = Ok file \<Longrightarrow> file_path file = p"
  by (auto simp: File_read_from_path_def path_to_str_def)

lemma package_loop:
  fixes r :: "(Manifest, 'u WorkspaceError) res"
  assumes "io_fold (package_file S parse_object H) fs m tr = Some (r, tr')"
  shows "(\<exists>m'. r = Ok m' \<and> tr' = tr @ map (ReadFile \<circ> package_path) fs
      \<and> map file_path (m_files m') = map file_path (m_files m) @ map package_path fs)
    \<or> (is_err r \<or> is_panic r) \<and> (\<exists>k \<le> length fs. tr' = tr @ map (ReadFile \<circ> package_path) (take k fs))"
  using assms
proof (induction fs arbitrary: m tr)
  case (Cons f fs)
  define a where "a = File_read_from_path (compute_payload (sys_read S tr) parse_object H) path_to_str (package_path f)"
  have step: "(package_file S parse_object H f m :: ('u, Manifest) ws_io) tr =
      Some (map_res (\<lambda>file. Manifest_add_file file m) (map_err IpsActionError a), tr @ [ReadFile (package_path f)])"
    by (cases a) (simp_all add: package_file_def io_bind_def a_def package_path_def Let_def)
  show ?case
  proof (cases a)
    case (Ok fl)
    with Cons.prems step have "io_fold (package_file S parse_object H) fs (Manifest_add_file fl m)
        (tr @ [ReadFile (package_path f)]) = Some (r, tr')" by (simp add: io_bind_def)
    from Cons.IH [OF this] read_from_path_Ok Ok [unfolded a_def] show ?thesis
      by (fastforce simp: Manifest_add_file_def intro: exI [of _ "Suc k" for k])
  next
    case (Err e)
    with Cons.prems step show ?thesis by (intro disjI2) (auto simp: io_bind_def intro: exI [of _ 1])
  next
    case (Panic x)
    with Cons.prems step show ?thesis by (intro disjI2) (auto simp: io_bind_def intro: exI [of _ 1])
  qed
qed auto

section \<open>Properties\<close>

text \<open>
  C37: a compressed tar archive is never unpacked. The check looks for \<^verbatim>\<open>tar\<close> in the last extension only, so a
  source whose address ends in \<^verbatim>\<open>name.tar.gz\<close> (or any other extension after \<^verbatim>\<open>.tar\<close> that does not itself contain
  \<^verbatim>\<open>tar\<close>) is refused as unextractable, before any command is run.
\<close>

theorem unpack_refuses_compressed_tar:
  assumes "Source_new U url (source_dir ws) = Ok src"
    and "last (str_split (CHR ''/'') (url_path U (src_url src))) = stem @ ''.tar.'' @ ext"
    and "CHR ''.'' \<notin> set ext" and "\<not> sublist ''tar'' ext"
  shows "unpack_source S ws src tr = Some (Err (UnextractableSource src), tr)"
proof -
  let ?f = "stem @ ''.'' @ ''tar'' @ ''.'' @ ext"
  have f: "last (str_split (CHR ''/'') (url_path U (src_url src))) = ?f" using assms(2) by simp
  have "local_name src = path_join (source_dir ws) ?f"
    using assms(1) f by (auto simp: Source_new_def Let_def split: if_splits)
  moreover have "CHR ''/'' \<notin> set ?f"
    using str_split_no_sep [OF last_in_set [OF str_split_not_Nil]] f by metis
  then have "plain_name ?f" by (cases stem) (auto simp: plain_name_def)
  ultimately have "path_extension (local_name src) = Some ext"
    using path_extension_join [OF _ assms(3)] by metis
  then show ?thesis
    using assms(4) by (simp add: unpack_source_def path_to_str_def str_contains_str_iff)
qed

text \<open>A system on which every call succeeds, and a workspace, for the examples.\<close>

definition sample_sys :: sys where
  "sample_sys = \<lparr>sys_mkdir = \<lambda>_ _. Ok (), sys_fetch = \<lambda>_ _. Ok ''data'', sys_create = \<lambda>_ _. Ok (),
     sys_write = \<lambda>_ _ _. Ok (), sys_which = \<lambda>_ p. Ok (''/bin/'' @ p), sys_spawn = \<lambda>_ _ _. Ok (),
     sys_wait = \<lambda>_. Ok (Some 0), sys_getcwd = \<lambda>_. Ok ''/home'', sys_chdir = \<lambda>_ _. Ok (),
     sys_read = \<lambda>_ _. Ok ''data'', sys_env = [(''HOME'', ''/root''), (''PATH'', ''/bin'')]\<rparr>"

definition sample_ws :: Workspace where
  "sample_ws = \<lparr>ws_root = ''/w'', source_dir = ''/w/sources'', build_dir = ''/w/build/i386'', proto_dir = ''/w/build/proto''\<rparr>"

definition sample_url :: "string url_crate" where
  "sample_url = \<lparr>url_parse = Ok, url_path = (\<lambda>u. u), url_str = (\<lambda>u. u)\<rparr>"

theorem unpack_refuses_compressed_tar_witness:
  "\<exists>src. Source_new sample_url ''http://x/nginx-1.2.tar.gz'' ''/w/sources'' = Ok src
     \<and> local_name src = ''/w/sources/nginx-1.2.tar.gz''
     \<and> unpack_source sample_sys sample_ws src [] = Some (Err (UnextractableSource src), [])"
proof -
  define src where "src = \<lparr>src_url = ''http://x/nginx-1.2.tar.gz'', local_name = ''/w/sources/nginx-1.2.tar.gz''\<rparr>"
  have s: "Source_new sample_url ''http://x/nginx-1.2.tar.gz'' (source_dir sample_ws) = Ok src"
    unfolding src_def by code_simp
  have "unpack_source sample_sys sample_ws src [] = Some (Err (UnextractableSource src), [])"
  proof (rule unpack_refuses_compressed_tar [OF s])
    show "last (str_split (CHR ''/'') (url_path sample_url (src_url src))) = ''nginx-1.2'' @ ''.tar.'' @ ''gz''"
      unfolding src_def by code_simp
  qed (simp_all add: sublist_Cons_right)
  with s show ?thesis by (auto simp: sample_ws_def src_def)
qed

text \<open>
  C38: a build that succeeds made exactly these calls, in this order: the script file was created and filled
  with the line \<^verbatim>\<open>#!/usr/bin/env bash\<close>, the script and a line feed; \<^verbatim>\<open>bash\<close> was looked up, and the program that was
  found was run on the script with \<^verbatim>\<open>-ex\<close> and an environment that has the values of the variables \<^verbatim>\<open>TERM\<close>, \<^verbatim>\<open>TZ\<close>, \<^verbatim>\<open>LANG\<close>
  and \<^verbatim>\<open>PATH\<close> of the process and no others; every variable of the process was valid UTF-8; and the run ended with
  exit code 0.
\<close>

theorem ws_build_correct:
  assumes "ws_build S ws script tr = Some (Ok (), tr')"
  shows "\<exists>bash env. let p = path_join (build_dir ws) ''build_script.sh'';
      script_calls = [CreateFile p, WriteFile p ''#!/usr/bin/env bash'', WriteFile p [CHR 0x0A], WriteFile p script,
        WriteFile p [CHR 0x0A]] in
    tr' = tr @ script_calls @ [Which ''bash'', Spawn bash [''-ex'', p] (Some env), Wait ''build_script'']
    \<and> sys_which S (tr @ script_calls) ''bash'' = Ok bash
    \<and> (\<forall>k. fmlookup env k = (if k \<in> {''TERM'', ''TZ'', ''LANG'', ''PATH''} then map_of (rev (sys_env S)) k else None))
    \<and> (\<forall>(k, v) \<in> set (sys_env S). utf8_valid k \<and> utf8_valid v)
    \<and> sys_wait S (butlast tr') = Ok (Some 0)"
proof -
  from assms show ?thesis
    unfolding ws_build_def Let_def io_bind_Ok wait_success_Ok rust_calls
    by (auto simp: path_to_str_def DEFAULTSHEBANG_def butlast_append filtered_env_lookup env_vars_def list_all_iff split: if_splits)
qed

theorem ws_build_correct_witness:
  "\<exists>env tr'. ws_build sample_sys sample_ws ''make'' [] = Some (Ok () :: (unit, string WorkspaceError) res, tr')
     \<and> Spawn ''/bin/bash'' [''-ex'', ''/w/build/i386/build_script.sh''] (Some env) \<in> set tr'
     \<and> fmlookup env ''PATH'' = Some ''/bin'' \<and> fmlookup env ''HOME'' = None"
proof -
  obtain tr' where run: "ws_build sample_sys sample_ws ''make'' [] = Some (Ok () :: (unit, string WorkspaceError) res, tr')"
    by (simp add: ws_build_def io_bind_def rust_calls wait_success_def sample_sys_def env_vars_def utf8_valid_def
        path_to_str_def Let_def)
  have "path_join (build_dir sample_ws) ''build_script.sh'' = ''/w/build/i386/build_script.sh''" by code_simp
  with ws_build_correct [OF run] run show ?thesis by (auto simp: Let_def sample_sys_def)
qed

text \<open>
  C39: packaging. When it succeeds, it read exactly the listed files in order, each without a leading slash,
  from the prototype directory, printed a manifest with these paths, and went back to the directory it was started
  in. When a file cannot be read it stops and leaves the process in the prototype directory.
\<close>

theorem package_correct:
  fixes r :: "(unit, 'u WorkspaceError) res"
  assumes "package S parse_object H debug ws fs tr = Some (r, tr')"
    and "sys_getcwd S tr = Ok cwd" and "sys_chdir S (tr @ [GetCwd]) (proto_dir ws) = Ok ()"
  shows "(\<exists>m. map file_path (m_files m) = map package_path fs
      \<and> (\<exists>end. tr' = tr @ [GetCwd, Chdir (proto_dir ws)] @ map (ReadFile \<circ> package_path) fs @ [Chdir cwd] @ end
        \<and> (r = Ok () \<longleftrightarrow> end = [Print (debug m)])))
    \<or> (is_err r \<or> is_panic r) \<and> (\<exists>k \<le> length fs. tr' = tr @ [GetCwd, Chdir (proto_dir ws)]
        @ map (ReadFile \<circ> package_path) (take k fs))"
proof -
  let ?tr = "tr @ [GetCwd, Chdir (proto_dir ws)]"
  obtain q :: "(Manifest, 'u WorkspaceError) res" and tr1 where q: "io_fold (package_file S parse_object H) fs Manifest_new ?tr = Some (q, tr1)"
    using assms by (auto simp: package_def rust_calls io_bind_def split: option.splits)
  have run: "Some (r, tr') = io_bind (\<lambda>_. Some (q, tr1)) (\<lambda>m. io_bind (set_current_dir S cwd)
      (\<lambda>_. io_bind (io_call (Print (debug m)) (\<lambda>_. Ok ())) (\<lambda>_. io_return ()))) ?tr"
    using assms q by (simp add: package_def rust_calls io_bind_def)
  from package_loop [OF q] show ?thesis
  proof
    assume "\<exists>m'. q = Ok m' \<and> tr1 = ?tr @ map (ReadFile \<circ> package_path) fs \<and>
      map file_path (m_files m') = map file_path (m_files Manifest_new) @ map package_path fs"
    then obtain m where m: "q = Ok m" "tr1 = ?tr @ map (ReadFile \<circ> package_path) fs"
      "map file_path (m_files m) = map package_path fs" by (auto simp: Manifest_new_def)
    with run show ?thesis
      by (intro disjI1 exI [of _ m]) (cases "sys_chdir S tr1 cwd", auto simp: rust_calls io_bind_def)
  next
    assume "(is_err q \<or> is_panic q) \<and> (\<exists>k \<le> length fs. tr1 = ?tr @ map (ReadFile \<circ> package_path) (take k fs))"
    with run show ?thesis by (intro disjI2) (cases q, auto simp: io_bind_def)
  qed
qed

definition sample_hashers :: hashers where
  "sample_hashers = \<lparr>Sha256 = \<lambda>_. [], Sha512Trunc256 = \<lambda>_. [], Sha512 = \<lambda>_. [], Sha3_256 = \<lambda>_. [], Sha3_512 = \<lambda>_. ''04''\<rparr>"

theorem package_correct_witness:
  "\<exists>tr'. package sample_sys (\<lambda>_. None) sample_hashers (\<lambda>m. ''manifest'') sample_ws [''/bin/ls''] [] =
      Some (Ok () :: (unit, string WorkspaceError) res, tr')
    \<and> (\<exists>end. tr' = [GetCwd, Chdir ''/w/build/proto'', ReadFile ''bin/ls'', Chdir ''/home''] @ end)"
proof -
  obtain tr' where run: "package sample_sys (\<lambda>_. None) sample_hashers (\<lambda>m. ''manifest'') sample_ws [''/bin/ls''] [] =
      Some (Ok () :: (unit, string WorkspaceError) res, tr')"
    by (simp add: package_def package_file_def io_bind_def rust_calls sample_sys_def File_read_from_path_def
        path_to_str_def compute_payload_Ok Let_def)
  from package_correct [OF run, of "''/home''"] show ?thesis
    using run by (auto simp: sample_sys_def sample_ws_def package_path_def)
qed

end
