(* ===== verification/Ports_Main.thy ===== *)
theory Ports_Main
  imports Ports_Workspace "HOL-Library.Word"
begin

text \<open>
  The program \<^verbatim>\<open>ports\<close> (\<^verbatim>\<open>src/ports/src/main.rs\<close>): the command line as \<^verbatim>\<open>clap\<close> hands it over, and the
  dispatch. The property is about the whole program: which of its options have an effect. What the program
  never does is a property of the root theory.
\<close>

section \<open>The command line\<close>

datatype Verbose = Verbose_Off | Verbose_Some | Verbose_On | Verbose_Debug

datatype Commands_ports = Package (cmd_target: string) (cmd_specfile: string)

text \<open>The counter of \<^verbatim>\<open>-v\<close> is an \<^verbatim>\<open>i8\<close>.\<close>

record Cli =
  cli_command :: Commands_ports
  cli_config :: "string option"
  cli_verbose :: "8 word"

definition verbose_level :: "8 word \<Rightarrow> Verbose" where
  "verbose_level v =
     (if v = 0 then Verbose_Off
      else if v = 1 then Verbose_Some
      else if v = 2 then Verbose_On
      else if v = 3 then Verbose_Debug
      else Verbose_Debug)"

section \<open>The program\<close>

text \<open>
  \<open>display\<close> is \<^verbatim>\<open>Path::display\<close>. The level of verbosity is computed and then dropped, as in the code.
\<close>

definition main_ports ::
  "sys \<Rightarrow> 'u url_crate \<Rightarrow> (string \<Rightarrow> (string, string) res) \<Rightarrow> (string \<Rightarrow> object_file option) \<Rightarrow> hashers
     \<Rightarrow> (Manifest \<Rightarrow> string) \<Rightarrow> (string \<Rightarrow> string) \<Rightarrow> (spec_rule \<Rightarrow> string \<Rightarrow> (spec_rule pair list, pest_error) res)
     \<Rightarrow> macro_parser \<Rightarrow> ((string, string) HashMap \<Rightarrow> (string \<times> string) list) \<Rightarrow> Cli
     \<Rightarrow> (sys_op, unit, 'u ports_error) io" where
  "main_ports S U shellexpand parse_object H debug display spec_parser macro_parser entries cli =
     io_bind (case cli_config cli of
         Some c \<Rightarrow> io_call (Print (''Value for config: '' @ display c)) (\<lambda>_. Ok ())
       | None \<Rightarrow> io_return ()) (\<lambda>_.
     let verbose = verbose_level (cli_verbose cli) in
     (case cli_command cli of
        Package target specfile \<Rightarrow>
          io_bind (run_package_command S U shellexpand parse_object H debug spec_parser macro_parser entries specfile)
            (\<lambda>_. io_return ())))"

text \<open>
  The program \<^verbatim>\<open>ports\<close> prints the name of the configuration file, if one is given, and runs the command
  \<^verbatim>\<open>package\<close> on the spec file; the target and the verbosity have no effect, so command lines that differ only
  in them are equivalent.
\<close>

theorem main_runs_package:
  "main_ports S U shellexpand parse_object H debug display spec_parser macro_parser entries
       \<lparr>cli_command = Package target specfile, cli_config = config, cli_verbose = v\<rparr> tr =
     run_package_command S U shellexpand parse_object H debug spec_parser macro_parser entries specfile
       (tr @ (case config of None \<Rightarrow> [] | Some c \<Rightarrow> [Print (''Value for config: '' @ display c)]))"
  by (cases config) (simp_all add: main_ports_def io_bind_call_Ok)

end
