(* ===== verification/Pest_Text.thy ===== *)
theory Pest_Text
  imports Pest_Reference
begin

text \<open>
  Reading texts of a known layout: rules for the reference reading \<open>peg\<close> that the theories about the texts
  of the four grammars share. A run of characters is read by the repetition of a rule for one character;
  outside atomic rules the blanks between two parts are skipped, for the three grammars whose
  \<^verbatim>\<open>WHITESPACE\<close> is a space or a tabulator (locale \<open>blank_grammar\<close>).
\<close>

section \<open>Characters\<close>

text \<open>One whole character: the bytes that \<^verbatim>\<open>ANY\<close> takes, whatever follows.\<close>

definition whole_char :: "string \<Rightarrow> bool" where
  "whole_char u \<longleftrightarrow> u \<noteq> [] \<and> (\<forall>t. any_char (u @ t) = length u)"

lemma whole_charD: "whole_char u \<Longrightarrow> any_char (u @ t) = length u" "whole_char u \<Longrightarrow> u \<noteq> []"
  by (simp_all add: whole_char_def)

lemma ascii_whole_char: "of_char c < (128 :: nat) \<Longrightarrow> whole_char [c]"
  by (simp add: whole_char_def any_char_def)

lemma whole_char_by_length:
  "length (a # s) = (let n = of_char a :: nat in
     if n < 128 then 1 else if n < 224 then 2 else if n < 240 then 3 else 4) \<Longrightarrow> whole_char (a # s)"
  by (auto simp: whole_char_def any_char_def Let_def)

lemma utf8_split:
  assumes "utf8_valid s" and "s \<noteq> []"
  shows "\<exists>u v. s = u @ v \<and> whole_char u \<and> utf8_valid v"
proof -
  obtain a s' where s: "s = a # s'" using assms(2) by (cases s) auto
  define n :: nat where "n = of_char a"
  have valid: "utf8_bytes (n # map of_char s')" using assms(1) s by (simp add: utf8_valid_def n_def)
  have split: ?thesis if "s' = u @ v" "whole_char (a # u)" "utf8_bytes (map of_char v)" for u v
    using that s by (intro exI [of _ "a # u"] exI [of _ v]) (simp add: utf8_valid_def)
  consider "n < 128" | "128 \<le> n" "n < 224" | "224 \<le> n" "n < 240" | "240 \<le> n" by linarith
  then show ?thesis
  proof cases
    case 1
    with valid show ?thesis by (intro split [of "[]" s'] whole_char_by_length) (simp_all add: n_def)
  next
    case 2
    with valid obtain b v where "s' = b # v" "utf8_bytes (map of_char v)"
      by (cases s') (auto split: if_splits)
    with 2 show ?thesis by (intro split [of "[b]" v] whole_char_by_length) (simp_all add: n_def)
  next
    case 3
    with valid obtain b c v where "s' = b # c # v" "utf8_bytes (map of_char v)"
      by (cases s'; cases "tl s'") (auto split: if_splits)
    with 3 show ?thesis by (intro split [of "[b, c]" v] whole_char_by_length) (simp_all add: n_def)
  next
    case 4
    with valid obtain b c d v where "s' = b # c # d # v" "utf8_bytes (map of_char v)"
      by (cases s'; cases "tl s'"; cases "tl (tl s')") (auto split: if_splits)
    with 4 show ?thesis by (intro split [of "[b, c, d]" v] whole_char_by_length) (simp_all add: n_def)
  qed
qed

lemma utf8_induct [consumes 1, case_names Nil char]:
  assumes "utf8_valid s" and "P []"
    and char: "\<And>u v. whole_char u \<Longrightarrow> utf8_valid v \<Longrightarrow> P v \<Longrightarrow> P (u @ v)"
  shows "P s"
  using assms(1)
proof (induction "length s" arbitrary: s rule: less_induct)
  case less
  show ?case
  proof (cases "s = []")
    case False
    then obtain u v where "s = u @ v" "whole_char u" "utf8_valid v" using utf8_split less.prems by blast
    with less.hyps char show ?thesis using whole_charD(2) by auto
  qed (simp add: assms(2))
qed

section \<open>Repetitions\<close>

text \<open>One character after the other.\<close>

lemma peg_tail_chars:
  assumes "\<And>c s. c \<in> set k \<Longrightarrow> peg g n True e (c # s) = Some (Some ([], s))"
    and "peg g n True e t = Some None"
  shows "peg g n True (Tail e) (k @ t) = Some (Some ([], t))"
  using assms(1)
proof (induction k)
  case Nil
  with assms(2) show ?case by (simp add: peg_tail_done_atomic)
next
  case (Cons c k)
  show ?case by (rule peg_tail_more_atomic [where ?s1.0 = "k @ t"]) (use Cons in simp_all)
qed

lemma peg_plus_chars:
  assumes "\<And>c s. c \<in> set k \<Longrightarrow> peg g n True e (c # s) = Some (Some ([], s))"
    and "peg g n True e t = Some None" and "k \<noteq> []"
  shows "peg g n True (Plus e) (k @ t) = Some (Some ([], t))"
proof -
  obtain c k' where k: "k = c # k'" using assms(3) by (cases k) auto
  have "peg g n True (Tail e) (k' @ t) = Some (Some ([], t))"
    using assms(1,2) by (intro peg_tail_chars) (simp_all add: k)
  with assms(1) show ?thesis by (simp add: k peg_seq_atomic peg_star_atomic)
qed

text \<open>Characters of several bytes.\<close>

lemma peg_tail_utf8:
  assumes "utf8_valid v"
    and "\<And>u s. whole_char u \<Longrightarrow> set u \<subseteq> set v \<Longrightarrow> peg g n True e (u @ s) = Some (Some ([], s))"
    and "peg g n True e t = Some None"
  shows "peg g n True (Tail e) (v @ t) = Some (Some ([], t))"
  using assms(1,2)
proof (induction rule: utf8_induct)
  case Nil
  with assms(3) show ?case by (simp add: peg_tail_done_atomic)
next
  case (char u v)
  have "peg g n True (Tail e) (v @ t) = Some (Some ([], t))"
    using char.prems by (intro char.IH) auto
  moreover have "peg g n True e (u @ v @ t) = Some (Some ([], v @ t))"
    using char.prems [OF char.hyps(1)] by auto
  ultimately show ?case by (auto intro: peg_tail_more_atomic)
qed

lemma newline_read: "peg g n False newline_exp (CHR 0x0A # t) = Some (Some ([], t))"
  by (simp add: reading)

lemma newline_stop:
  assumes "t = [] \<or> hd t \<notin> {CHR 0x0A, CHR 0x0D}"
  shows "peg g n at newline_exp t = Some None"
  using assms by (cases t) (auto simp: reading)

text \<open>One character that does not start a line break, as \<^verbatim>\<open>!NEWLINE ~ ANY\<close>.\<close>

lemma peg_line_char:
  assumes "whole_char u" and "set u \<inter> {CHR 0x0A, CHR 0x0D} = {}"
  shows "peg g n True (Seq (Not newline_exp) (Cls any_char)) (u @ t) = Some (Some ([], t))"
proof -
  obtain c u' where u: "u = c # u'" using whole_charD(2) [OF assms(1)] by (cases u) auto
  have "any_char (c # u' @ t) = Suc (length u')" using whole_charD(1) [OF assms(1), of t] u by simp
  with assms(2) show ?thesis by (auto simp: u reading)
qed

lemma peg_line_char_stop:
  assumes "t = [] \<or> hd t = CHR 0x0A"
  shows "peg g n True (Seq (Not newline_exp) (Cls any_char)) t = Some None"
  using assms by (cases t) (auto simp: reading any_char_def)

section \<open>Blanks\<close>

definition blank_char :: "char \<Rightarrow> bool" where
  "blank_char c \<longleftrightarrow> c = CHR '' '' \<or> c = CHR 0x09"

definition solid :: "string \<Rightarrow> bool" where
  "solid t \<longleftrightarrow> t = [] \<or> \<not> blank_char (hd t)"

lemma solid_Nil [simp]: "solid []"
  by (simp add: solid_def)

lemma solid_Cons [simp]: "solid (c # t) \<longleftrightarrow> \<not> blank_char c"
  by (simp add: solid_def)

locale blank_grammar =
  fixes g :: "'r grammar" and ws :: 'r
  assumes skip_blank: "skip g = Star (Rule ws)"
    and blank_body: "rule_body g ws = Alt (Lit '' '') (Lit [CHR 0x09])"
begin

lemma blank_char_read: "peg g n True (Rule ws) (c # s) = Some (if blank_char c then Some ([], s) else None)"
  by (auto simp: peg_rule_atomic_context blank_body reading blank_char_def)

lemma blank_char_stop: "solid t \<Longrightarrow> peg g n True (Rule ws) t = Some None"
  by (cases t) (simp_all add: blank_char_read, simp add: peg_rule_atomic_context blank_body reading)

lemma skip_blank_chars:
  assumes "list_all blank_char b" and "solid t"
  shows "peg g n True (skip g) (b @ t) = Some (Some ([], t))"
  using assms unfolding skip_blank peg_star_atomic
  by (intro peg_tail_chars) (simp_all add: blank_char_read blank_char_stop list_all_iff)

lemma skip_solid: "solid t \<Longrightarrow> peg g n True (skip g) t = Some (Some ([], t))"
  using skip_blank_chars [of "[]"] by simp

text \<open>The parts of a sequence, with blanks between them.\<close>

lemma peg_seq_blanks:
  assumes "peg g n False a s = Some (Some (t1, b @ s1))" and "list_all blank_char b" and "solid s1"
  shows "peg g n False (Seq a e) s = append_peg t1 (peg g n False e s1)"
  using peg_seq_skip [OF assms(1) skip_blank_chars [OF assms(2,3)]] .

lemma peg_seq_solid:
  assumes "peg g n False a s = Some (Some (t1, s1))" and "solid s1"
  shows "peg g n False (Seq a e) s = append_peg t1 (peg g n False e s1)"
  using peg_seq_skip [OF assms(1) skip_solid [OF assms(2)]] .

lemma peg_tail_blanks:
  assumes "list_all blank_char b" and "solid s0" and "peg g n False e s0 = Some (Some (t1, s1))"
    and "peg g n False (Tail e) s1 = Some (Some (t2, s2))"
  shows "peg g n False (Tail e) (b @ s0) = Some (Some (t1 @ t2, s2))"
  using peg_tail_more [OF skip_blank_chars [OF assms(1,2)] assms(3,4)] .

lemma peg_tail_blanks_done:
  assumes "list_all blank_char b" and "solid s0" and "peg g n False e s0 = Some None"
  shows "peg g n False (Tail e) (b @ s0) = Some (Some ([], b @ s0))"
  using peg_tail_done [OF skip_blank_chars [OF assms(1,2)] assms(3)] .

text \<open>Where no blank stands, a repetition is read as if it had begun before.\<close>

lemma peg_star_solid:
  assumes "solid s"
  shows "peg g n False (Star e) s = peg g n False (Tail e) s"
proof -
  have "skip_peg False (peg g n True (skip g)) (peg g n False e) s = peg g n False e s"
    using skip_solid [OF assms] by (simp add: skip_peg_def seq_peg_def)
  then show ?thesis
    by (simp only: peg_equations(9,10) alt_peg_def seq_peg_def)
qed

end

end
