(* ===== verification/Specfile_Text.thy ===== *)
theory Specfile_Text
  imports Specfile_Parser Pest_Text
begin

text \<open>
  Spec files as text. A \<open>spec_document\<close> is the layout of a spec file: assignments, sections and empty lines,
  with their blanks. The text of every well-formed document is read as its assignments and sections
  (\<open>spec_document_read\<close>), by every parser that makes the choices of \<^verbatim>\<open>specfile.pest\<close>.
\<close>

section \<open>Documents\<close>

text \<open>A line of a section is the blanks in front of it and its text.\<close>

datatype spec_entry =
    Empty_Line
  | Assign string string string
  | Script string "(string \<times> string) list"

type_synonym spec_document = "(string \<times> spec_entry) list"

definition script_line_text :: "string \<times> string \<Rightarrow> string" where
  "script_line_text l = fst l @ snd l @ [CHR 0x0A]"

definition script_lines_text :: "(string \<times> string) list \<Rightarrow> string" where
  "script_lines_text ls = concat (map script_line_text ls)"

fun spec_entry_text :: "spec_entry \<Rightarrow> string" where
  "spec_entry_text Empty_Line = [CHR 0x0A]"
| "spec_entry_text (Assign name b v) = name @ '':'' @ b @ v @ [CHR 0x0A]"
| "spec_entry_text (Script name ls) = ''%'' @ name @ [CHR 0x0A] @ script_lines_text ls"

definition spec_document_text :: "spec_document \<Rightarrow> string" where
  "spec_document_text d = concat (map (\<lambda>(b, e). b @ spec_entry_text e) d)"

text \<open>A comment line is a number sign and at least one more character.\<close>

definition is_comment :: "string \<Rightarrow> bool" where
  "is_comment t \<longleftrightarrow> t \<noteq> [] \<and> hd t = CHR ''#'' \<and> tl t \<noteq> []"

text \<open>What a document says.\<close>

definition document_assignments :: "spec_document \<Rightarrow> (string \<times> string) list" where
  "document_assignments d = List.map_filter (\<lambda>(_, e). case e of Assign n _ v \<Rightarrow> Some (n, v) | _ \<Rightarrow> None) d"

definition document_sections :: "spec_document \<Rightarrow> (string \<times> string list) list" where
  "document_sections d =
     List.map_filter (\<lambda>(_, e). case e of
        Script n ls \<Rightarrow> Some (n, filter (\<lambda>t. \<not> is_comment t) (map snd ls)) | _ \<Rightarrow> None) d"

section \<open>Characters\<close>

definition spec_char :: "char \<Rightarrow> bool" where
  "spec_char c \<longleftrightarrow> ascii_alphanumeric [c] = 1 \<or> c \<in> {CHR '','', CHR ''.'', CHR ''_'', CHR ''/'', CHR ''-'', CHR ''='',
     CHR ''>'', CHR ''<'', CHR ''!'', CHR 0x27, CHR ''#'', CHR '':'', CHR ''{'', CHR ''}'', CHR ''%'', CHR ''*'',
     CHR ''@'', CHR 0x22}"

definition spec_text :: "string \<Rightarrow> bool" where
  "spec_text t \<longleftrightarrow> t \<noteq> [] \<and> solid t \<and> list_all (\<lambda>c. spec_char c \<or> blank_char c) t"

text \<open>A variable name: an upper case letter, letters, digits.\<close>

definition upper_char :: "char \<Rightarrow> bool" where
  "upper_char c \<longleftrightarrow> char_range (CHR ''A'') (CHR ''Z'') [c] = 1"

definition alpha_char :: "char \<Rightarrow> bool" where
  "alpha_char c \<longleftrightarrow> upper_char c \<or> char_range (CHR ''a'') (CHR ''z'') [c] = 1"

definition digit_char :: "char \<Rightarrow> bool" where
  "digit_char c \<longleftrightarrow> char_range (CHR ''0'') (CHR ''9'') [c] = 1"

definition variable_name_ok :: "string \<Rightarrow> bool" where
  "variable_name_ok n \<longleftrightarrow> (case n of [] \<Rightarrow> False | c # cs \<Rightarrow>
     upper_char c \<and> takeWhile alpha_char cs \<noteq> [] \<and> list_all digit_char (dropWhile alpha_char cs))"

definition section_name_ok :: "string \<Rightarrow> bool" where
  "section_name_ok n \<longleftrightarrow> n \<noteq> [] \<and> list_all (\<lambda>c. ascii_alpha_lower [c] = 1 \<or> ascii_digit [c] = 1) n"

definition wf_script_line :: "string \<times> string \<Rightarrow> bool" where
  "wf_script_line l \<longleftrightarrow> list_all blank_char (fst l) \<and> spec_text (snd l)"

fun wf_spec_entry :: "spec_entry \<Rightarrow> bool" where
  "wf_spec_entry Empty_Line = True"
| "wf_spec_entry (Assign n b v) \<longleftrightarrow> variable_name_ok n \<and> list_all blank_char b \<and> spec_text v"
| "wf_spec_entry (Script n ls) \<longleftrightarrow> section_name_ok n \<and> ls \<noteq> [] \<and> list_all wf_script_line ls"

text \<open>
  Lines that follow a section up to the next empty line belong to it, whatever they look like; so what
  follows a section in a document is an empty line or the end of the file.
\<close>

fun wf_spec_entries :: "spec_document \<Rightarrow> bool" where
  "wf_spec_entries [] = True"
| "wf_spec_entries ((b, e) # d) \<longleftrightarrow> list_all blank_char b \<and> wf_spec_entry e \<and> wf_spec_entries d
     \<and> (case e of Script _ _ \<Rightarrow> d = [] \<or> snd (hd d) = Empty_Line | _ \<Rightarrow> True)"

definition wf_spec_document :: "spec_document \<Rightarrow> bool" where
  "wf_spec_document d \<longleftrightarrow> d \<noteq> [] \<and> wf_spec_entries d"

section \<open>Reading the parts\<close>

interpretation spec_blanks: blank_grammar spec_grammar S_WHITESPACE
  by unfold_locales (simp_all add: spec_grammar_def)

lemma spec_char_read: "peg spec_grammar n True (Rule S_char) (c # s) = Some (if spec_char c then Some ([], s) else None)"
  by (auto simp: reading spec_char_def ascii_alphanumeric_def byte_class_def)

lemma spec_char_Nil: "peg spec_grammar n True (Rule S_char) [] = Some None"
  by (simp add: reading ascii_alphanumeric_def byte_class_def)

lemma spec_char_not_blank: "spec_char c \<Longrightarrow> \<not> blank_char c"
  by (auto simp: spec_char_def blank_char_def ascii_alphanumeric_def byte_class_def)

definition line_end :: "string \<Rightarrow> bool" where
  "line_end t \<longleftrightarrow> t = [] \<or> hd t = CHR 0x0A"

lemma line_endD:
  assumes "line_end t"
  shows "solid t" "peg spec_grammar n True (Rule S_char) t = Some None"
  using assms
  by (cases t; simp add: line_end_def solid_def blank_char_def spec_char_Nil spec_char_read spec_char_def
      ascii_alphanumeric_def byte_class_def)+

text \<open>One \<^verbatim>\<open>text\<close>: a run of characters or one blank.\<close>

lemma spec_word_read:
  assumes "k \<noteq> []" and "spec_char (hd k)" and "line_end t"
  shows "peg spec_grammar n True (Rule S_text) (k @ t) = Some (Some ([], dropWhile spec_char k @ t))"
proof -
  let ?w = "takeWhile spec_char k" and ?r = "dropWhile spec_char k"
  have "peg spec_grammar n True (Rule S_char) (?r @ t) = Some None"
    using line_endD(2) [OF assms(3)] hd_dropWhile [of spec_char k]
    by (cases ?r) (simp_all add: spec_char_read del: dropWhile_eq_Nil_conv)
  then have "peg spec_grammar n True (Plus (Rule S_char)) (?w @ ?r @ t) = Some (Some ([], ?r @ t))"
    using assms(1,2) by (intro peg_plus_chars) (auto simp: spec_char_read takeWhile_eq_Nil_iff dest: set_takeWhileD)
  then show ?thesis
    by (simp add: peg_rule_atomic_context peg_alt_first flip: append_assoc)
qed

lemma spec_blank_read:
  assumes "blank_char c"
  shows "peg spec_grammar n True (Rule S_text) (c # s) = Some (Some ([], s))"
proof -
  have "peg spec_grammar n True (Plus (Rule S_char)) (c # s) = Some None"
    using assms spec_char_not_blank [of c] by (intro peg_seq_fail) (auto simp: spec_char_read)
  from peg_alt_second [OF this] assms show ?thesis
    by (simp add: peg_rule_atomic_context [of _ _ S_text] spec_blanks.blank_char_read)
qed

text \<open>\<^verbatim>\<open>text+\<close> in an atomic rule: everything up to the end of the line.\<close>

lemma spec_texts_read:
  assumes "list_all (\<lambda>c. spec_char c \<or> blank_char c) k" and "line_end t"
  shows "peg spec_grammar n True (Tail (Rule S_text)) (k @ t) = Some (Some ([], t))"
  using assms(1)
proof (induction "length k" arbitrary: k rule: less_induct)
  case less
  note stop = line_endD [OF assms(2)]
  show ?case
  proof (cases k)
    case Nil
    have "peg spec_grammar n True (Rule S_text) t = Some None"
      using stop(2) spec_blanks.blank_char_stop [OF stop(1)]
      by (simp add: peg_rule_atomic_context [of _ _ S_text] peg_alt_second peg_seq_fail)
    with Nil show ?thesis by (simp add: peg_tail_done_atomic)
  next
    case (Cons c k')
    show ?thesis
    proof (cases "spec_char c")
      case True
      let ?r = "dropWhile spec_char k"
      have "peg spec_grammar n True (Tail (Rule S_text)) (?r @ t) = Some (Some ([], t))"
        using less Cons True length_dropWhile_le [of spec_char k']
        by (intro less.hyps) (auto simp: list_all_iff dest: set_dropWhileD)
      with spec_word_read [OF _ _ assms(2), of k] Cons True show ?thesis
        by (auto intro: peg_tail_more_atomic)
    next
      case False
      with less.prems Cons have "blank_char c" by simp
      moreover have "peg spec_grammar n True (Tail (Rule S_text)) (k' @ t) = Some (Some ([], t))"
        using less Cons by (intro less.hyps) simp_all
      ultimately show ?thesis using Cons by (simp add: peg_tail_more_atomic [OF spec_blank_read])
    qed
  qed
qed

lemma spec_text_read:
  assumes "v \<noteq> []" and "list_all (\<lambda>c. spec_char c \<or> blank_char c) v" and "line_end t"
  shows "peg spec_grammar n True (Plus (Rule S_text)) (v @ t) = Some (Some ([], t))"
proof -
  obtain c v' where v: "v = c # v'" using assms(1) by (cases v) auto
  have rest: "peg spec_grammar n True (Tail (Rule S_text)) (w @ t) = Some (Some ([], t))" if "set w \<subseteq> set v" for w
    using assms(2,3) that by (intro spec_texts_read) (auto simp: list_all_iff)
  show ?thesis
  proof (cases "spec_char c")
    case True
    then have "peg spec_grammar n True (Rule S_text) (v @ t) = Some (Some ([], dropWhile spec_char v @ t))"
      using v assms(3) by (intro spec_word_read) simp_all
    with rest [of "dropWhile spec_char v"] show ?thesis
      by (auto simp: peg_seq_atomic peg_star_atomic dest: set_dropWhileD)
  next
    case False
    with assms(2) v have "blank_char c" by simp
    from spec_blank_read [OF this] rest [of v'] v show ?thesis
      by (auto simp: peg_seq_atomic peg_star_atomic)
  qed
qed

lemma spec_text_stop: "line_end t \<Longrightarrow> peg spec_grammar n True (Plus (Rule S_text)) t = Some None"
  using line_endD(2) [of t n] spec_blanks.blank_char_stop [OF line_endD(1), of t n]
  by (simp add: peg_rule_atomic_context [of _ _ S_text] peg_alt_second peg_seq_fail)

subsection \<open>Assignments\<close>

lemma class_char_read:
  "peg spec_grammar n True (Rule S_uppercase) (c # s) = Some (if upper_char c then Some ([], s) else None)"
  "peg spec_grammar n True (Rule S_alpha) (c # s) = Some (if alpha_char c then Some ([], s) else None)"
  "peg spec_grammar n True (Rule S_digit) (c # s) = Some (if digit_char c then Some ([], s) else None)"
  by (auto simp: reading upper_char_def alpha_char_def digit_char_def char_range_def byte_class_def)

lemma variable_name_read:
  assumes "variable_name_ok v"
  shows "peg spec_grammar n False (Rule S_variable_name) (v @ CHR '':'' # t)
    = Some (Some ([Pair S_variable_name v []], CHR '':'' # t))"
proof (rule peg_rule_atomic)
  obtain c cs where v: "v = c # cs" "upper_char c" "takeWhile alpha_char cs \<noteq> []" "list_all digit_char (dropWhile alpha_char cs)"
    using assms by (cases v) (auto simp: variable_name_ok_def)
  let ?a = "takeWhile alpha_char cs" and ?d = "dropWhile alpha_char cs"
  have colon: "\<not> alpha_char (CHR '':'')" "\<not> digit_char (CHR '':'')"
    by (simp_all add: alpha_char_def upper_char_def digit_char_def char_range_def byte_class_def)
  have "peg spec_grammar n True (Rule S_alpha) (?d @ CHR '':'' # t) = Some None"
    using hd_dropWhile [of alpha_char cs] colon by (cases ?d) (simp_all add: class_char_read del: dropWhile_eq_Nil_conv)
  then have "peg spec_grammar n True (Plus (Rule S_alpha)) (?a @ ?d @ CHR '':'' # t) = Some (Some ([], ?d @ CHR '':'' # t))"
    using v(3) by (intro peg_plus_chars) (auto simp: class_char_read dest: set_takeWhileD)
  moreover have "peg spec_grammar n True (Tail (Rule S_digit)) (?d @ CHR '':'' # t) = Some (Some ([], CHR '':'' # t))"
    using v(4) colon by (intro peg_tail_chars) (simp_all add: class_char_read list_all_iff)
  ultimately have "peg spec_grammar n True (Seq (Plus (Rule S_alpha)) (Star (Rule S_digit))) (cs @ CHR '':'' # t)
      = Some (Some ([], CHR '':'' # t))"
    by (simp add: peg_seq_atomic peg_star_atomic flip: append_assoc)
  with v(1,2) show "peg spec_grammar n True (rule_body spec_grammar S_variable_name) (v @ CHR '':'' # t)
      = Some (Some ([], CHR '':'' # t))"
    by (simp add: peg_seq_atomic class_char_read)
qed simp

lemma variable_name_stop:
  assumes "t = [] \<or> \<not> upper_char (hd t)"
  shows "peg spec_grammar n False (Rule S_variable_name) t = Some None"
proof -
  have "peg spec_grammar n True (Rule S_uppercase) [] = Some None" by (simp add: reading char_range_def byte_class_def)
  with assms have "peg spec_grammar n True (Rule S_uppercase) t = Some None"
    by (cases t) (simp_all add: class_char_read)
  then show ?thesis by (intro peg_rule_fail) (simp add: peg_seq_fail)
qed

definition assign_tree :: "string \<Rightarrow> string \<Rightarrow> string \<Rightarrow> spec_rule pair" where
  "assign_tree name b v = Pair S_variable (name @ '':'' @ b @ v) [Pair S_variable_name name [], Pair S_variable_text v []]"

lemma assign_read:
  assumes "variable_name_ok name" and "list_all blank_char b" and "spec_text v" and "line_end t"
  shows "peg spec_grammar n False (Rule S_variable) ((name @ '':'' @ b @ v) @ t) = Some (Some ([assign_tree name b v], t))"
  unfolding assign_tree_def
proof (rule peg_rule_normal)
  have v: "v \<noteq> []" "solid v" "list_all (\<lambda>c. spec_char c \<or> blank_char c) v"
    using assms(3) by (auto simp: spec_text_def)
  have "peg spec_grammar n False (Rule S_variable_text) (v @ t) = Some (Some ([Pair S_variable_text v []], t))"
    by (rule peg_rule_atomic) (simp_all add: spec_text_read [OF v(1,3) assms(4)])
  moreover have "solid (v @ t)" using v(1,2) by (cases v) simp_all
  ultimately have "peg spec_grammar n False (Seq (Lit '':'') (Rule S_variable_text)) (CHR '':'' # b @ v @ t)
      = Some (Some ([Pair S_variable_text v []], t))"
    using spec_blanks.peg_seq_blanks [OF peg_lit_char assms(2)] by simp
  moreover have "solid (CHR '':'' # b @ v @ t)" by (simp add: blank_char_def)
  ultimately show "peg spec_grammar n False (rule_body spec_grammar S_variable) ((name @ '':'' @ b @ v) @ t)
      = Some (Some ([Pair S_variable_name name [], Pair S_variable_text v []], t))"
    using spec_blanks.peg_seq_solid [OF variable_name_read [OF assms(1)]] by simp
qed simp

subsection \<open>Sections\<close>

definition script_line_tree :: "string \<times> string \<Rightarrow> spec_rule pair" where
  "script_line_tree l = Pair S_section_line (snd l @ [CHR 0x0A])
     [Pair (if is_comment (snd l) then S_comment_line else S_section_text) (snd l) []]"

lemma comment_line_read:
  assumes "v \<noteq> []" and "list_all (\<lambda>c. spec_char c \<or> blank_char c) v"
  shows "peg spec_grammar n False (Rule S_comment_line) (v @ CHR 0x0A # t) =
    Some (if is_comment v then Some ([Pair S_comment_line v []], CHR 0x0A # t) else None)"
proof -
  have txt_read: "peg spec_grammar n True (Rule S_section_text) s = peg spec_grammar n True (Plus (Rule S_text)) s" for s
    by (simp add: peg_rule_atomic_context)
  have stop: "line_end (CHR 0x0A # t)" by (simp add: line_end_def)
  obtain c w where v: "v = c # w" using assms(1) by (cases v) auto
  have body: "peg spec_grammar n True (spec_rule_body S_comment_line) (v @ CHR 0x0A # t) =
    Some (if is_comment v then Some ([], CHR 0x0A # t) else None)"
  proof (cases "c = CHR ''#''")
    case True
    then have "peg spec_grammar n True (spec_rule_body S_comment_line) (v @ CHR 0x0A # t) =
        peg spec_grammar n True (Plus (Rule S_text)) (w @ CHR 0x0A # t)"
      using v by (simp add: peg_seq_atomic [OF peg_lit_char] txt_read)
    with True v assms(2) spec_text_read [OF _ _ stop, of w n] spec_text_stop [OF stop, of n] show ?thesis
      by (cases "w = []") (simp_all add: is_comment_def)
  next
    case False
    then show ?thesis by (simp add: v is_comment_def peg_seq_fail [OF peg_lit_fail])
  qed
  show ?thesis
  proof (cases "is_comment v")
    case True
    with body peg_rule_atomic [of spec_grammar S_comment_line n v "CHR 0x0A # t"] show ?thesis
      by (simp del: spec_rule_body.simps)
  next
    case False
    with body show ?thesis by (simp add: peg_rule_fail del: spec_rule_body.simps)
  qed
qed

lemma section_line_read:
  assumes "wf_script_line l"
  shows "peg spec_grammar n False (Rule S_section_line) (snd l @ CHR 0x0A # t) = Some (Some ([script_line_tree l], t))"
proof -
  have l: "snd l \<noteq> []" "list_all (\<lambda>c. spec_char c \<or> blank_char c) (snd l)"
    using assms by (auto simp: wf_script_line_def spec_text_def)
  have stop: "line_end (CHR 0x0A # t)" "solid (CHR 0x0A # t)" by (simp_all add: line_end_def blank_char_def)
  have nl: "peg spec_grammar n False (Seq (Rule r) newline_exp) (snd l @ CHR 0x0A # t) = Some (Some ([Pair r (snd l) []], t))"
    if "peg spec_grammar n False (Rule r) (snd l @ CHR 0x0A # t) = Some (Some ([Pair r (snd l) []], CHR 0x0A # t))" for r
    using spec_blanks.peg_seq_solid [OF that stop(2)] newline_read [of spec_grammar n t] by simp
  have st: "peg spec_grammar n False (Rule S_section_text) (snd l @ CHR 0x0A # t)
      = Some (Some ([Pair S_section_text (snd l) []], CHR 0x0A # t))"
    by (rule peg_rule_atomic) (simp_all add: spec_text_read [OF l stop(1)])
  have "peg spec_grammar n False (spec_rule_body S_section_line) (snd l @ CHR 0x0A # t)
      = Some (Some ([Pair (if is_comment (snd l) then S_comment_line else S_section_text) (snd l) []], t))"
  proof (cases "is_comment (snd l)")
    case True
    with comment_line_read [OF l] nl [of S_comment_line] show ?thesis by (simp add: peg_alt_first)
  next
    case False
    with comment_line_read [OF l] have "peg spec_grammar n False (Seq (Rule S_comment_line) newline_exp) (snd l @ CHR 0x0A # t) = Some None"
      by (simp add: peg_seq_fail)
    from peg_alt_second [OF this] nl [OF st] False show ?thesis by simp
  qed
  then show ?thesis
    unfolding script_line_tree_def using peg_rule_normal [of spec_grammar S_section_line n "snd l @ [CHR 0x0A]" t] by simp
qed

lemma section_line_stop:
  assumes "line_end t"
  shows "peg spec_grammar n False (Rule S_section_line) t = Some None"
proof -
  have "peg spec_grammar n False (Rule S_section_text) t = Some None"
    by (rule peg_rule_fail) (simp add: spec_text_stop [OF assms])
  moreover have "peg spec_grammar n False (Rule S_comment_line) t = Some None"
  proof (rule peg_rule_fail)
    have "\<not> prefix ''#'' t" using assms by (cases t) (auto simp: line_end_def)
    then show "peg spec_grammar n (False \<or> rule_ty spec_grammar S_comment_line = Atomic) (rule_body spec_grammar S_comment_line) t = Some None"
      by (simp add: peg_seq_fail peg_lit_fail)
  qed
  ultimately show ?thesis by (intro peg_rule_fail) (simp add: peg_alt_second peg_seq_fail)
qed

lemma script_line_solid: "wf_script_line l \<Longrightarrow> solid (snd l @ t)"
  by (cases "snd l") (auto simp: wf_script_line_def spec_text_def)

lemma script_lines_read:
  assumes "list_all wf_script_line ls" and "list_all blank_char b" and "line_end t"
  shows "peg spec_grammar n False (Tail (Rule S_section_line)) (script_lines_text ls @ b @ t)
    = Some (Some (map script_line_tree ls, b @ t))"
  using assms(1)
proof (induction ls)
  case Nil
  show ?case
    using spec_blanks.peg_tail_blanks_done [OF assms(2) line_endD(1) section_line_stop] assms(3)
    by (simp add: script_lines_text_def)
next
  case (Cons l ls)
  have "list_all blank_char (fst l)" using Cons.prems by (simp add: wf_script_line_def)
  from spec_blanks.peg_tail_blanks [OF this script_line_solid section_line_read Cons.IH] Cons.prems show ?case
    by (simp add: script_lines_text_def script_line_text_def)
qed

lemma section_name_read:
  assumes "section_name_ok nm"
  shows "peg spec_grammar n False (Rule S_section_name) (nm @ CHR 0x0A # t) = Some (Some ([Pair S_section_name nm []], CHR 0x0A # t))"
proof (rule peg_rule_atomic)
  let ?e = "Alt (Cls ascii_alpha_lower) (Cls ascii_digit)"
  have "peg spec_grammar n True ?e (c # s) = Some (if ascii_alpha_lower [c] = 1 \<or> ascii_digit [c] = 1 then Some ([], s) else None)" for c s
    by (auto simp: reading ascii_alpha_lower_def ascii_digit_def char_range_def byte_class_def)
  then have "peg spec_grammar n True (Plus ?e) (nm @ CHR 0x0A # t) = Some (Some ([], CHR 0x0A # t))"
    using assms by (intro peg_plus_chars)
      (auto simp: section_name_ok_def list_all_iff ascii_alpha_lower_def ascii_digit_def char_range_def byte_class_def)
  then show "peg spec_grammar n True (rule_body spec_grammar S_section_name) (nm @ CHR 0x0A # t) = Some (Some ([], CHR 0x0A # t))"
    by simp
qed simp

text \<open>
  The parts of a section. When it has one line only, the blanks after it are read with it; this does not
  change what the pair says.
\<close>

lemma section_read:
  assumes "section_name_ok nm" and "ls \<noteq> []" and "list_all wf_script_line ls" and "list_all blank_char b" and "line_end t"
  shows "\<exists>u b'. peg spec_grammar n False (Rule S_section) (spec_entry_text (Script nm ls) @ b @ t)
      = Some (Some ([Pair S_section u (Pair S_section_name nm [] # map script_line_tree ls)], b' @ t))
    \<and> list_all blank_char b'"
proof -
  obtain l ls' where ls: "ls = l # ls'" using assms(2) by (cases ls) auto
  let ?e = "Rule S_section_line" and ?rest = "script_lines_text ls' @ b @ t"
  have star: "\<exists>b'. peg spec_grammar n False (Plus ?e) (snd l @ CHR 0x0A # ?rest)
      = Some (Some (map script_line_tree ls, b' @ t)) \<and> list_all blank_char b'"
  proof (cases ls')
    case Nil
    have "peg spec_grammar n False (Star ?e) t = Some (Some ([], t))"
      using assms(5) by (intro peg_star_done section_line_stop)
    with Nil spec_blanks.peg_seq_blanks [OF section_line_read [of l n "b @ t"]] assms ls line_endD(1) show ?thesis
      by (intro exI [of _ "[]"]) (simp add: script_lines_text_def)
  next
    case (Cons l' ls'')
    have "peg spec_grammar n False (Star ?e) (snd l' @ CHR 0x0A # script_lines_text ls'' @ b @ t)
        = Some (Some (map script_line_tree ls', b @ t))"
      using peg_star_more [OF section_line_read [of l'] script_lines_read] assms ls Cons by simp
    with Cons spec_blanks.peg_seq_blanks [OF section_line_read
        [of l n "fst l' @ snd l' @ CHR 0x0A # script_lines_text ls'' @ b @ t"]]
      assms ls script_line_solid [of l'] show ?thesis
      by (intro exI [of _ b]) (simp add: script_lines_text_def script_line_text_def wf_script_line_def)
  qed
  then obtain b' where b': "peg spec_grammar n False (Plus ?e) (snd l @ CHR 0x0A # ?rest)
      = Some (Some (map script_line_tree ls, b' @ t))" "list_all blank_char b'" by blast
  have "list_all blank_char (fst l)" "solid (snd l @ CHR 0x0A # ?rest)"
    using assms(3) ls script_line_solid [of l] by (simp_all add: wf_script_line_def)
  then have "peg spec_grammar n False (Seq newline_exp (Plus ?e)) (CHR 0x0A # fst l @ snd l @ CHR 0x0A # ?rest)
      = Some (Some (map script_line_tree ls, b' @ t))"
    using spec_blanks.peg_seq_blanks [OF newline_read] b'(1) by simp
  moreover have "solid (CHR 0x0A # s)" for s by (simp add: blank_char_def)
  ultimately have "peg spec_grammar n False (Seq (Rule S_section_name) (Seq newline_exp (Plus ?e)))
      (nm @ CHR 0x0A # fst l @ snd l @ CHR 0x0A # ?rest) = Some (Some (Pair S_section_name nm [] # map script_line_tree ls, b' @ t))"
    using spec_blanks.peg_seq_solid [OF section_name_read [OF assms(1)]] by simp
  moreover have "solid (nm @ s)" for s
    using assms(1) by (cases nm) (auto simp: section_name_ok_def blank_char_def ascii_alpha_lower_def ascii_digit_def char_range_def byte_class_def)
  ultimately have "peg spec_grammar n False (spec_rule_body S_section) (spec_entry_text (Script nm ls) @ b @ t)
      = Some (Some (Pair S_section_name nm [] # map script_line_tree ls, b' @ t))"
    using spec_blanks.peg_seq_solid [OF peg_lit_char] ls by (simp add: script_lines_text_def script_line_text_def)
  with b'(2) peg_rule_normal_text [of spec_grammar S_section] show ?thesis by fastforce
qed

section \<open>Reading a document\<close>

abbreviation spec_entry_exp :: "spec_rule pexp" where
  "spec_entry_exp \<equiv> alts [Seq (Rule S_variable) (Plus newline_exp), Seq (Rule S_multiline_variable) (Plus newline_exp),
     Seq (Rule S_empty_variable) (Plus newline_exp), Rule S_section, newline_exp]"

text \<open>A document without the blanks at its start.\<close>

definition stripped_text :: "spec_document \<Rightarrow> string" where
  "stripped_text d = (case d of [] \<Rightarrow> [] | (b, e) # d' \<Rightarrow> spec_entry_text e @ spec_document_text d')"

definition first_blanks :: "spec_document \<Rightarrow> string" where
  "first_blanks d = (case d of [] \<Rightarrow> [] | (b, e) # d' \<Rightarrow> b)"

lemma spec_document_text_simps [simp]:
  "spec_document_text [] = []"
  "spec_document_text ((b, e) # d) = b @ spec_entry_text e @ spec_document_text d"
  by (simp_all add: spec_document_text_def)

lemma stripped_text_simps [simp]:
  "stripped_text [] = []" "stripped_text ((b, e) # d) = spec_entry_text e @ spec_document_text d"
  by (simp_all add: stripped_text_def)

lemma spec_document_text_stripped: "spec_document_text d = first_blanks d @ stripped_text d"
  by (cases d) (auto simp: first_blanks_def)

lemma first_blanks_blank: "wf_spec_entries d \<Longrightarrow> list_all blank_char (first_blanks d)"
  by (cases d) (auto simp: first_blanks_def)

lemma variable_name_start:
  assumes "variable_name_ok v"
  obtains c cs where "v = c # cs" "upper_char c"
  using assms by (cases v) (auto simp: variable_name_ok_def)

lemma upper_char_apart:
  assumes "upper_char c"
  shows "\<not> blank_char c" "c \<noteq> CHR ''%''" "c \<noteq> CHR 0x0A" "c \<noteq> CHR 0x0D"
  using assms by (auto simp: upper_char_def char_range_def byte_class_def blank_char_def)

lemma stripped_solid: "wf_spec_entries d \<Longrightarrow> solid (stripped_text d)"
proof (cases d)
  case (Cons be d')
  assume wf: "wf_spec_entries d"
  obtain b e where be: "be = (b, e)" by (cases be)
  show ?thesis
  proof (cases e)
    case (Assign nm b' v)
    with wf Cons be have "variable_name_ok nm" by simp
    then obtain c cs where "nm = c # cs" "upper_char c" by (rule variable_name_start)
    with Assign Cons be upper_char_apart(1) show ?thesis by simp
  qed (simp_all add: Cons be blank_char_def)
qed simp

text \<open>What pairs say of a document, or of the part of it that was read.\<close>

definition tells :: "spec_rule pair list \<Rightarrow> (string \<times> string) list \<Rightarrow> (string \<times> string list) list \<Rightarrow> bool" where
  "tells ts vs ss \<longleftrightarrow> spec_assignments ts = vs \<and> spec_sections ts = ss
     \<and> list_all (\<lambda>p. as_rule p \<in> {S_variable, S_section}) ts"

lemma tells_Nil [simp]: "tells [] [] []"
  by (simp add: tells_def spec_assignments_def spec_sections_def)

lemma tells_append: "tells ts vs ss \<Longrightarrow> tells ts' vs' ss' \<Longrightarrow> tells (ts @ ts') (vs @ vs') (ss @ ss')"
  by (auto simp: tells_def spec_assignments_def spec_sections_def)

lemma tells_assign: "tells [assign_tree n b v] [(n, v)] []"
  by (simp add: tells_def assign_tree_def spec_assignments_def spec_sections_def pair_text_def)

lemma tells_section:
  "tells [Pair S_section u (Pair S_section_name nm [] # map script_line_tree ls)] []
     [(nm, filter (\<lambda>t. \<not> is_comment t) (map snd ls))]"
proof -
  have "filter (\<lambda>l. as_rule l = S_section_name) (map script_line_tree ls) = []"
    by (simp add: filter_empty_conv script_line_tree_def)
  moreover have "concat (map (\<lambda>l. map as_str (filter (\<lambda>t. as_rule t = S_section_text) (into_inner l)))
      (filter (\<lambda>l. as_rule l = S_section_line) (map script_line_tree ls))) = filter (\<lambda>t. \<not> is_comment t) (map snd ls)"
    by (induction ls) (simp_all add: script_line_tree_def)
  ultimately show ?thesis
    by (simp add: tells_def spec_assignments_def spec_sections_def section_lines_def pair_text_def)
qed

lemma document_parts_simps [simp]:
  "document_assignments [] = []" "document_sections [] = []"
  "document_assignments ((b, Empty_Line) # d) = document_assignments d"
  "document_sections ((b, Empty_Line) # d) = document_sections d"
  "document_assignments ((b, Assign n b' v) # d) = (n, v) # document_assignments d"
  "document_sections ((b, Assign n b' v) # d) = document_sections d"
  "document_assignments ((b, Script n ls) # d) = document_assignments d"
  "document_sections ((b, Script n ls) # d) = (n, filter (\<lambda>t. \<not> is_comment t) (map snd ls)) # document_sections d"
  by (simp_all add: document_assignments_def document_sections_def List.map_filter_simps)

text \<open>An assignment is read with the empty lines after it.\<close>

definition same_meaning :: "spec_document \<Rightarrow> spec_document \<Rightarrow> bool" where
  "same_meaning d d' \<longleftrightarrow> wf_spec_entries d' \<and> length d' \<le> length d
     \<and> document_assignments d' = document_assignments d \<and> document_sections d' = document_sections d"

lemma not_newline_start:
  assumes "wf_spec_entries d" and "d = [] \<or> snd (hd d) \<noteq> Empty_Line"
  shows "peg spec_grammar n at newline_exp (stripped_text d) = Some None"
proof (rule newline_stop)
  show "stripped_text d = [] \<or> hd (stripped_text d) \<notin> {CHR 0x0A, CHR 0x0D}"
  proof (cases d)
    case (Cons be d')
    obtain b e where be: "be = (b, e)" by (cases be)
    show ?thesis
    proof (cases e)
      case (Assign nm b' v)
      with assms(1) Cons be have "variable_name_ok nm" by simp
      then obtain c cs where "nm = c # cs" "upper_char c" by (rule variable_name_start)
      with Assign Cons be upper_char_apart show ?thesis by simp
    qed (use assms(2) Cons be in simp_all)
  qed simp
qed

lemma empty_lines_read:
  assumes "wf_spec_entries d" and "list_all blank_char b"
  shows "\<exists>b' d'. peg spec_grammar n False (Tail newline_exp) (b @ stripped_text d) = Some (Some ([], b' @ stripped_text d'))
    \<and> list_all blank_char b' \<and> same_meaning d d'"
  using assms
proof (induction d arbitrary: b)
  case Nil
  have "peg spec_grammar n False (Tail newline_exp) (b @ []) = Some (Some ([], b @ []))"
    using Nil by (intro spec_blanks.peg_tail_blanks_done) (simp_all add: newline_stop del: alts.simps)
  with Nil show ?case by (intro exI [of _ b] exI [of _ "[]"]) (simp add: same_meaning_def)
next
  case (Cons be d)
  obtain b0 e where be: "be = (b0, e)" by (cases be)
  show ?case
  proof (cases "e = Empty_Line")
    case True
    have wf: "wf_spec_entries d" using Cons.prems be True by simp
    obtain b' d' where d': "peg spec_grammar n False (Tail newline_exp) (spec_document_text d) = Some (Some ([], b' @ stripped_text d'))"
      "list_all blank_char b'" "same_meaning d d'"
      using Cons.IH [OF wf first_blanks_blank [OF wf]] by (auto simp: spec_document_text_stripped)
    have "peg spec_grammar n False (Tail newline_exp) (b @ CHR 0x0A # spec_document_text d) = Some (Some ([] @ [], b' @ stripped_text d'))"
      by (rule spec_blanks.peg_tail_blanks [OF Cons.prems(2) _ newline_read d'(1)]) (simp add: blank_char_def)
    with d' True be show ?thesis by (intro exI [of _ b'] exI [of _ d']) (auto simp: same_meaning_def)
  next
    case False
    have "peg spec_grammar n False (Tail newline_exp) (b @ stripped_text (be # d)) = Some (Some ([], b @ stripped_text (be # d)))"
      using Cons.prems False be
      by (intro spec_blanks.peg_tail_blanks_done not_newline_start stripped_solid) simp_all
    with Cons.prems show ?thesis by (intro exI [of _ b] exI [of _ "be # d"]) (simp add: same_meaning_def)
  qed
qed

lemma line_breaks_read:
  assumes "wf_spec_entries d"
  shows "\<exists>b' d'. peg spec_grammar n False (Plus newline_exp) (CHR 0x0A # spec_document_text d)
      = Some (Some ([], b' @ stripped_text d')) \<and> list_all blank_char b' \<and> same_meaning d d'"
proof -
  have first: "peg spec_grammar n False (Plus newline_exp) (CHR 0x0A # spec_document_text d)
      = peg spec_grammar n False (Star newline_exp) (stripped_text d)"
    using spec_blanks.peg_seq_blanks [OF newline_read first_blanks_blank stripped_solid] assms
    by (simp add: spec_document_text_stripped)
  show ?thesis
  proof (cases "d = [] \<or> snd (hd d) \<noteq> Empty_Line")
    case True
    with first not_newline_start [OF assms True] assms show ?thesis
      by (intro exI [of _ "[]"] exI [of _ d]) (simp add: peg_star_done same_meaning_def)
  next
    case False
    then obtain b e where d: "d = (b, Empty_Line) # e" by (cases d) auto
    with assms have wf: "wf_spec_entries e" by simp
    obtain b' d' where "peg spec_grammar n False (Tail newline_exp) (spec_document_text e) = Some (Some ([], b' @ stripped_text d'))"
      "list_all blank_char b'" "same_meaning e d'"
      using empty_lines_read [OF wf first_blanks_blank [OF wf], of n] by (auto simp: spec_document_text_stripped)
    with first d peg_star_more [OF newline_read, of spec_grammar n "spec_document_text e"] show ?thesis
      by (intro exI [of _ b'] exI [of _ d']) (auto simp: same_meaning_def)
  qed
qed

lemma variables_stop:
  assumes "t = [] \<or> \<not> upper_char (hd t)"
  shows "peg spec_grammar n False (alts [Seq (Rule S_variable) x, Seq (Rule S_multiline_variable) x,
      Seq (Rule S_empty_variable) x, a, b]) t = peg spec_grammar n False (Alt a b) t"
proof -
  have "peg spec_grammar n False (Rule r) t = Some None" if "r \<in> {S_variable, S_multiline_variable, S_empty_variable}" for r
    using that variable_name_stop [OF assms] by (intro peg_rule_fail) (auto intro!: peg_seq_fail)
  then show ?thesis by (simp add: peg_alt_second peg_seq_fail)
qed

lemma section_stop: "\<not> prefix ''%'' t \<Longrightarrow> peg spec_grammar n False (Rule S_section) t = Some None"
  by (rule peg_rule_fail) (simp add: peg_seq_fail peg_lit_fail)

lemma spec_entry_stop: "peg spec_grammar n False spec_entry_exp [] = Some None"
  unfolding variables_stop [OF disjI1 [OF refl]]
  by (simp add: section_stop peg_alt_second newline_stop [of "[]", simplified])

text \<open>\<open>part_read d ts d'\<close>: the pairs \<open>ts\<close> say what \<open>d\<close> says before \<open>d'\<close>.\<close>

definition part_read :: "spec_document \<Rightarrow> spec_rule pair list \<Rightarrow> spec_document \<Rightarrow> bool" where
  "part_read d ts d' \<longleftrightarrow> wf_spec_entries d' \<and> length d' < length d
     \<and> (\<exists>vs ss. tells ts vs ss \<and> document_assignments d = vs @ document_assignments d'
          \<and> document_sections d = ss @ document_sections d')"

lemma spec_entry_read:
  assumes "wf_spec_entries (x # d)"
  shows "\<exists>ts b' d'. peg spec_grammar n False spec_entry_exp (stripped_text (x # d)) = Some (Some (ts, b' @ stripped_text d'))
    \<and> list_all blank_char b' \<and> part_read (x # d) ts d'"
proof -
  obtain b0 e where x: "x = (b0, e)" by (cases x)
  with assms have wf: "wf_spec_entries d" and e: "wf_spec_entry e" by simp_all
  show ?thesis
  proof (cases e)
    case Empty_Line
    have "peg spec_grammar n False spec_entry_exp (CHR 0x0A # spec_document_text d) = Some (Some ([], spec_document_text d))"
      by (subst variables_stop)
        (simp_all add: upper_char_def char_range_def byte_class_def section_stop peg_alt_second newline_read [simplified])
    with wf x Empty_Line first_blanks_blank [OF wf] show ?thesis
      by (intro exI [of _ "[]"] exI [of _ "first_blanks d"] exI [of _ d])
        (auto simp: spec_document_text_stripped part_read_def intro!: exI [of _ "[]"])
  next
    case (Assign nm b v)
    with e have a: "variable_name_ok nm" "list_all blank_char b" "spec_text v" by simp_all
    have "line_end (CHR 0x0A # spec_document_text d)" "solid (CHR 0x0A # spec_document_text d)"
      by (simp_all add: line_end_def blank_char_def)
    note var = spec_blanks.peg_seq_solid [OF assign_read [OF a this(1)] this(2)]
    obtain b' d' where d': "peg spec_grammar n False (Plus newline_exp) (CHR 0x0A # spec_document_text d)
        = Some (Some ([], b' @ stripped_text d'))" "list_all blank_char b'" "same_meaning d d'"
      using line_breaks_read [OF wf] by blast
    have "peg spec_grammar n False (Seq (Rule S_variable) (Plus newline_exp)) (stripped_text (x # d))
        = Some (Some ([assign_tree nm b v], b' @ stripped_text d'))"
      using var [of n "Plus newline_exp"] d'(1) x Assign by simp
    with d' x Assign tells_assign [of nm b v] show ?thesis
      by (intro exI [of _ "[assign_tree nm b v]"] exI [of _ b'] exI [of _ d'])
        (auto simp: peg_alt_first part_read_def same_meaning_def intro!: exI [of _ "[(nm, v)]"] exI [of _ "[]"])
  next
    case (Script nm ls)
    with e have a: "section_name_ok nm" "ls \<noteq> []" "list_all wf_script_line ls" by simp_all
    have "d = [] \<or> snd (hd d) = Empty_Line" using assms x Script by simp
    then have stop: "line_end (stripped_text d)" by (cases d) (auto simp: line_end_def)
    obtain u b' where u: "peg spec_grammar n False (Rule S_section) (stripped_text (x # d))
        = Some (Some ([Pair S_section u (Pair S_section_name nm [] # map script_line_tree ls)], b' @ stripped_text d))"
      "list_all blank_char b'"
      using section_read [OF a first_blanks_blank [OF wf] stop, of n] x Script by (auto simp: spec_document_text_stripped)
    have "peg spec_grammar n False spec_entry_exp (stripped_text (x # d)) =
        peg spec_grammar n False (Alt (Rule S_section) newline_exp) (stripped_text (x # d))"
      by (subst variables_stop) (simp_all add: x Script upper_char_def char_range_def byte_class_def)
    with u wf tells_section [of u nm ls] x Script show ?thesis
      by (intro exI [of _ "[Pair S_section u (Pair S_section_name nm [] # map script_line_tree ls)]"] exI [of _ b'] exI [of _ d])
        (auto simp: peg_alt_first part_read_def intro!: exI [of _ "[]"])
  qed
qed

lemma part_read_append:
  assumes "part_read d ts d'" and "tells ts' (document_assignments d') (document_sections d')"
  shows "tells (ts @ ts') (document_assignments d) (document_sections d)"
  using assms tells_append unfolding part_read_def by metis

lemma spec_entries_read:
  assumes "wf_spec_entries d" and "list_all blank_char b"
  shows "\<exists>ts b'. peg spec_grammar n False (Tail spec_entry_exp) (b @ stripped_text d) = Some (Some (ts, b'))
    \<and> list_all blank_char b' \<and> tells ts (document_assignments d) (document_sections d)"
  using assms
proof (induction "length d" arbitrary: d b rule: less_induct)
  case less
  show ?case
  proof (cases d)
    case Nil
    with less.prems(2) spec_blanks.peg_tail_blanks_done [OF less.prems(2) solid_Nil spec_entry_stop, of n]
    show ?thesis by (intro exI [of _ "[]"] exI [of _ b]) simp
  next
    case (Cons x e)
    obtain ts b' d' where d': "peg spec_grammar n False spec_entry_exp (stripped_text d) = Some (Some (ts, b' @ stripped_text d'))"
      "list_all blank_char b'" "part_read d ts d'"
      using spec_entry_read [of x e n] less.prems(1) Cons by blast
    obtain ts' b'' where "peg spec_grammar n False (Tail spec_entry_exp) (b' @ stripped_text d') = Some (Some (ts', b''))"
      "list_all blank_char b''" "tells ts' (document_assignments d') (document_sections d')"
      using less.hyps [of d' b'] d' by (auto simp: part_read_def)
    with d' part_read_append spec_blanks.peg_tail_blanks [OF less.prems(2) stripped_solid [OF less.prems(1)] d'(1)]
    show ?thesis by blast
  qed
qed

lemma spec_entries_star:
  assumes "wf_spec_entries d"
  shows "\<exists>ts b'. peg spec_grammar n False (Star spec_entry_exp) (stripped_text d) = Some (Some (ts, b'))
    \<and> list_all blank_char b' \<and> tells ts (document_assignments d) (document_sections d)"
  using spec_entries_read [OF assms, of "[]" n] spec_blanks.peg_star_solid [OF stripped_solid [OF assms]] by auto

lemma spec_file_read:
  assumes "wf_spec_document d"
  shows "\<exists>ts. peg spec_grammar (length (spec_document_text d)) False (Rule S_file) (spec_document_text d)
      = Some (Some (ts @ [Pair S_EOI [] []], [])) \<and> tells ts (document_assignments d) (document_sections d)"
proof -
  define n where "n = length (spec_document_text d)"
  obtain x e where d: "d = x # e" and wf: "wf_spec_entries d" using assms by (cases d) (auto simp: wf_spec_document_def)
  obtain ts b1 d' where d': "peg spec_grammar n False spec_entry_exp (stripped_text d) = Some (Some (ts, b1 @ stripped_text d'))"
    "list_all blank_char b1" "part_read d ts d'"
    using spec_entry_read [of x e n] wf d by blast
  from d'(3) have wf': "wf_spec_entries d'" by (simp add: part_read_def)
  obtain ts' b2 where rest: "peg spec_grammar n False (Star spec_entry_exp) (stripped_text d') = Some (Some (ts', b2))"
    "list_all blank_char b2" "tells ts' (document_assignments d') (document_sections d')"
    using spec_entries_star [OF wf', of n] by blast
  have "peg spec_grammar n False (Plus spec_entry_exp) (stripped_text d) = Some (Some (ts @ ts', b2 @ []))"
    using spec_blanks.peg_seq_blanks [OF d'(1,2) stripped_solid [OF wf']] rest(1) by simp
  then have "peg spec_grammar n False (Seq (Plus spec_entry_exp) Eoi) (stripped_text d)
      = append_peg (ts @ ts') (peg spec_grammar n False Eoi [])"
    by (rule spec_blanks.peg_seq_blanks [OF _ rest(2) solid_Nil])
  also have "peg spec_grammar n False Eoi [] = Some (Some ([Pair S_EOI [] []], []))" by (simp add: reading)
  finally have "peg spec_grammar n False (Seq (Plus spec_entry_exp) Eoi) (stripped_text d)
      = Some (Some ((ts @ ts') @ [Pair S_EOI [] []], []))" by simp
  moreover have "peg spec_grammar n False Soi (spec_document_text d) = Some (Some ([], first_blanks d @ stripped_text d))"
    by (simp add: reading n_def spec_document_text_stripped)
  ultimately have "peg spec_grammar n False (spec_rule_body S_file) (spec_document_text d)
      = Some (Some ((ts @ ts') @ [Pair S_EOI [] []], []))"
    using spec_blanks.peg_seq_blanks [OF _ first_blanks_blank [OF wf] stripped_solid [OF wf]] by simp
  then have "peg spec_grammar n False (Rule S_file) (spec_document_text d) = Some (Some ((ts @ ts') @ [Pair S_EOI [] []], []))"
    by (subst peg_equations) simp
  with part_read_append [OF d'(3) rest(3)] show ?thesis unfolding n_def by blast
qed

lemma readable_sections:
  assumes "tells ts vs ss"
  shows "list_all readable (ts @ [Pair S_EOI [] []]) \<longleftrightarrow> (\<forall>(n, ls) \<in> set ss. n \<in> set known_sections \<or> ls = [])"
proof -
  have all: "(\<forall>(n, ls) \<in> set (spec_sections ts). P n ls) \<longleftrightarrow>
      (\<forall>p \<in> set ts. as_rule p = S_section \<longrightarrow> P (pair_text S_section_name (into_inner p)) (section_lines p))" for P
    by (auto simp: spec_sections_def)
  have "readable p \<longleftrightarrow> (as_rule p = S_section \<longrightarrow>
      pair_text S_section_name (into_inner p) \<in> set known_sections \<or> section_lines p = [])" if "p \<in> set ts" for p
    using assms that unfolding tells_def list_all_iff readable_def by fastforce
  then have "list_all readable ts \<longleftrightarrow> (\<forall>(n, ls) \<in> set (spec_sections ts). n \<in> set known_sections \<or> ls = [])"
    unfolding all list_all_iff by blast
  moreover have "readable (Pair S_EOI [] [])" by (simp add: readable_def)
  ultimately show ?thesis using assms unfolding tells_def by simp
qed

lemma spec_document_outcome:
  assumes "peg_parser spec_grammar parse" and "wf_spec_document d"
    and "\<forall>(n, ls) \<in> set (document_sections d). length ls < 2 ^ 31"
  shows "if \<forall>(n, ls) \<in> set (document_sections d). n \<in> set known_sections \<or> ls = []
    then spec_parse parse (spec_document_text d) = Ok (spec_fields (document_assignments d) (document_sections d))
    else is_panic (spec_parse parse (spec_document_text d))"
proof -
  obtain ts where run: "peg spec_grammar (length (spec_document_text d)) False (Rule S_file) (spec_document_text d)
      = Some (Some (ts @ [Pair S_EOI [] []], []))" and ts: "tells ts (document_assignments d) (document_sections d)"
    using spec_file_read [OF assms(2)] by blast
  have "parse S_file (spec_document_text d) = Ok (ts @ [Pair S_EOI [] []])"
    using peg_parser.parse_match [OF assms(1) run] .
  moreover have parts: "spec_assignments (ts @ [Pair S_EOI [] []]) = document_assignments d"
    "spec_sections (ts @ [Pair S_EOI [] []]) = document_sections d"
    using ts by (simp_all add: tells_def spec_assignments_def spec_sections_def)
  ultimately have "if list_all readable (ts @ [Pair S_EOI [] []])
      then spec_parse parse (spec_document_text d) = Ok (spec_of (ts @ [Pair S_EOI [] []]))
      else is_panic (spec_parse parse (spec_document_text d))"
    using assms(3) by (intro parsed_pairs peg_parser.axioms(1) [OF assms(1)]) simp_all
  then show ?thesis unfolding readable_sections [OF ts] spec_of_def parts .
qed

section \<open>Properties\<close>

text \<open>
  C6: reading the text of a spec file. Every well-formed document is read as its assignments and sections, whatever
  blanks it has: a known variable is the last value assigned to it, a script is the lines of its sections without
  the comment lines and without the blanks in front of each line, joined by line feeds. If a section that is
  not one of the six known ones has a line that is not a comment, reading panics.
\<close>

theorem spec_document_parse:
  assumes "peg_parser spec_grammar parse" and "wf_spec_document d"
    and "\<forall>(n, ls) \<in> set (document_sections d). length ls < 2 ^ 31"
  shows "if \<forall>(n, ls) \<in> set (document_sections d). n \<in> set known_sections \<or> ls = []
    then spec_parse parse (spec_document_text d) = Ok (spec_fields (document_assignments d) (document_sections d))
    else is_panic (spec_parse parse (spec_document_text d))"
  using assms by (rule spec_document_outcome)

lemma sample_spec_peg: "peg_parser spec_grammar sample_spec_parse"
  unfolding sample_spec_parse_def by (rule ref_peg.peg_parser_axioms)

definition sample_spec_document :: spec_document where
  "sample_spec_document = [([], Assign ''Name'' '' '' ''x''), ([], Assign ''Name'' '' '' ''y''), ('' '', Empty_Line),
     ([], Script ''build'' [([], ''# comment''), ('' '', ''make %{dir}''), ([], ''make install'')])]"

theorem spec_document_parse_witness:
  "\<exists>spec. spec_parse sample_spec_parse (spec_document_text sample_spec_document) = Ok spec \<and> spec_name spec = ''y''
     \<and> build_script spec = ''make %{dir}'' @ [CHR 0x0A] @ ''make install''"
proof -
  have "wf_spec_document sample_spec_document" by code_simp
  moreover have ss: "document_sections sample_spec_document = [(''build'', [''make %{dir}'', ''make install''])]"
    and vs: "document_assignments sample_spec_document = [(''Name'', ''x''), (''Name'', ''y'')]" by code_simp+
  ultimately have "spec_parse sample_spec_parse (spec_document_text sample_spec_document)
      = Ok (spec_fields (document_assignments sample_spec_document) (document_sections sample_spec_document))"
    using spec_document_parse [OF sample_spec_peg, of sample_spec_document] by simp
  then show ?thesis
    by (simp add: spec_fields_def ss vs value_of_def script_of_def texts_of_def)
qed

text \<open>
  A section ends at an empty line only: a header right after the last line of a section is a line of that section,
  and the script it announces is lost.
\<close>

lemma section_header_swallowed:
  "(case spec_parse sample_spec_parse
      (''%prep'' @ [CHR 0x0A] @ ''a'' @ [CHR 0x0A] @ ''%build'' @ [CHR 0x0A] @ ''b'' @ [CHR 0x0A]) of
      Ok spec \<Rightarrow> prep_script spec = ''a'' @ [CHR 0x0A] @ ''%build'' @ [CHR 0x0A] @ ''b'' \<and> build_script spec = []
    | _ \<Rightarrow> False)"
  by code_simp

end
