(* ===== verification/Specfile_Macro_Text.thy ===== *)
theory Specfile_Macro_Text
  imports Specfile_Macros Pest_Text
begin

text \<open>
  The lines of a script as text: words, macros \<^verbatim>\<open>%{name}\<close> and \<^verbatim>\<open>%name\<close>, and blanks. The theorem says what replacing
  the macros of such a line gives, for every parser that makes the choices of \<^verbatim>\<open>macro.pest\<close>. The first part of
  that grammar's rule \<^verbatim>\<open>file\<close>, \<^verbatim>\<open>text*\<close>, takes every word up to the first macro and gives none back, so the part
  after it has nothing to match in a line without macros.
\<close>

section \<open>Lines\<close>

datatype token = Token_Word string | Token_Braced string | Token_Bare string

fun token_text :: "token \<Rightarrow> string" where
  "token_text (Token_Word w) = w"
| "token_text (Token_Braced m) = ''%{'' @ m @ ''}''"
| "token_text (Token_Bare m) = ''%'' @ m"

fun is_word :: "token \<Rightarrow> bool" where
  "is_word (Token_Word w) = True"
| "is_word _ = False"

fun token_piece :: "token \<Rightarrow> piece" where
  "token_piece (Token_Word w) = Word w"
| "token_piece (Token_Braced m) = Use m"
| "token_piece (Token_Bare m) = Use m"

text \<open>A line is tokens, each with the blanks in front of it, and the blanks at its end.\<close>

type_synonym macro_tokens = "(string \<times> token) list"

definition tokens_text :: "macro_tokens \<Rightarrow> string" where
  "tokens_text xs = concat (map (\<lambda>(b, t). b @ token_text t) xs)"

definition macro_char :: "char \<Rightarrow> bool" where
  "macro_char c \<longleftrightarrow> ascii_alphanumeric [c] = 1 \<or> c \<in> {CHR ''.'', CHR ''_'', CHR ''/'', CHR ''-'', CHR ''='', CHR ''>'',
     CHR ''<'', CHR ''!'', CHR 0x27, CHR ''#'', CHR 0x22}"

fun token_name :: "token \<Rightarrow> string" where
  "token_name (Token_Word w) = w"
| "token_name (Token_Braced m) = m"
| "token_name (Token_Bare m) = m"

fun wf_token :: "token \<Rightarrow> bool" where
  "wf_token t \<longleftrightarrow> token_name t \<noteq> [] \<and> list_all macro_char (token_name t)"

text \<open>A word that follows a word or a bare macro is separated from it by blanks.\<close>

fun ends_open :: "token \<Rightarrow> bool" where
  "ends_open (Token_Braced m) = False"
| "ends_open _ = True"

fun wf_tokens :: "macro_tokens \<Rightarrow> bool" where
  "wf_tokens [] = True"
| "wf_tokens ((b, t) # xs) \<longleftrightarrow> list_all blank_char b \<and> wf_token t \<and> wf_tokens xs
     \<and> (ends_open t \<longrightarrow> xs \<noteq> [] \<longrightarrow> is_word (snd (hd xs)) \<longrightarrow> fst (hd xs) \<noteq> [])"

section \<open>Reading the parts\<close>

interpretation macro_blanks: blank_grammar macro_grammar Q_WHITESPACE
  by unfold_locales (simp_all add: macro_grammar_def)

lemma macro_char_read: "peg macro_grammar n True (Rule Q_char) (c # s) = Some (if macro_char c then Some ([], s) else None)"
  by (auto simp: reading macro_char_def ascii_alphanumeric_def byte_class_def)

lemma macro_char_Nil: "peg macro_grammar n True (Rule Q_char) [] = Some None"
  by (simp add: reading ascii_alphanumeric_def byte_class_def)

lemma macro_char_apart:
  assumes "macro_char c"
  shows "\<not> blank_char c" "c \<noteq> CHR ''%''" "c \<noteq> CHR ''{''" "c \<noteq> CHR ''}''" "c \<noteq> CHR ''(''"
  using assms by (auto simp: macro_char_def blank_char_def ascii_alphanumeric_def byte_class_def)

text \<open>What ends a run of characters.\<close>

definition no_macro_char :: "string \<Rightarrow> bool" where
  "no_macro_char t \<longleftrightarrow> t = [] \<or> \<not> macro_char (hd t)"

lemma macro_chars_read:
  assumes "k \<noteq> []" and "list_all macro_char k" and "no_macro_char t"
  shows "peg macro_grammar n True (Plus (Rule Q_char)) (k @ t) = Some (Some ([], t))"
proof (rule peg_plus_chars [OF _ _ assms(1)])
  show "peg macro_grammar n True (Rule Q_char) t = Some None"
    using assms(3) by (cases t) (auto simp: no_macro_char_def macro_char_read macro_char_Nil)
qed (use assms(2) in \<open>simp add: macro_char_read list_all_iff\<close>)

lemma macro_chars_stop: "no_macro_char t \<Longrightarrow> peg macro_grammar n True (Plus (Rule Q_char)) t = Some None"
  by (cases t) (auto simp: no_macro_char_def peg_seq_fail macro_char_read macro_char_Nil)

lemma word_read:
  assumes "k \<noteq> []" and "list_all macro_char k" and "no_macro_char t"
  shows "peg macro_grammar n False (Rule Q_text) (k @ t) = Some (Some ([Pair Q_text k []], t))"
  by (rule peg_rule_atomic) (simp_all add: peg_alt_first macro_chars_read [OF assms])

text \<open>Where no word begins.\<close>

definition no_word :: "string \<Rightarrow> bool" where
  "no_word t \<longleftrightarrow> t = [] \<or> hd t = CHR ''%''"

lemma no_wordD:
  assumes "no_word t"
  shows "no_macro_char t" "solid t" "t = [] \<or> hd t \<notin> {CHR 0x0A, CHR 0x0D}"
  using assms by (cases t; auto simp: no_word_def no_macro_char_def macro_char_def ascii_alphanumeric_def
      byte_class_def blank_char_def)+

lemma word_stop:
  assumes "no_word t"
  shows "peg macro_grammar n False (Rule Q_text) t = Some None"
proof (rule peg_rule_fail)
  note stop = no_wordD [OF assms]
  have "peg macro_grammar n True newline_exp t = Some None" using stop(3) by (rule newline_stop)
  with macro_chars_stop [OF stop(1)] macro_blanks.blank_char_stop [OF stop(2)]
  show "peg macro_grammar n (False \<or> rule_ty macro_grammar Q_text = Atomic) (rule_body macro_grammar Q_text) t = Some None"
    by (simp add: peg_alt_second)
qed

lemma macro_name_read:
  assumes "k \<noteq> []" and "list_all macro_char k" and "no_macro_char t"
  shows "peg macro_grammar n False (Rule Q_macro_name) (k @ t) = Some (Some ([Pair Q_macro_name k []], t))"
  by (rule peg_rule_atomic) (simp_all add: macro_chars_read [OF assms])

lemma macro_name_stop: "no_macro_char t \<Longrightarrow> peg macro_grammar n False (Rule Q_macro_name) t = Some None"
  by (rule peg_rule_fail) (simp add: macro_chars_stop)

subsection \<open>Macros\<close>

text \<open>What may follow a macro: blanks, and then no opening parenthesis.\<close>

definition after_macro :: "string \<Rightarrow> bool" where
  "after_macro s \<longleftrightarrow> (\<exists>b t. s = b @ t \<and> list_all blank_char b \<and> solid t \<and> \<not> prefix ''('' t)"

lemma after_macroI: "list_all blank_char b \<Longrightarrow> solid t \<Longrightarrow> \<not> prefix ''('' t \<Longrightarrow> after_macro (b @ t)"
  by (auto simp: after_macro_def)

lemma macro_parameters_stop:
  assumes "peg macro_grammar n False a s = Some (Some (t1, s1))" and "after_macro s1"
  shows "peg macro_grammar n False (Seq a (Seq (Lit ''('') e)) s = Some None"
proof -
  obtain b t where s1: "s1 = b @ t" "list_all blank_char b" "solid t" "\<not> prefix ''('' t"
    using assms(2) by (auto simp: after_macro_def)
  from macro_blanks.peg_seq_blanks [OF assms(1) [unfolded s1(1)] s1(2,3)] s1(4) show ?thesis
    by (simp add: peg_seq_fail peg_lit_fail)
qed

definition macro_tree :: "token \<Rightarrow> macro_rule pair" where
  "macro_tree t = Pair Q_text_with_macros (token_text t) [Pair Q_spec_macro (token_text t) [Pair Q_macro_name (token_name t) []]]"

lemma braced_read:
  assumes "m \<noteq> []" and "list_all macro_char m"
  shows "peg macro_grammar n False (macro_rule_body Q_spec_macro) (''%{'' @ m @ ''}'' @ t)
    = Some (Some ([Pair Q_macro_name m []], t))"
proof -
  let ?s = "''%{'' @ m @ ''}'' @ t"
  have close: "no_macro_char (CHR ''}'' # t)" "solid (CHR ''}'' # t)" "after_macro (CHR ''}'' # t)"
    using after_macroI [of "[]" "CHR ''}'' # t"]
    by (simp_all add: no_macro_char_def macro_char_def ascii_alphanumeric_def byte_class_def blank_char_def)
  have m: "solid (m @ s)" for s using assms macro_char_apart(1) by (cases m) simp_all
  note name = macro_name_read [OF assms close(1)]
  have open_brace: "peg macro_grammar n False (Seq (Lit ''%{'') e) ?s = peg macro_grammar n False e (m @ CHR ''}'' # t)" for e
    using macro_blanks.peg_seq_solid [OF peg_lit m, of n "''%{''" e "CHR ''}'' # t"] by simp
  have bare: "peg macro_grammar n False (Seq (Lit ''%'') (Seq (Rule Q_macro_name) e)) ?s = Some None" for e
    using macro_blanks.peg_seq_solid [OF peg_lit_char, of "CHR ''{'' # m @ CHR ''}'' # t" n "CHR ''%''"]
    by (simp add: blank_char_def peg_seq_fail macro_name_stop no_macro_char_def macro_char_def ascii_alphanumeric_def byte_class_def)
  have "peg macro_grammar n False (macro_rule_body Q_spec_macro_with_parameters) ?s = Some None"
    using open_brace macro_parameters_stop [OF name close(3)] bare by (simp add: peg_alt_second)
  moreover have "peg macro_grammar n False (Seq (Lit ''%{'') (Seq (Rule Q_macro_name) (Lit ''}''))) ?s
      = Some (Some ([Pair Q_macro_name m []], t))"
    using open_brace macro_blanks.peg_seq_solid [OF name close(2)] by (simp add: peg_lit_char)
  then have "peg macro_grammar n False (macro_rule_body Q_spec_macro_without_parameters) ?s = Some (Some ([Pair Q_macro_name m []], t))"
    by (simp add: peg_alt_first)
  ultimately show ?thesis by (simp add: peg_alt_second peg_rule_silent del: macro_rule_body.simps(9,10))
qed

lemma bare_read:
  assumes "m \<noteq> []" and "list_all macro_char m" and "no_macro_char t" and "after_macro t"
  shows "peg macro_grammar n False (macro_rule_body Q_spec_macro) (''%'' @ m @ t) = Some (Some ([Pair Q_macro_name m []], t))"
proof -
  let ?s = "''%'' @ m @ t"
  have m: "solid (m @ t)" "\<not> prefix ''%{'' ?s" using assms(1,2) macro_char_apart by (cases m; auto)+
  note name = macro_name_read [OF assms(1-3)]
  have braced: "peg macro_grammar n False (Seq (Lit ''%{'') e) ?s = Some None" for e
    using m(2) by (intro peg_seq_fail peg_lit_fail)
  have bare: "peg macro_grammar n False (Seq (Lit ''%'') e) ?s = peg macro_grammar n False e (m @ t)" for e
    using macro_blanks.peg_seq_solid [OF peg_lit_char m(1)] by simp
  have "peg macro_grammar n False (macro_rule_body Q_spec_macro_with_parameters) ?s = Some None"
    using braced bare macro_parameters_stop [OF name assms(4)] by (simp add: peg_alt_second)
  moreover have "peg macro_grammar n False (macro_rule_body Q_spec_macro_without_parameters) ?s = Some (Some ([Pair Q_macro_name m []], t))"
    using braced bare name by (simp add: peg_alt_second)
  ultimately show ?thesis by (simp add: peg_alt_second peg_rule_silent del: macro_rule_body.simps(9,10))
qed

lemma macro_read:
  assumes "wf_token t" and "\<not> is_word t" and "ends_open t \<Longrightarrow> no_macro_char s" and "after_macro s"
  shows "peg macro_grammar n False (Rule Q_text_with_macros) (token_text t @ s) = Some (Some ([macro_tree t], s))"
  unfolding macro_tree_def
proof (rule peg_rule_normal)
  have "\<not> prefix ''%('' (token_text t @ s)"
    using assms(1,2) macro_char_apart(5) by (cases t; cases "token_name t") auto
  then have "peg macro_grammar n False (Rule Q_function) (token_text t @ s) = Some None"
    by (intro peg_rule_fail) (simp add: peg_seq_fail peg_lit_fail)
  moreover have "peg macro_grammar n False (macro_rule_body Q_spec_macro) (token_text t @ s)
      = Some (Some ([Pair Q_macro_name (token_name t) []], s))"
    using assms braced_read [of _ n s] bare_read [of _ s n] by (cases t) simp_all
  then have "peg macro_grammar n False (Rule Q_spec_macro) (token_text t @ s)
      = Some (Some ([Pair Q_spec_macro (token_text t) [Pair Q_macro_name (token_name t) []]], s))"
    by (intro peg_rule_normal) simp_all
  ultimately show "peg macro_grammar n False (rule_body macro_grammar Q_text_with_macros) (token_text t @ s)
      = Some (Some ([Pair Q_spec_macro (token_text t) [Pair Q_macro_name (token_name t) []]], s))"
    by (simp add: peg_alt_second peg_alt_first)
qed simp

section \<open>Reading a line\<close>

abbreviation item_exp :: "macro_rule pexp" where
  "item_exp \<equiv> Alt (Rule Q_text) (Rule Q_text_with_macros)"

definition token_tree :: "token \<Rightarrow> macro_rule pair" where
  "token_tree t = (if is_word t then Pair Q_text (token_text t) [] else macro_tree t)"

text \<open>A line with the blanks \<open>e\<close> at its end, without the blanks at its start.\<close>

definition lead :: "macro_tokens \<Rightarrow> string \<Rightarrow> string" where
  "lead xs e = (case xs of [] \<Rightarrow> e | (b, t) # _ \<Rightarrow> b)"

definition body :: "macro_tokens \<Rightarrow> string \<Rightarrow> string" where
  "body xs e = (case xs of [] \<Rightarrow> [] | (b, t) # xs' \<Rightarrow> token_text t @ tokens_text xs' @ e)"

lemma tokens_text_simps [simp]: "tokens_text [] = []" "tokens_text ((b, t) # xs) = b @ token_text t @ tokens_text xs"
  by (simp_all add: tokens_text_def)

lemma body_simps [simp]: "body [] e = []" "body ((b, t) # xs) e = token_text t @ tokens_text xs @ e"
  by (simp_all add: body_def)

lemma tokens_text_body: "tokens_text xs @ e = lead xs e @ body xs e"
  by (cases xs) (auto simp: lead_def)

lemma lead_blank: "wf_tokens xs \<Longrightarrow> list_all blank_char e \<Longrightarrow> list_all blank_char (lead xs e)"
  by (cases xs) (auto simp: lead_def)

lemma body_start:
  assumes "wf_tokens xs"
  shows "solid (body xs e)" "\<not> prefix ''('' (body xs e)" "xs = [] \<or> \<not> is_word (snd (hd xs)) \<Longrightarrow> no_word (body xs e)"
proof -
  have "solid (body xs e) \<and> \<not> prefix ''('' (body xs e) \<and> (xs = [] \<or> \<not> is_word (snd (hd xs)) \<longrightarrow> no_word (body xs e))"
  proof (cases xs)
    case (Cons x xs')
    obtain b t where x: "x = (b, t)" by (cases x)
    show ?thesis
    proof (cases t)
      case (Token_Word w)
      with Cons x assms obtain c w' where "w = c # w'" "macro_char c" by (cases w) auto
      with Cons x Token_Word macro_char_apart [of c] show ?thesis by auto
    qed (simp_all add: Cons x no_word_def blank_char_def)
  qed (simp add: no_word_def)
  then show "solid (body xs e)" "\<not> prefix ''('' (body xs e)" "xs = [] \<or> \<not> is_word (snd (hd xs)) \<Longrightarrow> no_word (body xs e)"
    by blast+
qed

lemma rest_after_macro: "wf_tokens xs \<Longrightarrow> list_all blank_char e \<Longrightarrow> after_macro (tokens_text xs @ e)"
  unfolding tokens_text_body by (intro after_macroI lead_blank body_start)

lemma rest_no_macro_char:
  assumes "wf_tokens ((b, t) # xs)" and "ends_open t" and "list_all blank_char e"
  shows "no_macro_char (tokens_text xs @ e)"
proof (cases "lead xs e = []")
  case True
  with assms have "xs = [] \<or> \<not> is_word (snd (hd xs))" by (cases xs) (auto simp: lead_def)
  with True assms(1) body_start(3) [of xs e] no_wordD(1) show ?thesis by (simp add: tokens_text_body)
next
  case False
  then obtain c l where "lead xs e = c # l" "blank_char c"
    using lead_blank [of xs e] assms by (cases "lead xs e") auto
  with macro_char_apart(1) show ?thesis by (auto simp: tokens_text_body no_macro_char_def)
qed

lemma word_item_read:
  assumes "wf_tokens ((b, t) # xs)" and "list_all blank_char e" and "is_word t"
  shows "peg macro_grammar n False (Rule Q_text) (body ((b, t) # xs) e) = Some (Some ([token_tree t], tokens_text xs @ e))"
proof -
  obtain w where t: "t = Token_Word w" using assms(3) by (cases t) auto
  have "no_macro_char (tokens_text xs @ e)" using rest_no_macro_char [OF assms(1) _ assms(2)] by (simp add: t)
  with assms t show ?thesis by (simp add: word_read token_tree_def)
qed

lemma macro_item_read:
  assumes "wf_tokens ((b, t) # xs)" and "list_all blank_char e"
  shows "peg macro_grammar n False item_exp (body ((b, t) # xs) e) = Some (Some ([token_tree t], tokens_text xs @ e))"
proof (cases "is_word t")
  case True
  with word_item_read [OF assms] show ?thesis by (simp add: peg_alt_first)
next
  case False
  have "no_word (body ((b, t) # xs) e)" using body_start(3) [OF assms(1)] False by simp
  with peg_alt_second [OF word_stop] have "peg macro_grammar n False item_exp (body ((b, t) # xs) e)
      = peg macro_grammar n False (Rule Q_text_with_macros) (body ((b, t) # xs) e)" by blast
  also have "\<dots> = Some (Some ([macro_tree t], tokens_text xs @ e))"
    using assms False rest_no_macro_char [OF assms(1) _ assms(2)] rest_after_macro [of xs e]
    by (simp add: macro_read del: wf_token.simps)
  finally show ?thesis using False by (simp add: token_tree_def)
qed

lemma item_stop: "peg macro_grammar n False item_exp [] = Some None"
proof -
  have "peg macro_grammar n False (Rule Q_text_with_macros) [] = Some None"
    by (intro peg_rule_fail) (simp add: reading)
  with peg_alt_second [OF word_stop, of "[]" n "Rule Q_text_with_macros"] show ?thesis by (simp add: no_word_def)
qed

lemma items_read:
  assumes "wf_tokens xs" and "list_all blank_char e"
  shows "peg macro_grammar n False (Tail item_exp) (tokens_text xs @ e) = Some (Some (map (token_tree \<circ> snd) xs, e))"
  using assms(1)
proof (induction xs)
  case Nil
  show ?case using macro_blanks.peg_tail_blanks_done [OF assms(2) solid_Nil item_stop] by simp
next
  case (Cons x xs)
  obtain b t where x: "x = (b, t)" by (cases x)
  with Cons have b: "list_all blank_char b" and IH: "peg macro_grammar n False (Tail item_exp) (tokens_text xs @ e)
      = Some (Some (map (token_tree \<circ> snd) xs, e))" by simp_all
  from macro_blanks.peg_tail_blanks [OF b body_start(1) macro_item_read IH, of b t] Cons.prems assms(2) x show ?case by simp
qed

lemma items_star:
  assumes "wf_tokens xs" and "list_all blank_char e"
  shows "\<exists>e'. peg macro_grammar n False (Star item_exp) (body xs e) = Some (Some (map (token_tree \<circ> snd) xs, e'))
    \<and> list_all blank_char e'"
proof (cases xs)
  case Nil
  with peg_star_done [OF item_stop, of n] show ?thesis by simp
next
  case (Cons x xs')
  obtain b t where x: "x = (b, t)" by (cases x)
  with peg_star_more [OF macro_item_read items_read, of b t xs' e n] Cons assms show ?thesis by auto
qed

lemma words_read:
  assumes "wf_tokens (ws @ ms)" and "list_all (is_word \<circ> snd) ws" and "ms = [] \<or> \<not> is_word (snd (hd ms))"
    and "list_all blank_char e"
  shows "peg macro_grammar n False (Tail (Rule Q_text)) (tokens_text (ws @ ms) @ e)
    = Some (Some (map (token_tree \<circ> snd) ws, tokens_text ms @ e))"
  using assms(1,2)
proof (induction ws)
  case Nil
  then show ?case
    using macro_blanks.peg_tail_blanks_done [OF lead_blank body_start(1) word_stop [OF body_start(3)]] assms(3,4)
    by (simp add: tokens_text_body)
next
  case (Cons x ws)
  obtain b t where x: "x = (b, t)" by (cases x)
  with Cons have b: "list_all blank_char b" and IH: "peg macro_grammar n False (Tail (Rule Q_text)) (tokens_text (ws @ ms) @ e)
      = Some (Some (map (token_tree \<circ> snd) ws, tokens_text ms @ e))" by simp_all
  from macro_blanks.peg_tail_blanks [OF b body_start(1) word_item_read IH, of b t] Cons.prems assms(4) x show ?case by simp
qed

lemma words_star:
  assumes "wf_tokens (ws @ ms)" and "list_all (is_word \<circ> snd) ws" and "ms = [] \<or> \<not> is_word (snd (hd ms))"
    and "list_all blank_char e"
  shows "\<exists>b. peg macro_grammar n False (Star (Rule Q_text)) (body (ws @ ms) e)
      = Some (Some (map (token_tree \<circ> snd) ws, b @ body ms e)) \<and> list_all blank_char b"
proof (cases ws)
  case Nil
  with assms have "peg macro_grammar n False (Star (Rule Q_text)) (body ms e) = Some (Some ([], body ms e))"
    by (intro peg_star_done word_stop body_start(3)) simp_all
  with Nil show ?thesis by (intro exI [of _ "[]"]) simp
next
  case (Cons x ws')
  obtain b t where x: "x = (b, t)" by (cases x)
  with Cons assms have wf: "wf_tokens ((b, t) # ws' @ ms)" and t: "is_word t" and ws': "list_all (is_word \<circ> snd) ws'"
    and wf': "wf_tokens (ws' @ ms)" by auto
  have "wf_tokens ms" using assms(1) by (induction ws) auto
  with peg_star_more [OF word_item_read [OF wf assms(4) t] words_read [OF wf' ws' assms(3,4)]] Cons x lead_blank assms(4)
  show ?thesis by (intro exI [of _ "lead ms e"]) (simp add: tokens_text_body)
qed

lemma macro_file_read:
  assumes "wf_tokens xs" and "list_all blank_char e" and "line = tokens_text xs @ e"
  shows "if list_all (is_word \<circ> snd) xs then peg macro_grammar (length line) False (Rule Q_file) line = Some None
    else peg macro_grammar (length line) False (Rule Q_file) line
      = Some (Some ([Pair Q_file line (map (token_tree \<circ> snd) xs @ [Pair Q_EOI [] []])], []))"
proof -
  define n ws ms where "n = length line" and "ws = takeWhile (is_word \<circ> snd) xs" and "ms = dropWhile (is_word \<circ> snd) xs"
  have xs: "xs = ws @ ms" by (simp add: ws_def ms_def)
  have ws: "list_all (is_word \<circ> snd) ws" by (auto simp: ws_def list_all_iff dest: set_takeWhileD)
  have ms: "ms = [] \<or> \<not> is_word (snd (hd ms))" using hd_dropWhile [of "is_word \<circ> snd" xs] by (auto simp: ms_def)
  have wfms: "wf_tokens ms" using assms(1) unfolding xs by (induction ws) auto
  let ?plus = "Seq (Plus item_exp) (Seq (Star (Rule Q_text)) Eoi)"
  obtain b where star: "peg macro_grammar n False (Star (Rule Q_text)) (body xs e)
      = Some (Some (map (token_tree \<circ> snd) ws, b @ body ms e))" "list_all blank_char b"
    using words_star [of ws ms e n] assms(1,2) ws ms xs by auto
  have soi: "peg macro_grammar n False Soi line = Some (Some ([], lead xs e @ body xs e))"
    by (simp add: reading n_def assms(3) tokens_text_body)
  have whole: "peg macro_grammar n False (macro_rule_body Q_file) line
      = append_peg (map (token_tree \<circ> snd) ws) (peg macro_grammar n False ?plus (body ms e))"
    using macro_blanks.peg_seq_blanks [OF soi lead_blank [OF assms(1,2)] body_start(1) [OF assms(1)]]
      macro_blanks.peg_seq_blanks [OF star body_start(1) [OF wfms]] by simp
  show ?thesis
  proof (cases ms)
    case Nil
    have "peg macro_grammar n False ?plus [] = Some None" by (intro peg_seq_fail item_stop)
    with Nil whole have "peg macro_grammar n False (Rule Q_file) line = Some None"
      by (intro peg_rule_fail) (simp del: macro_rule_body.simps)
    with Nil xs ws show ?thesis by (simp add: n_def)
  next
    case (Cons x ms')
    obtain b1 t where x: "x = (b1, t)" by (cases x)
    have wf: "wf_tokens ((b1, t) # ms')" "wf_tokens ms'" using wfms Cons x by simp_all
    obtain e' where e': "peg macro_grammar n False (Star item_exp) (body ms' e) = Some (Some (map (token_tree \<circ> snd) ms', e' @ []))"
      "list_all blank_char e'"
      using items_star [OF wf(2) assms(2), of n] by auto
    have "peg macro_grammar n False (Plus item_exp) (body ms e) = Some (Some (map (token_tree \<circ> snd) ms, e' @ []))"
      using macro_blanks.peg_seq_blanks [OF macro_item_read [OF wf(1) assms(2), of n, unfolded tokens_text_body]
          lead_blank [OF wf(2) assms(2)] body_start(1) [OF wf(2)]] e'(1) Cons x by simp
    from macro_blanks.peg_seq_blanks [OF this e'(2) solid_Nil]
    have "peg macro_grammar n False ?plus (body ms e) = append_peg (map (token_tree \<circ> snd) ms)
        (peg macro_grammar n False (Seq (Star (Rule Q_text)) Eoi) [])" .
    also have "peg macro_grammar n False (Seq (Star (Rule Q_text)) Eoi) [] = Some (Some ([Pair Q_EOI [] []], []))"
      using macro_blanks.peg_seq_solid [OF peg_star_done [OF word_stop] solid_Nil, of n] by (simp add: no_word_def reading(4,15))
    finally have "peg macro_grammar n False (macro_rule_body Q_file) (line @ []) = Some (Some (map (token_tree \<circ> snd) xs @ [Pair Q_EOI [] []], []))"
      using whole xs by simp
    then have "peg macro_grammar n False (Rule Q_file) (line @ []) = Some (Some ([Pair Q_file line (map (token_tree \<circ> snd) xs @ [Pair Q_EOI [] []])], []))"
      by (intro peg_rule_normal) simp_all
    moreover have "\<not> list_all (is_word \<circ> snd) xs" using ms Cons xs by auto
    ultimately show ?thesis by (simp add: n_def)
  qed
qed

lemma token_pieces: "wf_tokens xs \<Longrightarrow>
  line_pieces [Pair Q_file line (map (token_tree \<circ> snd) xs @ [Pair Q_EOI [] []])] = map (token_piece \<circ> snd) xs"
proof (induction xs)
  case (Cons x xs)
  obtain b t where x: "x = (b, t)" by (cases x)
  with Cons show ?case
    by (cases t) (simp_all add: line_pieces_def pair_pieces_def token_tree_def macro_tree_def macro_pieces_def)
qed (simp add: line_pieces_def pair_pieces_def)

lemma macro_line_outcome:
  assumes "peg_parser macro_grammar parse" and "wf_tokens xs" and "list_all blank_char e"
  shows "if list_all (is_word \<circ> snd) xs
    then \<exists>err. macro_line parse mp (tokens_text xs @ e) = Err (MacroSyntax err)
    else macro_line parse mp (tokens_text xs @ e) =
      map_res str_trim_end (run_pieces mp (map (token_piece \<circ> snd) xs) [])"
proof (cases "list_all (is_word \<circ> snd) xs")
  case True
  then have "is_err (parse Q_file (tokens_text xs @ e))"
    using macro_file_read [OF assms(2,3) refl] peg_parser.parse_mismatch [OF assms(1)] by simp
  with True show ?thesis
    by (cases "parse Q_file (tokens_text xs @ e)") (simp_all add: macro_line_def)
next
  case False
  then have "parse Q_file (tokens_text xs @ e)
      = Ok [Pair Q_file (tokens_text xs @ e) (map (token_tree \<circ> snd) xs @ [Pair Q_EOI [] []])]"
    using macro_file_read [OF assms(2,3) refl] peg_parser.parse_match [OF assms(1)] by simp
  from macro_line_run [OF peg_parser.axioms(1) [OF assms(1)] this, of mp] False show ?thesis
    by (simp add: token_pieces [OF assms(2)])
qed

text \<open>What stands for a token, and the first macro that is not defined.\<close>

definition token_value :: "MacroParser \<Rightarrow> token \<Rightarrow> string" where
  "token_value mp t =
     (if is_word t then token_name t @ '' ''
      else case fmlookup (macros mp) (token_name t) of Some v \<Rightarrow> v | None \<Rightarrow> [])"

definition undefined_macro :: "MacroParser \<Rightarrow> token \<Rightarrow> bool" where
  "undefined_macro mp t \<longleftrightarrow> \<not> is_word t \<and> fmlookup (macros mp) (token_name t) = None"

lemma token_simps:
  "token_value mp (Token_Word w) = w @ '' ''"
  "token_value mp (Token_Braced m) = (case fmlookup (macros mp) m of Some v \<Rightarrow> v | None \<Rightarrow> [])"
  "token_value mp (Token_Bare m) = (case fmlookup (macros mp) m of Some v \<Rightarrow> v | None \<Rightarrow> [])"
  "\<not> undefined_macro mp (Token_Word w)"
  "undefined_macro mp (Token_Braced m) \<longleftrightarrow> fmlookup (macros mp) m = None"
  "undefined_macro mp (Token_Bare m) \<longleftrightarrow> fmlookup (macros mp) m = None"
  by (simp_all add: token_value_def undefined_macro_def)

lemma run_tokens:
  "run_pieces mp (map (token_piece \<circ> snd) xs) line =
     (case find (undefined_macro mp) (map snd xs) of
        None \<Rightarrow> Ok (line @ concat (map (token_value mp) (map snd xs)))
      | Some t \<Rightarrow> Err (DoesNotExist (token_name t)))"
proof (induction xs arbitrary: line)
  case (Cons x xs)
  then show ?case
    by (cases "snd x") (auto simp: token_simps split: option.splits)
qed simp

section \<open>Properties\<close>

text \<open>
  C10: replacing the macros of a line, from its text. A line of words, macros \<^verbatim>\<open>%{name}\<close> and \<^verbatim>\<open>%name\<close> and blanks
  that has at least one macro becomes its words, each with one space after it, with every macro replaced by
  its definition, without white space at the end; the first macro that is not defined gives the error
  \<^verbatim>\<open>DoesNotExist\<close>. A line without any macro is a syntax error: scripts with a plain line cannot be built.
\<close>

theorem macro_line_from_text:
  assumes "peg_parser macro_grammar parse" and "wf_tokens xs" and "list_all blank_char e"
  shows "if list_all (is_word \<circ> snd) xs
    then \<exists>err. macro_line parse mp (tokens_text xs @ e) = Err (MacroSyntax err)
    else macro_line parse mp (tokens_text xs @ e) =
      (case find (undefined_macro mp) (map snd xs) of
         None \<Rightarrow> Ok (str_trim_end (concat (map (token_value mp) (map snd xs))))
       | Some t \<Rightarrow> Err (DoesNotExist (token_name t)))"
  using macro_line_outcome [OF assms, of mp] by (auto simp: run_tokens split: option.split)

lemma sample_macro_peg: "peg_parser macro_grammar sample_macro_parse"
  unfolding sample_macro_parse_def by (rule ref_peg.peg_parser_axioms)

theorem macro_line_from_text_witness:
  "macro_line sample_macro_parse sample_macros ''cp a%{dir}b  %dir c'' = Ok ''cp a /usrb /usrc''
   \<and> (\<exists>err. macro_line sample_macro_parse sample_macros ''make install'' = Err (MacroSyntax err))"
proof
  let ?xs = "[([], Token_Word ''cp''), ('' '', Token_Word ''a''), ([], Token_Braced ''dir''), ([], Token_Word ''b''),
    (''  '', Token_Bare ''dir''), ('' '', Token_Word ''c'')]"
  have "wf_tokens ?xs" and "str_trim_end ''cp a /usrb /usrc '' = ''cp a /usrb /usrc''" by code_simp+
  then show "macro_line sample_macro_parse sample_macros ''cp a%{dir}b  %dir c'' = Ok ''cp a /usrb /usrc''"
    using macro_line_from_text [OF sample_macro_peg, of ?xs "[]" sample_macros]
    by (simp add: token_simps sample_macros_def fmlookup_of_list)
  let ?ys = "[([], Token_Word ''make''), ('' '', Token_Word ''install'')]"
  have "wf_tokens ?ys" by code_simp
  then show "\<exists>err. macro_line sample_macro_parse sample_macros ''make install'' = Err (MacroSyntax err)"
    using macro_line_from_text [OF sample_macro_peg, of ?ys "[]" sample_macros] by simp
qed

end
