(* ===== verification/Ports_Document.thy ===== *)
theory Ports_Document
  imports Ports_Main Specfile_Text Specfile_Macro_Text
begin

text \<open>
  From the text of a spec file to the script that is run: the spec file reader, the macro parser and the workspace
  composed as \<^verbatim>\<open>run_package_command\<close> composes them. The example is the spec file of the program itself,
  \<^verbatim>\<open>src/ports.spec\<close>.
\<close>

section \<open>The macros of a workspace\<close>

lemma macro_map:
  assumes "hash_iteration entries"
  shows "fold_res macro_entry (entries (get_macros ws)) fmempty = Ok (get_macros ws)"
proof -
  let ?step = "\<lambda>(k, v) t. fmupd k v t"
  have run: "fold_res macro_entry xs t = Ok (fold ?step xs t)" for xs t
    by (rule fold_res_pure) (auto simp: macro_entry_def path_to_str_def hm_insert_def)
  have "fold ?step (entries (get_macros ws)) fmempty = get_macros ws"
    using hash_iteration.pointwise_fold [OF assms, of "\<lambda>_ _ v. v" "get_macros ws" fmempty]
    by (intro fmap_ext) (auto split: option.splits)
  then show ?thesis by (simp only: run)
qed

definition macro_names :: "string list" where
  "macro_names = [''proto_dir'', ''build_dir'', ''source_dir'']"

lemma workspace_macro_defined: "fmlookup (get_macros ws) m = None \<longleftrightarrow> m \<notin> set macro_names"
  by (auto simp: get_macros_def macro_names_def hm_collect_def)

section \<open>Scripts\<close>

text \<open>A line of a script, as tokens and the blanks at its end.\<close>

type_synonym script_line = "macro_tokens \<times> string"

definition line_of :: "script_line \<Rightarrow> string" where
  "line_of l = tokens_text (fst l) @ snd l"

definition wf_line :: "script_line \<Rightarrow> bool" where
  "wf_line l \<longleftrightarrow> wf_tokens (fst l) \<and> list_all blank_char (snd l)"

definition replaceable :: "MacroParser \<Rightarrow> script_line \<Rightarrow> bool" where
  "replaceable mp l \<longleftrightarrow> \<not> list_all (is_word \<circ> snd) (fst l) \<and> list_all (\<lambda>t. \<not> undefined_macro mp (snd t)) (fst l)"

definition replaced_line :: "MacroParser \<Rightarrow> script_line \<Rightarrow> string" where
  "replaced_line mp l = str_trim_end (concat (map (token_value mp) (map snd (fst l))))"

lemma script_line_outcome:
  assumes "peg_parser macro_grammar parse" and "wf_line l"
  shows "if replaceable mp l then macro_line parse mp (line_of l) = Ok (replaced_line mp l)
    else is_err (macro_line parse mp (line_of l))"
proof -
  have none: "find (undefined_macro mp) (map snd (fst l)) = None \<longleftrightarrow> list_all (\<lambda>t. \<not> undefined_macro mp (snd t)) (fst l)"
    by (auto simp: find_None_iff list_all_iff)
  have "wf_tokens (fst l)" "list_all blank_char (snd l)" using assms(2) by (simp_all add: wf_line_def)
  from macro_line_outcome [OF assms(1) this, of mp] none show ?thesis
    by (auto simp: replaceable_def replaced_line_def line_of_def run_tokens split: if_splits option.splits)
qed

text \<open>A script whose lines are not empty and have no line breaks.\<close>

lemma script_outcome:
  assumes "peg_parser macro_grammar parse" and "list_all wf_line ls"
    and "str_lines script = map line_of ls"
  shows "if list_all (replaceable mp) ls
    then macro_parse parse mp script = Ok (str_join [CHR 0x0A] (map (replaced_line mp) ls))
    else is_err (macro_parse parse mp script)"
proof (cases "list_all (replaceable mp) ls")
  case True
  define out where "out l = (case macro_line parse mp l of Ok r \<Rightarrow> r | _ \<Rightarrow> [])" for l
  have line: "macro_line parse mp (line_of l) = Ok (replaced_line mp l)" if "l \<in> set ls" for l
    using script_line_outcome [OF assms(1), of l mp] assms(2) True that by (simp add: list_all_iff)
  then have ok: "macro_line parse mp l = Ok (out l)" if "l \<in> set (map line_of ls)" for l
    using that by (auto simp: out_def)
  have outs: "map out (map line_of ls) = map (replaced_line mp) ls" using line by (simp add: out_def)
  have "macro_parse parse mp script = Ok (str_join [CHR 0x0A] (map out (map line_of ls)))"
    using macro_lines_join [of "map line_of ls" parse mp out 0 "[]"] ok by (simp add: macro_parse_def assms(3))
  then show ?thesis unfolding outs using True by simp
next
  case False
  then obtain l where l: "find (\<lambda>l. \<not> replaceable mp l) ls = Some l"
    by (cases "find (\<lambda>l. \<not> replaceable mp l) ls") (auto simp: find_None_iff list_all_iff)
  from find_first [OF l] obtain pre post where ls: "ls = pre @ l # post" and pre: "\<forall>x \<in> set pre. replaceable mp x"
    and bad: "\<not> replaceable mp l" by auto
  have err: "is_err (macro_line parse mp (line_of l))"
    using script_line_outcome [OF assms(1), of l mp] assms(2) bad ls by simp
  have "list_all (\<lambda>x. \<exists>out. macro_line parse mp x = Ok out) (map line_of pre)"
    using script_line_outcome [OF assms(1), of _ mp] assms(2) pre ls by (auto simp: list_all_iff)
  moreover have "\<And>out. macro_line parse mp (line_of l) \<noteq> Ok out" using err by auto
  ultimately have "macro_parse parse mp script = macro_line parse mp (line_of l)"
    using macro_lines_fail [of parse mp "map line_of pre" "line_of l" 0 "map line_of post" "[]"]
    by (simp add: macro_parse_def assms(3) ls)
  with err False show ?thesis by simp
qed

section \<open>A document and its scripts\<close>

lemma section_texts:
  assumes "wf_spec_entries d" and "(n, ls) \<in> set (document_sections d)" and "l \<in> set ls"
  shows "spec_text l"
  using assms
proof (induction d)
  case (Cons x d)
  obtain b e where x: "x = (b, e)" by (cases x)
  with Cons show ?case by (cases e) (auto simp: wf_script_line_def list_all_iff)
qed simp

lemma spec_text_line:
  assumes "spec_text l"
  shows "CHR 0x0A \<notin> set l" "strip_cr l = l" "l \<noteq> []"
proof -
  have c: "c \<noteq> CHR 0x0A \<and> c \<noteq> CHR 0x0D" if "c \<in> set l" for c
    using assms that by (auto simp: spec_text_def list_all_iff spec_char_def blank_char_def ascii_alphanumeric_def byte_class_def)
  then show "CHR 0x0A \<notin> set l" by blast
  show "l \<noteq> []" using assms by (simp add: spec_text_def)
  with c [of "last l"] show "strip_cr l = l" by (auto simp: strip_cr_def)
qed

text \<open>The script of a section that occurs once has the lines of the section.\<close>

lemma script_lines:
  assumes "wf_spec_entries d" and "texts_of (document_sections d) k = [ls]"
  shows "str_lines (script_of (document_sections d) k) = ls"
proof (cases "ls = []")
  case False
  have "ls \<in> set (texts_of (document_sections d) k)" by (simp add: assms(2))
  then obtain n where n: "(n, ls) \<in> set (document_sections d)" by (auto simp: texts_of_def)
  have ok: "spec_text l" if "l \<in> set ls" for l using section_texts [OF assms(1) n that] .
  have "str_lines (str_join [CHR 0x0A] ls) = ls"
    using False spec_text_line [OF ok] by (intro str_lines_join) simp_all
  then show ?thesis by (simp add: script_of_def assms(2))
qed (simp add: script_of_def assms(2))

lemma no_sources_no_calls:
  "io_bind (io_map_err f (get_sources S U ws [])) (\<lambda>downloaded.
     io_bind (io_map_err f (unpack_all_sources S ws downloaded)) F) = F ()"
  by (simp add: get_sources_def unpack_all_sources_def)

text \<open>What is left of the command when the spec file has been read and the workspace made.\<close>

lemma run_package_steps:
  fixes U :: "'u url_crate"
  assumes "sys_read S tr spec_file = Ok content" and "spec_parse spec_parser content = Ok spec"
    and "spec_sources spec = []" and "Workspace_new S shellexpand [] (tr @ [ReadFile spec_file]) =
      Some (Ok ws :: (Workspace, 'u WorkspaceError) res, tr1)"
    and "hash_iteration entries"
  shows "run_package_command S U shellexpand parse_object H debug spec_parser macro_parser entries spec_file tr =
    (case macro_parse macro_parser \<lparr>macros = get_macros ws\<rparr> (build_script spec) of
       Ok script \<Rightarrow> io_map_err PortsWorkspaceError (io_bind (ws_build S ws script)
         (\<lambda>_. package S parse_object H debug ws (spec_files spec))) tr1
     | Err e \<Rightarrow> Some (Err (PortsMacroError e), tr1)
     | Panic msg \<Rightarrow> Some (Panic msg, tr1))"
proof -
  have made: "io_map_err PortsWorkspaceError (Workspace_new S shellexpand []) (tr @ [ReadFile spec_file]) =
      Some (Ok ws :: (Workspace, 'u ports_error) res, tr1)"
    by (simp add: io_map_err_def assms(4))
  have "run_package_command S U shellexpand parse_object H debug spec_parser macro_parser entries spec_file tr =
    io_bind (io_res (map_err PortsMacroError (macro_parse macro_parser \<lparr>macros = get_macros ws\<rparr> (build_script spec))))
      (\<lambda>script. io_bind (io_map_err PortsWorkspaceError (ws_build S ws script))
        (\<lambda>_. io_map_err PortsWorkspaceError (package S parse_object H debug ws (spec_files spec)))) tr1"
    unfolding run_package_command_def
    by (simp add: io_bind_step assms(1,2,3) made no_sources_no_calls macro_map [OF assms(5)])
  then show ?thesis
    by (simp add: io_bind_def [of "io_res _"] io_map_err_bind split: res.split)
qed

section \<open>Properties\<close>

text \<open>
  C4: from the text of a spec file to the script that is run. The file is a well-formed document with one
  section \<^verbatim>\<open>build\<close>, whose lines are words and macros, and the workspace could be made. If every line of the section
  has a macro, and only macros of the workspace, then the command is the build of the script with the macros replaced,
  line by line, followed by packaging the files of the section \<^verbatim>\<open>files\<close>; nothing is fetched or unpacked. Otherwise
  the command fails with an error of the macro parser, before the script file is created.
\<close>

theorem ports_builds_document:
  fixes U :: "'u url_crate"
  assumes "peg_parser spec_grammar spec_parser" and "peg_parser macro_grammar macro_parser" and "hash_iteration entries"
    and "sys_read S tr spec_file = Ok (spec_document_text d)" and "wf_spec_document d"
    and "\<forall>(n, ls) \<in> set (document_sections d). n \<in> set known_sections \<and> length ls < 2 ^ 31"
    and "texts_of (document_sections d) ''build'' = [map line_of ls]" and "list_all wf_line ls"
    and "Workspace_new S shellexpand [] (tr @ [ReadFile spec_file]) = Some (Ok ws :: (Workspace, 'u WorkspaceError) res, tr1)"
  shows "if list_all (replaceable \<lparr>macros = get_macros ws\<rparr>) ls
    then run_package_command S U shellexpand parse_object H debug spec_parser macro_parser entries spec_file tr =
      io_map_err PortsWorkspaceError
        (io_bind (ws_build S ws (str_join [CHR 0x0A] (map (replaced_line \<lparr>macros = get_macros ws\<rparr>) ls)))
          (\<lambda>_. package S parse_object H debug ws (concat (map (map str_trim_end) (texts_of (document_sections d) ''files'')))))
        tr1
    else \<exists>e. run_package_command S U shellexpand parse_object H debug spec_parser macro_parser entries spec_file tr =
      Some (Err (PortsMacroError e), tr1)"
proof -
  define spec where "spec = spec_fields (document_assignments d) (document_sections d)"
  have short: "\<forall>(n, ls) \<in> set (document_sections d). length ls < 2 ^ 31"
    and known: "\<forall>(n, ls) \<in> set (document_sections d). n \<in> set known_sections \<or> ls = []" using assms(6) by blast+
  have "spec_parse spec_parser (spec_document_text d) = Ok spec"
    using spec_document_outcome [OF assms(1,5) short] known unfolding spec_def by (simp only: if_True)
  moreover have "spec_sources spec = []" by (simp add: spec_def spec_fields_def)
  ultimately have run: "run_package_command S U shellexpand parse_object H debug spec_parser macro_parser entries spec_file tr =
    (case macro_parse macro_parser \<lparr>macros = get_macros ws\<rparr> (build_script spec) of
       Ok script \<Rightarrow> io_map_err PortsWorkspaceError (io_bind (ws_build S ws script)
         (\<lambda>_. package S parse_object H debug ws (spec_files spec))) tr1
     | Err e \<Rightarrow> Some (Err (PortsMacroError e), tr1)
     | Panic msg \<Rightarrow> Some (Panic msg, tr1))"
    by (rule run_package_steps [OF assms(4) _ _ assms(9,3)])
  have "wf_spec_entries d" using assms(5) by (simp add: wf_spec_document_def)
  from script_lines [OF this assms(7)] have "str_lines (build_script spec) = map line_of ls"
    by (simp add: spec_def spec_fields_def)
  from script_outcome [OF assms(2,8) this, of "\<lparr>macros = get_macros ws\<rparr>"] show ?thesis
    unfolding run by (auto simp: spec_def spec_fields_def split: if_splits elim: is_err.elims)
qed

text \<open>The spec file of the program itself.\<close>

definition ports_spec :: string where
  "ports_spec =
     ''Name:       ports'' @ [CHR 0x0A]
     @ ''Version:    0.1.0'' @ [CHR 0x0A]
     @ ''Release:    0'' @ [CHR 0x0A]
     @ ''Summary:    Portable Software compilation System'' @ [CHR 0x0A]
     @ ''License:    MPL-2.0'' @ [CHR 0x0A]
     @ ''VCS:        https://github.com/OpenFlowLabs/ports.git'' @ [CHR 0x0A]
     @ [CHR 0x0A]
     @ ''%description'' @ [CHR 0x0A]
     @ ''The ports Postable Software compilation system is a parser and interpreter for'' @ [CHR 0x0A]
     @ ''build instructions made in the Specfile format. It is inspired but not exactly'' @ [CHR 0x0A]
     @ ''equal to RPM. Mainly because it implements additional features such as git support'' @ [CHR 0x0A]
     @ ''and add more convinience commands usefull for packaging. It is mainly based on knowledge'' @ [CHR 0x0A]
     @ ''gained working with oi-userland and designed to make the proces of that system more'' @ [CHR 0x0A]
     @ ''automated/better.'' @ [CHR 0x0A]
     @ [CHR 0x0A]
     @ ''%prep'' @ [CHR 0x0A]
     @ ''# Cargo or git will be automatially prepared'' @ [CHR 0x0A]
     @ [CHR 0x0A]
     @ ''%build'' @ [CHR 0x0A]
     @ ''cargo install --path . --target-dir %{source_dir}/cargo --root %{proto_dir}/usr --bins'' @ [CHR 0x0A]
     @ [CHR 0x0A]
     @ ''%files'' @ [CHR 0x0A]
     @ ''/usr/bin/ports'' @ [CHR 0x0A]
     @ [CHR 0x0A]
     @ ''%changelog'' @ [CHR 0x0A]
     @ ''* Sat Apr 03 2020 Till Wegmueller <toasterson@gmail.com> 0.1.0-0'' @ [CHR 0x0A]
     @ ''- Initial RPM release'' @ [CHR 0x0A]"

definition ports_layout :: spec_document where
  "ports_layout =
     [([], Assign ''Name'' ''       '' ''ports''),
      ([], Assign ''Version'' ''    '' ''0.1.0''),
      ([], Assign ''Release'' ''    '' ''0''),
      ([], Assign ''Summary'' ''    '' ''Portable Software compilation System''),
      ([], Assign ''License'' ''    '' ''MPL-2.0''),
      ([], Assign ''VCS'' ''        '' ''https://github.com/OpenFlowLabs/ports.git''),
      ([], Empty_Line),
      ([], Script ''description''
        [([], ''The ports Postable Software compilation system is a parser and interpreter for''),
         ([], ''build instructions made in the Specfile format. It is inspired but not exactly''),
         ([], ''equal to RPM. Mainly because it implements additional features such as git support''),
         ([], ''and add more convinience commands usefull for packaging. It is mainly based on knowledge''),
         ([], ''gained working with oi-userland and designed to make the proces of that system more''),
         ([], ''automated/better.'')]),
      ([], Empty_Line),
      ([], Script ''prep''
        [([], ''# Cargo or git will be automatially prepared'')]),
      ([], Empty_Line),
      ([], Script ''build''
        [([], ''cargo install --path . --target-dir %{source_dir}/cargo --root %{proto_dir}/usr --bins'')]),
      ([], Empty_Line),
      ([], Script ''files''
        [([], ''/usr/bin/ports'')]),
      ([], Empty_Line),
      ([], Script ''changelog''
        [([], ''* Sat Apr 03 2020 Till Wegmueller <toasterson@gmail.com> 0.1.0-0''),
         ([], ''- Initial RPM release'')])]"

text \<open>The line of its section \<^verbatim>\<open>build\<close>.\<close>

definition ports_line :: script_line where
  "ports_line =
     ([([], Token_Word ''cargo''), ('' '', Token_Word ''install''), ('' '', Token_Word ''--path''), ('' '', Token_Word ''.''),
       ('' '', Token_Word ''--target-dir''), ('' '', Token_Braced ''source_dir''), ([], Token_Word ''/cargo''),
       ('' '', Token_Word ''--root''), ('' '', Token_Braced ''proto_dir''), ([], Token_Word ''/usr''),
       ('' '', Token_Word ''--bins'')], [])"

lemma ports_layout_text: "spec_document_text ports_layout = ports_spec"
  by (simp add: ports_layout_def ports_spec_def script_lines_text_def script_line_text_def)

lemma ports_layout_wf: "wf_spec_document ports_layout"
  by code_simp

lemma ports_layout_sections:
  "texts_of (document_sections ports_layout) ''build'' = [map line_of [ports_line]]"
  "texts_of (document_sections ports_layout) ''files'' = [[''/usr/bin/ports'']]"
  "list_all (\<lambda>(n, ls). n \<in> set known_sections \<and> length ls < 100) (document_sections ports_layout)"
  by code_simp+

definition ports_read :: "sys_op list \<Rightarrow> string \<Rightarrow> (string, io_error) res" where
  "ports_read tr p = (if p = ''ports.spec'' then Ok ports_spec else Ok ''data'')"

definition ports_sys :: sys where
  "ports_sys = sample_sys\<lparr>sys_read := ports_read\<rparr>"

definition ports_ws :: Workspace where
  "ports_ws = \<lparr>ws_root = ''/w'', source_dir = ''/w/sources'', build_dir = ''/w/build/i386'', proto_dir = ''/w/build/proto''\<rparr>"

definition ports_calls :: "sys_op list" where
  "ports_calls = [ReadFile ''ports.spec'', MkDir ''/w'', MkDir ''/w/build/i386'', MkDir ''/w/sources'', MkDir ''/w/build/proto'']"

definition ports_script :: string where
  "ports_script = ''cargo install --path . --target-dir /w/sources/cargo --root /w/build/proto/usr --bins''"

lemma ports_workspace:
  "Workspace_new ports_sys (\<lambda>_. Ok ''/w'') [] ([] @ [ReadFile ''ports.spec'']) =
     Some (Ok ports_ws :: (Workspace, string WorkspaceError) res, ports_calls)"
  by code_simp

lemma ports_line_replaced:
  "wf_line ports_line" "replaceable \<lparr>macros = get_macros ports_ws\<rparr> ports_line"
  "replaced_line \<lparr>macros = get_macros ports_ws\<rparr> ports_line = ports_script"
  by code_simp+

lemma ports_file_trimmed: "str_trim_end ''/usr/bin/ports'' = ''/usr/bin/ports''"
  by code_simp

definition ok_calls :: "('op list \<Rightarrow> bool) \<Rightarrow> ((unit, 'e) res \<times> 'op list) option \<Rightarrow> bool" where
  "ok_calls P r \<longleftrightarrow> (case r of Some (Ok _, tr) \<Rightarrow> P tr | _ \<Rightarrow> False)"

lemma ok_calls: "ok_calls P r \<longleftrightarrow> (\<exists>tr. r = Some (Ok (), tr) \<and> P tr)"
  by (auto simp: ok_calls_def split: option.splits res.splits)

lemma ports_build_runs:
  "\<exists>tr'. io_map_err PortsWorkspaceError (io_bind (ws_build ports_sys ports_ws ports_script)
       (\<lambda>_. package ports_sys (\<lambda>_. None) sample_hashers (\<lambda>_. []) ports_ws [''/usr/bin/ports''])) ports_calls =
       Some (Ok () :: (unit, string ports_error) res, tr')
     \<and> {WriteFile ''/w/build/i386/build_script.sh'' ports_script, ReadFile ''usr/bin/ports''} \<subseteq> set tr'"
  (is "\<exists>tr'. ?run = _ \<and> {?write, ?read} \<subseteq> _")
proof -
  have "ok_calls (list_ex (\<lambda>x. x = ?write)) ?run" by code_simp
  moreover have "ok_calls (list_ex (\<lambda>x. x = ?read)) ?run" by code_simp
  ultimately obtain tr' where "?run = Some (Ok (), tr')" "list_ex (\<lambda>x. x = ?write) tr'" "list_ex (\<lambda>x. x = ?read) tr'"
    unfolding ok_calls by fastforce
  then show ?thesis by (intro exI conjI) (assumption, simp only: list_ex_iff insert_subset, simp)
qed

theorem ports_builds_document_witness:
  "\<exists>tr'. run_package_command ports_sys sample_url (\<lambda>_. Ok ''/w'') (\<lambda>_. None) sample_hashers (\<lambda>_. []) sample_spec_parse
       sample_macro_parse sorted_list_of_fmap ''ports.spec'' [] = Some (Ok (), tr')
     \<and> {WriteFile ''/w/build/i386/build_script.sh'' ports_script, ReadFile ''usr/bin/ports''} \<subseteq> set tr'"
proof -
  have "sys_read ports_sys [] ''ports.spec'' = Ok (spec_document_text ports_layout)"
    by (simp add: ports_sys_def ports_read_def ports_layout_text)
  moreover have "\<forall>(n, ls) \<in> set (document_sections ports_layout). n \<in> set known_sections \<and> length ls < 2 ^ 31"
    using ports_layout_sections(3) by (force simp: list_all_iff)
  moreover have "list_all wf_line [ports_line]" by (simp add: ports_line_replaced)
  ultimately have "run_package_command ports_sys sample_url (\<lambda>_. Ok ''/w'') (\<lambda>_. None) sample_hashers (\<lambda>_. [])
      sample_spec_parse sample_macro_parse sorted_list_of_fmap ''ports.spec'' [] =
    io_map_err PortsWorkspaceError (io_bind (ws_build ports_sys ports_ws ports_script)
       (\<lambda>_. package ports_sys (\<lambda>_. None) sample_hashers (\<lambda>_. []) ports_ws [''/usr/bin/ports''])) ports_calls"
    using ports_builds_document [OF sample_spec_peg sample_macro_peg sorted_iter.hash_iteration_axioms _ ports_layout_wf _
        ports_layout_sections(1) _ ports_workspace, where U = sample_url]
    by (simp add: ports_line_replaced ports_layout_sections(2) ports_file_trimmed)
  with ports_build_runs show ?thesis by simp
qed

end
