(* ===== verification/Pkg6_Stubs.thy ===== *)
theory Pkg6_Stubs
  imports Rust_IO
begin

text \<open>
  The three programs that are still stubs: \<^verbatim>\<open>src/crates/pkg6/src/main.rs\<close> does nothing,
  \<^verbatim>\<open>src/pkg6depotd/src/main.rs\<close> and \<^verbatim>\<open>src/pkg6repo/src/main.rs\<close> print a greeting.
\<close>

datatype stub_op = Println string

definition main_pkg6 :: "(stub_op, unit, unit) io" where
  "main_pkg6 = io_return ()"

definition main_pkg6depotd :: "(stub_op, unit, unit) io" where
  "main_pkg6depotd = io_call (Println ''Hello, world!'') (\<lambda>_. Ok ())"

definition main_pkg6repo :: "(stub_op, unit, unit) io" where
  "main_pkg6repo = io_call (Println ''Hello, world!'') (\<lambda>_. Ok ())"

end
