(* ===== verification/Ips_Image.thy ===== *)
theory Ips_Image
  imports Rust_Strings
begin

text \<open>
  \<^verbatim>\<open>src/libips/src/image/mod.rs\<close> and \<^verbatim>\<open>src/libips/src/image/properties.rs\<close>: opening an image. Reading the file and
  \<^verbatim>\<open>serde_json\<close> are parameters.
\<close>

datatype ImageProperty =
    Prop_String string | Prop_Boolean bool | Prop_None | Prop_Array "ImageProperty list" | Prop_Integer int

datatype ImageError = Image_IO io_error | Image_Json string

record Image =
  img_path :: string
  img_props :: "ImageProperty list"
  img_version :: int
  img_variants :: "(string, string) HashMap"
  img_mediators :: "(string, string) HashMap"

definition Image_new :: "string \<Rightarrow> Image" where
  "Image_new path = \<lparr>img_path = path, img_props = [], img_version = 5, img_variants = fmempty, img_mediators = fmempty\<rparr>"

definition Image_open ::
  "(string \<Rightarrow> (string, io_error) res) \<Rightarrow> (string \<Rightarrow> (Image, string) res) \<Rightarrow> string \<Rightarrow> (Image, ImageError) res" where
  "Image_open open_file from_reader path =
     (let props_path = path_join path ''pkg6.image.json'' in
      res_bind (map_err Image_IO (open_file props_path)) (\<lambda>f. map_err Image_Json (from_reader f)))"

definition Image_open_default ::
  "(string \<Rightarrow> (string, io_error) res) \<Rightarrow> (string \<Rightarrow> (Image, string) res) \<Rightarrow> string \<Rightarrow> (Image, ImageError) res" where
  "Image_open_default open_file from_reader path =
     (case Image_open open_file from_reader path of
        Ok img \<Rightarrow> Ok img
      | Err e \<Rightarrow> Ok (Image_new path)
      | Panic x \<Rightarrow> Panic x)"

text \<open>
  Opening with a default always gives an image: the stored one if there is a readable one, a fresh image of
  version 5 at that path otherwise.
\<close>

lemma Image_open_default_total:
  assumes "\<And>p. \<not> is_panic (open_file p)" and "\<And>s. \<not> is_panic (from_reader s)"
  shows "\<exists>img. Image_open_default open_file from_reader path = Ok img
    \<and> (img = Image_new path \<or> (\<exists>s. open_file (path_join path ''pkg6.image.json'') = Ok s \<and> from_reader s = Ok img))"
proof (cases "open_file (path_join path ''pkg6.image.json'')")
  case (Ok s)
  then show ?thesis
    using assms(2) [of s] by (cases "from_reader s") (auto simp: Image_open_default_def Image_open_def)
next
  case (Panic x)
  then show ?thesis using assms(1) by (metis is_panic.simps(1))
qed (simp add: Image_open_default_def Image_open_def)

end
