(* ===== verification/Ips_Manifest_Invariant.thy ===== *)
theory Ips_Manifest_Invariant
  imports Ips_Manifest
begin

text \<open>
  The type invariant of manifests: facets and properties are stored under their own names, no value holds a quote
  or a backslash, and a payload has a primary hash. It holds of the empty manifest, adding an action with clean
  values keeps it, and so every manifest that is read has it.
\<close>

section \<open>The invariant\<close>

definition clean :: "string \<Rightarrow> bool" where
  "clean s = list_all (\<lambda>c. c \<noteq> CHR 0x22 \<and> c \<noteq> CHR 0x5C) s"

definition keyed_facets :: "(string, Facet) HashMap \<Rightarrow> bool" where
  "keyed_facets fs = fmpred (\<lambda>n f. facet_name f = n \<and> clean (facet_value f)) fs"

definition keyed_properties :: "(string, Property) HashMap \<Rightarrow> bool" where
  "keyed_properties ps = fmpred (\<lambda>k p. prop_key p = k \<and> clean (prop_value p)) ps"

definition dir_ok :: "Dir \<Rightarrow> bool" where
  "dir_ok d \<longleftrightarrow> list_all clean [dir_path d, dir_group d, dir_owner d, dir_mode d, dir_revert_tag d, dir_salvage_from d]
     \<and> keyed_facets (dir_facets d)"

definition file_ok :: "File \<Rightarrow> bool" where
  "file_ok f \<longleftrightarrow> list_all clean [file_path f, file_group f, file_owner f, file_mode f, file_original_name f,
       file_revert_tag f, file_sys_attr f]
     \<and> list_all (clean \<circ> prop_value) (file_properties f) \<and> keyed_facets (file_facets f)
     \<and> (case file_payload f of None \<Rightarrow> True | Some p \<Rightarrow> hash (primary_identifier p) \<noteq> [])"

definition dependency_ok :: "Dependency \<Rightarrow> bool" where
  "dependency_ok d \<longleftrightarrow> list_all clean [dep_fmri d, dep_dependency_type d, dep_predicate d, dep_root_image d]
     \<and> list_all (clean \<circ> prop_value) (dep_optional d) \<and> keyed_facets (dep_facets d)"

definition attr_ok :: "Attr \<Rightarrow> bool" where
  "attr_ok a \<longleftrightarrow> clean (attr_key a) \<and> list_all clean (attr_values a) \<and> keyed_properties (attr_properties a)"

definition license_ok :: "License \<Rightarrow> bool" where
  "license_ok l = keyed_properties (lic_properties l)"

definition link_ok :: "Link \<Rightarrow> bool" where
  "link_ok l \<longleftrightarrow> clean (link_path l) \<and> clean (link_target l) \<and> keyed_properties (link_properties l)"

definition manifest_ok :: "Manifest \<Rightarrow> bool" where
  "manifest_ok m \<longleftrightarrow> list_all attr_ok (m_attributes m) \<and> list_all dir_ok (m_directories m)
     \<and> list_all file_ok (m_files m) \<and> list_all dependency_ok (m_dependencies m)
     \<and> list_all license_ok (m_licenses m) \<and> list_all link_ok (m_links m)"

text \<open>What the parser puts into an action: its property values are unquoted.\<close>

definition action_clean :: "Action \<Rightarrow> bool" where
  "action_clean a = list_all (clean \<circ> prop_value) (act_properties a)"

section \<open>Conversions\<close>

lemma clean_Nil [simp]: "clean []"
  by (simp add: clean_def)

lemma clean_unquote [simp]: "clean (unquote s)"
  by (simp add: clean_def list_all_iff)

lemma last_value_clean: "list_all (clean \<circ> prop_value) ps \<Longrightarrow> clean (last_value k [] id ps)"
  by (induction ps rule: rev_induct) (auto simp: last_value_snoc)

lemma last_value_Some:
  "last_value k None (\<lambda>v. Some (f v)) ps = Some x \<Longrightarrow> \<exists>p \<in> set ps. x = f (prop_value p)"
  by (induction ps rule: rev_induct) (auto simp: last_value_snoc split: if_splits)

lemma keyed_facets_last:
  assumes "list_all (clean \<circ> prop_value) ps"
    and "\<And>n. fmlookup fs n = last_value (''facet.'' @ n) None (\<lambda>v. Some \<lparr>facet_name = n, facet_value = v\<rparr>) ps"
  shows "keyed_facets fs"
  unfolding keyed_facets_def fmpred_iff
proof (intro allI impI)
  fix n f assume "fmlookup fs n = Some f"
  with assms(2) last_value_Some show "facet_name f = n \<and> clean (facet_value f)"
    using assms(1) by (fastforce simp: list_all_iff)
qed

lemma keyed_properties_last:
  assumes "list_all (clean \<circ> prop_value) ps"
    and "\<And>n. fmlookup fs n = (if P n then None else last_value n None (\<lambda>v. Some \<lparr>prop_key = n, prop_value = v\<rparr>) ps)"
  shows "keyed_properties fs"
  unfolding keyed_properties_def fmpred_iff
proof (intro allI impI)
  fix n p assume p: "fmlookup fs n = Some p"
  then have "\<not> P n" "last_value n None (\<lambda>v. Some \<lparr>prop_key = n, prop_value = v\<rparr>) ps = Some p"
    using assms(2) [of n] by (auto split: if_splits)
  from last_value_Some [OF this(2)] show "prop_key p = n \<and> clean (prop_value p)"
    using assms(1) by (fastforce simp: list_all_iff)
qed

lemma push_payload_clean: "action_clean a \<Longrightarrow> list_all (clean \<circ> prop_value) (push_payload a)"
  by (auto simp: action_clean_def push_payload_def split_property_def Let_def split: option.split)

lemma Dir_from_ok: "action_clean a \<Longrightarrow> dir_ok (Dir_from a)"
  using Dir_from_spec [of a] push_payload_clean [of a]
  by (simp add: dir_ok_def last_value_clean keyed_facets_last)

lemma plain_props_clean: "list_all (clean \<circ> prop_value) ps \<Longrightarrow> list_all (clean \<circ> prop_value) (plain_props ks ps)"
  by (auto simp: plain_props_def list_all_iff)

lemma Dependency_from_ok: "action_clean a \<Longrightarrow> dependency_ok (Dependency_from a)"
  using Dependency_from_spec [of a] push_payload_clean [of a]
  by (simp add: dependency_ok_def last_value_clean keyed_facets_last plain_props_clean)

lemma Link_from_ok: "action_clean a \<Longrightarrow> link_ok (Link_from a)"
  using push_payload_clean [of a]
  by (simp add: link_ok_def Link_from_spec last_value_clean
      keyed_properties_last [where P = "\<lambda>n. n = ''path'' \<or> n = ''target''"])

lemma Attr_from_ok: "action_clean a \<Longrightarrow> attr_ok (Attr_from a)"
  using push_payload_clean [of a]
  by (auto simp: attr_ok_def Attr_from_spec last_value_clean list_all_iff
      intro!: keyed_properties_last [where P = "\<lambda>n. n = ''name'' \<or> n = ''value''" and ps = "push_payload a"])

lemma License_from_ok: "action_clean a \<Longrightarrow> license_ok (License_from a)"
  by (auto simp: license_ok_def License_from_spec action_clean_def
      intro!: keyed_properties_last [where P = "\<lambda>_. False" and ps = "act_properties a"])

lemma File_from_ok:
  assumes "action_clean a" and "File_from a = Ok f"
  shows "file_ok f"
proof -
  define props where "props = act_properties a @ form_properties (payload_form_of a)"
  have "list_all (clean \<circ> prop_value) (form_properties (payload_form_of a))"
    "list_all (clean \<circ> prop_value) (form_originals (payload_form_of a))"
    by (simp_all add: form_properties_def form_originals_def payload_form_of_def Let_def spelled_property_def
        split: option.split)
  with assms(1) have props: "list_all (clean \<circ> prop_value) props"
    "list_all (clean \<circ> prop_value) (form_originals (payload_form_of a))"
    by (simp_all add: props_def action_clean_def)
  from File_from_spec [OF assms(2) props_def] props show ?thesis
    by (simp add: file_ok_def last_value_clean keyed_facets_last plain_props_clean split: option.splits)
qed

section \<open>Manifests\<close>

lemma add_action_ok:
  assumes "manifest_ok m" and "action_clean a" and "add_action a m = Ok m'"
  shows "manifest_ok m'"
  using assms Dir_from_ok Dependency_from_ok Link_from_ok Attr_from_ok License_from_ok File_from_ok
  by (cases "act_kind a") (auto simp: add_action_def manifest_ok_def)

lemma manifest_actions_clean: "a \<in> set (manifest_actions ps) \<Longrightarrow> action_clean a"
  by (auto simp: manifest_actions_def action_of_def Action_new_def action_clean_def list_all_iff property_of_def)

text \<open>
  C15: the type invariant of manifests. In every manifest that is read, whatever parser keeps the grammar's
  contract, each facet and each extra property is stored under its own name, no attribute, facet or property value
  holds a quote or a backslash, and a file that has a payload has a nonempty primary hash.
\<close>

theorem parse_string_ok:
  assumes "pest_parser manifest_grammar parse" and "parse_string parse c = Ok m"
  shows "manifest_ok m"
proof -
  obtain ps where ps: "fold_res add_action (manifest_actions ps) Manifest_new = Ok m"
    using parse_string_loop [OF assms(1), of c] assms(2) by (auto split: res.splits)
  then show ?thesis
  proof (rule fold_res_invariant)
    show "manifest_ok Manifest_new" by (simp add: manifest_ok_def Manifest_new_def)
  qed (use manifest_actions_clean add_action_ok in blast)
qed

theorem parse_string_ok_witness:
  "\<exists>m. parse_string sample_parse example_manifest = Ok m \<and> manifest_ok m"
  using sample_manifest_read parse_string_ok [OF sample_contract] by blast

end
