(* ===== verification/Ips_Manifest_Text.thy ===== *)
theory Ips_Manifest_Text
  imports Ips_Manifest Pest_Text
begin

text \<open>
  Manifests as text. A \<open>document\<close> is the layout of a manifest file: comment lines, blank lines and action
  lines, with the blanks (spaces, tabulators, continued lines) in front of every argument and the quotes
  around values written out. \<open>document_text\<close> is the file, \<open>document_actions\<close> what it says.

  Under the contract \<open>peg_parser manifest_grammar\<close> the text of every well-formed document is read as its
  actions (\<open>document_parse_string\<close>). \<open>print_actions\<close> writes actions in a canonical layout, and the
  round trip is exact: reading what was printed builds the manifest of the same actions.
\<close>

section \<open>Documents\<close>

datatype blank = Space | Tabulator | Continued

fun blank_text :: "blank \<Rightarrow> string" where
  "blank_text Space = '' ''"
| "blank_text Tabulator = [CHR 0x09]"
| "blank_text Continued = [CHR 0x5C, CHR 0x0A]"

definition blanks_text :: "blank list \<Rightarrow> string" where
  "blanks_text bs = concat (map blank_text bs)"

datatype value_src = Plain string | Quoted string

fun value_text :: "value_src \<Rightarrow> string" where
  "value_text (Plain v) = v"
| "value_text (Quoted v) = [CHR 0x22] @ v @ [CHR 0x22]"

record property_src =
  ps_blanks :: "blank list"
  ps_key :: string
  ps_value :: value_src

definition property_body :: "property_src \<Rightarrow> string" where
  "property_body p = ps_key p @ ''='' @ value_text (ps_value p)"

definition property_text :: "property_src \<Rightarrow> string" where
  "property_text p = blanks_text (ps_blanks p) @ property_body p"

record action_src =
  as_name :: string
  as_payload :: "(blank list \<times> string) option"
  as_properties :: "property_src list"

definition properties_text :: "property_src list \<Rightarrow> string" where
  "properties_text ps = concat (map property_text ps)"

definition payload_text :: "(blank list \<times> string) option \<Rightarrow> string" where
  "payload_text x = (case x of None \<Rightarrow> [] | Some (bs, p) \<Rightarrow> blanks_text bs @ p)"

definition action_text :: "action_src \<Rightarrow> string" where
  "action_text a = as_name a @ payload_text (as_payload a) @ properties_text (as_properties a)"

definition comments_text :: "string list \<Rightarrow> string" where
  "comments_text cs = concat (map (\<lambda>c. ''#'' @ c @ [CHR 0x0A]) cs)"

section \<open>Reading the parts\<close>

definition at_break :: "string \<Rightarrow> bool" where
  "at_break t \<longleftrightarrow> t = [] \<or> hd t \<in> {CHR '' '', CHR 0x09, CHR 0x0A, CHR 0x0D}
     \<or> prefix [CHR 0x5C, CHR 0x0A] t"

definition plain_char :: "char \<Rightarrow> bool" where
  "plain_char c \<longleftrightarrow> c \<notin> {CHR '' '', CHR 0x09, CHR 0x0A, CHR 0x0D, CHR 0x5C}"

definition settled :: "string \<Rightarrow> bool" where
  "settled t \<longleftrightarrow> t = [] \<or> hd t \<notin> {CHR '' '', CHR 0x09, CHR 0x5C, CHR ''#''}"

lemma plain_charD:
  assumes "plain_char c"
  shows "CHR '' '' \<noteq> c" "CHR 0x09 \<noteq> c" "CHR 0x0A \<noteq> c" "CHR 0x0D \<noteq> c" "CHR 0x5C \<noteq> c"
  using assms by (auto simp: plain_char_def)

lemma unicode_character_read:
  assumes "whole_char u" and "plain_char (hd u)"
  shows "peg manifest_grammar n True (Rule M_unicode_character) (u @ t) = Some (Some ([], t))"
proof -
  obtain c u' where u: "u = c # u'" using whole_charD(2) [OF assms(1)] by (cases u) auto
  have "any_char (c # u' @ t) = Suc (length u')" using whole_charD(1) [OF assms(1), of t] u by simp
  with plain_charD [of c] assms(2) show ?thesis by (simp add: u reading)
qed

lemma unicode_character_stop:
  assumes "at_break t"
  shows "peg manifest_grammar n True (Rule M_unicode_character) t = Some None"
proof -
  consider "t = []" | c s where "t = c # s" "c \<in> {CHR '' '', CHR 0x09, CHR 0x0A, CHR 0x0D}"
    | s where "t = [CHR 0x5C, CHR 0x0A] @ s"
    using assms by (cases t) (auto simp: at_break_def prefix_def)
  then show ?thesis
  proof cases
    case (2 c s)
    then show ?thesis by (elim insertE emptyE) (simp_all add: reading)
  qed (simp_all add: reading any_char_def)
qed

lemma unicode_characters_read:
  assumes "utf8_valid v" and "list_all plain_char v" and "at_break t"
  shows "peg manifest_grammar n True (Tail (Rule M_unicode_character)) (v @ t) = Some (Some ([], t))"
  using assms
proof (induction rule: utf8_induct)
  case Nil
  then show ?case by (simp add: peg_tail_done_atomic unicode_character_stop)
next
  case (char u v)
  then have "plain_char (hd u)" using whole_charD(2) by (cases u) auto
  with char show ?case by (auto intro: peg_tail_more_atomic unicode_character_read)
qed

lemma property_value_plain:
  assumes "utf8_valid v" "list_all plain_char v" "v \<noteq> []" "hd v \<noteq> CHR 0x22" "at_break t"
  shows "peg manifest_grammar n True (manifest_rule_body M_property_value) (v @ t) = Some (Some ([], t))"
proof -
  obtain u w where v: "v = u @ w" "whole_char u" "utf8_valid w" using utf8_split assms(1,3) by blast
  then have u: "plain_char (hd u)" "CHR 0x22 \<noteq> hd u" using assms whole_charD(2) [of u] by (cases u; auto)+
  then have "\<not> prefix [CHR 0x22] (v @ t)" using v whole_charD(2) [of u] by (cases u) auto
  then have "peg manifest_grammar n True (Rule M_quoted_string) (v @ t) = Some None"
    by (simp add: reading)
  moreover have "peg manifest_grammar n True (Tail (Rule M_unicode_character)) (w @ t) = Some (Some ([], t))"
    using unicode_characters_read v assms by simp
  moreover have "peg manifest_grammar n True (Rule M_unicode_character) (v @ t) = Some (Some ([], w @ t))"
    using unicode_character_read [OF v(2) u(1)] v(1) by simp
  ultimately show ?thesis
    by (simp add: peg_alt_second peg_seq_atomic peg_star_atomic)
qed

lemma quoted_characters_read:
  assumes "utf8_valid v" and "CHR 0x22 \<notin> set v"
  shows "peg manifest_grammar n True (Tail (Rule M_quoted_character)) (v @ CHR 0x22 # t)
    = Some (Some ([], CHR 0x22 # t))"
  using assms
proof (induction rule: utf8_induct)
  case Nil
  then show ?case by (simp add: reading)
next
  case (char u v)
  then obtain c u' where u: "u = c # u'" "CHR 0x22 \<noteq> c" using whole_charD(2) [of u] by (cases u) auto
  have "any_char (c # u' @ v @ CHR 0x22 # t) = Suc (length u')"
    using whole_charD(1) [OF char(1), of "v @ CHR 0x22 # t"] u by simp
  with char u show ?case by (simp add: reading)
qed

lemma quoted_string_read:
  assumes "utf8_valid v" and "CHR 0x22 \<notin> set v"
  shows "peg manifest_grammar n True (manifest_rule_body M_quoted_string)
    (CHR 0x22 # v @ CHR 0x22 # t) = Some (Some ([], t))"
proof -
  have "peg manifest_grammar n True (Lit [CHR 0x22]) (CHR 0x22 # s) = Some (Some ([], s))" for s
    by (simp add: reading)
  then show ?thesis
    by (simp add: peg_seq_atomic peg_star_atomic quoted_characters_read [OF assms])
qed


subsection \<open>Blanks and comments\<close>

definition no_blank :: "string \<Rightarrow> bool" where
  "no_blank t \<longleftrightarrow> t = [] \<or> hd t \<notin> {CHR '' '', CHR 0x09, CHR 0x5C}"

lemma blank_read: "peg manifest_grammar n True (Rule M_WHITESPACE) (blank_text b @ t) = Some (Some ([], t))"
  by (cases b) (simp_all add: reading)

lemma no_blank_stop: "no_blank t \<Longrightarrow> peg manifest_grammar n True (Rule M_WHITESPACE) t = Some None"
  by (cases t) (auto simp: reading no_blank_def)

lemma blanks_read:
  "no_blank t \<Longrightarrow> peg manifest_grammar n True (Tail (Rule M_WHITESPACE)) (blanks_text bs @ t) = Some (Some ([], t))"
proof (induction bs)
  case Nil
  then show ?case by (simp add: blanks_text_def peg_tail_done_atomic no_blank_stop)
next
  case (Cons b bs)
  then show ?case
    using peg_tail_more_atomic [OF blank_read] by (simp add: blanks_text_def)
qed

lemma comment_characters_read:
  assumes "utf8_valid c" and "set c \<inter> {CHR 0x0A, CHR 0x0D} = {}"
  shows "peg manifest_grammar n True (Tail (Rule M_comment_character)) (c @ CHR 0x0A # t)
    = Some (Some ([], CHR 0x0A # t))"
  using assms
proof (induction rule: utf8_induct)
  case Nil
  then show ?case by (simp add: reading)
next
  case (char u v)
  then obtain d u' where u: "u = d # u'" "CHR 0x0A \<noteq> d" "CHR 0x0D \<noteq> d"
    using whole_charD(2) [of u] by (cases u) auto
  have "any_char (d # u' @ v @ CHR 0x0A # t) = Suc (length u')"
    using whole_charD(1) [OF char(1), of "v @ CHR 0x0A # t"] u by simp
  with char u show ?case by (simp add: reading)
qed

lemma comment_read:
  assumes "utf8_valid c" and "set c \<inter> {CHR 0x0A, CHR 0x0D} = {}"
  shows "peg manifest_grammar n True (Rule M_COMMENT) (CHR ''#'' # c @ CHR 0x0A # t) = Some (Some ([], t))"
proof -
  have "peg manifest_grammar n True (Lit ''#'') (CHR ''#'' # s) = Some (Some ([], s))" for s
    by (simp add: reading)
  moreover have "peg manifest_grammar n True newline_exp (CHR 0x0A # s) = Some (Some ([], s))" for s
    by (simp add: reading)
  ultimately show ?thesis
    by (simp add: peg_rule_atomic_context peg_seq_atomic peg_star_atomic comment_characters_read [OF assms])
qed

definition wf_comment :: "string \<Rightarrow> bool" where
  "wf_comment c \<longleftrightarrow> utf8_valid c \<and> set c \<inter> {CHR 0x0A, CHR 0x0D} = {}"

lemma comments_read:
  assumes "list_all wf_comment cs" and "settled t"
  shows "peg manifest_grammar n True (Tail (Seq (Rule M_COMMENT) (Star (Rule M_WHITESPACE)))) (comments_text cs @ t)
    = Some (Some ([], t))"
  using assms(1)
proof (induction cs)
  case Nil
  have "\<not> prefix ''#'' t" using assms(2) by (cases t) (auto simp: settled_def)
  then have "peg manifest_grammar n True (Rule M_COMMENT) t = Some None"
    by (simp add: peg_rule_atomic_context peg_seq_fail peg_lit_fail)
  then show ?case by (simp add: comments_text_def peg_tail_done_atomic peg_seq_fail)
next
  case (Cons c cs)
  have "no_blank (comments_text cs @ t)"
    using assms(2) by (cases cs) (auto simp: comments_text_def settled_def no_blank_def)
  then have "peg manifest_grammar n True (Star (Rule M_WHITESPACE)) (comments_text cs @ t)
      = Some (Some ([], comments_text cs @ t))"
    using blanks_read [of _ n "[]"] by (simp add: peg_star_atomic blanks_text_def)
  then have "peg manifest_grammar n True (Seq (Rule M_COMMENT) (Star (Rule M_WHITESPACE)))
      (comments_text (c # cs) @ t) = Some (Some ([], comments_text cs @ t))"
    using Cons.prems by (simp add: comments_text_def wf_comment_def peg_seq_atomic comment_read)
  with Cons show ?case by (auto intro: peg_tail_more_atomic)
qed

lemma manifest_skip:
  "skip manifest_grammar = Seq (Star (Rule M_WHITESPACE)) (Star (Seq (Rule M_COMMENT) (Star (Rule M_WHITESPACE))))"
  by (simp add: manifest_grammar_def)

lemma skip_read:
  assumes "list_all wf_comment cs" and "settled t"
  shows "peg manifest_grammar n True (skip manifest_grammar) (blanks_text bs @ comments_text cs @ t)
    = Some (Some ([], t))"
proof -
  have "no_blank (comments_text cs @ t)"
    using assms(2) by (cases cs) (auto simp: comments_text_def settled_def no_blank_def)
  then show ?thesis
    unfolding manifest_skip
    by (simp add: peg_seq_atomic peg_star_atomic blanks_read comments_read [OF assms])
qed

lemma skip_blanks: "settled t \<Longrightarrow>
  peg manifest_grammar n True (skip manifest_grammar) (blanks_text bs @ t) = Some (Some ([], t))"
  using skip_read [of "[]" t n bs] by (simp add: comments_text_def)

lemma skip_nothing: "settled t \<Longrightarrow> peg manifest_grammar n True (skip manifest_grammar) t = Some (Some ([], t))"
  using skip_blanks [of t n "[]"] by (simp add: blanks_text_def)


subsection \<open>Names and properties\<close>

definition name_char :: "char \<Rightarrow> bool" where
  "name_char c \<longleftrightarrow> ascii_alphanumeric [c] = 1 \<or> c \<in> {CHR ''.'', CHR ''_'', CHR ''-'', CHR ''/''}"

definition name_exp :: "manifest_rule pexp" where
  "name_exp = alts [Cls ascii_alphanumeric, Lit ''.'', Lit ''_'', Lit ''-'', Lit ''/'']"

lemma property_name_body: "manifest_rule_body M_property_name = Plus name_exp"
  by (simp add: name_exp_def)

lemma name_exp_read:
  "peg manifest_grammar n True name_exp (c # s) = Some (if name_char c then Some ([], s) else None)"
  "peg manifest_grammar n True name_exp [] = Some None"
  by (auto simp: name_exp_def reading name_char_def ascii_alphanumeric_def byte_class_def)

definition no_name :: "string \<Rightarrow> bool" where
  "no_name t \<longleftrightarrow> t = [] \<or> \<not> name_char (hd t)"

lemma no_name_stop: "no_name t \<Longrightarrow> peg manifest_grammar n True name_exp t = Some None"
  by (cases t) (auto simp: no_name_def name_exp_read)

lemma names_read:
  assumes "list_all name_char k" and "no_name t"
  shows "peg manifest_grammar n True (Tail name_exp) (k @ t) = Some (Some ([], t))"
  using assms(1)
proof (induction k)
  case Nil
  with assms(2) show ?case by (simp add: peg_tail_done_atomic no_name_stop)
next
  case (Cons c k)
  show ?case
    by (rule peg_tail_more_atomic [where ?s1.0 = "k @ t"]) (use Cons in \<open>simp_all add: name_exp_read\<close>)
qed

lemma property_name_read:
  assumes "list_all name_char k" and "k \<noteq> []" and "no_name t"
  shows "peg manifest_grammar n False (Rule M_property_name) (k @ t) = Some (Some ([Pair M_property_name k []], t))"
proof (rule peg_rule_atomic)
  obtain c k' where k: "k = c # k'" using assms(2) by (cases k) auto
  then have "peg manifest_grammar n True (Plus name_exp) (k @ t) = peg manifest_grammar n True (Tail name_exp) (k' @ t)"
    using assms(1) by (simp add: peg_seq_atomic peg_star_atomic name_exp_read)
  also have "\<dots> = Some (Some ([], t))" using assms k by (simp add: names_read)
  finally show "peg manifest_grammar n True (rule_body manifest_grammar M_property_name) (k @ t) = Some (Some ([], t))"
    by (simp only: manifest_grammar_simps property_name_body)
qed simp

lemma property_name_stop:
  "no_name t \<Longrightarrow> peg manifest_grammar n False (Rule M_property_name) t = Some None"
  by (rule peg_rule_fail) (simp add: property_name_body peg_seq_fail no_name_stop del: manifest_rule_body.simps)

fun wf_value :: "value_src \<Rightarrow> bool" where
  "wf_value (Plain v) \<longleftrightarrow> v \<noteq> [] \<and> utf8_valid v \<and> list_all plain_char v \<and> hd v \<notin> {CHR 0x22, CHR ''#''}"
| "wf_value (Quoted v) \<longleftrightarrow> utf8_valid v \<and> CHR 0x22 \<notin> set v"

definition wf_property :: "property_src \<Rightarrow> bool" where
  "wf_property p \<longleftrightarrow> ps_blanks p \<noteq> [] \<and> ps_key p \<noteq> [] \<and> list_all name_char (ps_key p) \<and> wf_value (ps_value p)"

lemma property_value_read:
  assumes "wf_value v" and "at_break t"
  shows "peg manifest_grammar n False (Rule M_property_value) (value_text v @ t)
    = Some (Some ([Pair M_property_value (value_text v) []], t))"
proof (rule peg_rule_atomic)
  show "peg manifest_grammar n True (rule_body manifest_grammar M_property_value) (value_text v @ t)
    = Some (Some ([], t))"
  proof (cases v)
    case (Plain x)
    with assms property_value_plain show ?thesis by simp
  next
    case (Quoted x)
    then have "peg manifest_grammar n True (Rule M_quoted_string) (value_text v @ t) = Some (Some ([], t))"
      using quoted_string_read [of x n t] assms(1) by (simp add: peg_rule_atomic_context)
    then show ?thesis by (simp add: peg_alt_first)
  qed
qed simp

definition property_tree :: "property_src \<Rightarrow> manifest_rule pair" where
  "property_tree p = Pair M_property (property_body p)
     [Pair M_property_name (ps_key p) [], Pair M_property_value (value_text (ps_value p)) []]"

lemma value_settled: "wf_value v \<Longrightarrow> settled (value_text v @ t)"
proof (cases v)
  case (Plain x)
  assume "wf_value v"
  with Plain show ?thesis by (cases x) (auto simp: settled_def plain_char_def)
qed (simp add: settled_def)

lemma property_read:
  assumes "wf_property p" and "at_break t"
  shows "peg manifest_grammar n False (Rule M_property) (property_body p @ t) = Some (Some ([property_tree p], t))"
proof -
  let ?v = "value_text (ps_value p)"
  have v: "peg manifest_grammar n False (Rule M_property_value) (?v @ t) = Some (Some ([Pair M_property_value ?v []], t))"
    using property_value_read assms by (simp add: wf_property_def)
  have skip1: "peg manifest_grammar n True (skip manifest_grammar) (?v @ t) = Some (Some ([], ?v @ t))"
    using value_settled assms(1) by (intro skip_nothing) (simp add: wf_property_def)
  have skip2: "peg manifest_grammar n True (skip manifest_grammar) (CHR ''='' # ?v @ t)
      = Some (Some ([], CHR ''='' # ?v @ t))"
    by (rule skip_nothing) (simp add: settled_def)
  have k: "peg manifest_grammar n False (Rule M_property_name) (ps_key p @ CHR ''='' # ?v @ t)
      = Some (Some ([Pair M_property_name (ps_key p) []], CHR ''='' # ?v @ t))"
    using assms(1) by (intro property_name_read)
      (simp_all add: wf_property_def no_name_def name_char_def ascii_alphanumeric_def byte_class_def)
  have "peg manifest_grammar n False (manifest_rule_body M_property) (property_body p @ t)
      = Some (Some ([Pair M_property_name (ps_key p) [], Pair M_property_value ?v []], t))"
    by (simp add: property_body_def peg_seq_skip [OF k skip2] peg_seq_skip [OF peg_lit_char skip1] v)
  then show ?thesis
    unfolding property_tree_def by (intro peg_rule_normal) simp_all
qed

definition end_of_line :: "string \<Rightarrow> bool" where
  "end_of_line t \<longleftrightarrow> t = [] \<or> hd t = CHR 0x0A"

lemma end_of_lineD: assumes "end_of_line t" shows "settled t" "at_break t" "no_name t"
  using assms by (auto simp: end_of_line_def settled_def at_break_def no_name_def name_char_def
      ascii_alphanumeric_def byte_class_def)

lemma property_stop: "no_name t \<Longrightarrow> peg manifest_grammar n False (Rule M_property) t = Some None"
  by (rule peg_rule_fail) (simp add: peg_seq_fail property_name_stop)

lemma blanks_at_break: "bs \<noteq> [] \<Longrightarrow> at_break (blanks_text bs @ t)"
  by (cases bs; cases "hd bs") (auto simp: blanks_text_def at_break_def)

lemma properties_at_break:
  "list_all wf_property ps \<Longrightarrow> at_break t \<Longrightarrow> at_break (properties_text ps @ t)"
  by (cases ps) (auto simp: properties_text_def property_text_def wf_property_def blanks_at_break)

lemma property_settled: "wf_property p \<Longrightarrow> settled (property_body p @ t)"
  by (cases "ps_key p") (auto simp: wf_property_def property_body_def settled_def name_char_def
      ascii_alphanumeric_def byte_class_def)

lemma properties_read:
  assumes "list_all wf_property ps" and "end_of_line t"
  shows "peg manifest_grammar n False (Tail (Rule M_property)) (properties_text ps @ t)
    = Some (Some (map property_tree ps, t))"
  using assms(1)
proof (induction ps)
  case Nil
  show ?case
    using peg_tail_done [OF skip_nothing property_stop] end_of_lineD [OF assms(2)]
    by (simp add: properties_text_def)
next
  case (Cons p ps)
  have "at_break (properties_text ps @ t)"
    using Cons.prems end_of_lineD [OF assms(2)] by (simp add: properties_at_break)
  with Cons have p: "peg manifest_grammar n False (Rule M_property) (property_body p @ properties_text ps @ t)
      = Some (Some ([property_tree p], properties_text ps @ t))"
    by (simp add: property_read)
  show ?case
    using peg_tail_more [OF skip_blanks [OF property_settled] p] Cons
    by (simp add: properties_text_def property_text_def)
qed


subsection \<open>Actions\<close>

definition action_names :: "string list" where
  "action_names = [''set'', ''depend'', ''dir'', ''file'', ''license'', ''hardlink'', ''link'', ''driver'',
     ''group'', ''user'', ''legacy'']"

definition action_name_rules :: "manifest_rule list" where
  "action_name_rules = [M_action_set, M_action_depend, M_action_dir, M_action_file, M_action_license,
     M_action_hardlink, M_action_link, M_action_driver, M_action_group, M_action_user, M_action_legacy]"

definition name_of_rule :: "manifest_rule \<Rightarrow> string" where
  "name_of_rule r = (case manifest_rule_body r of Lit l \<Rightarrow> l | _ \<Rightarrow> [])"

lemma action_names_by_rule: "action_names = map name_of_rule action_name_rules"
  by (simp add: action_names_def action_name_rules_def name_of_rule_def)

lemma action_name_choice:
  "peg manifest_grammar n True (manifest_rule_body M_action_name) s =
     Some (map_option (\<lambda>l. ([], drop (length l) s)) (find (\<lambda>l. prefix l s) action_names))"
proof -
  have "manifest_rule_body M_action_name = alts (map Rule action_name_rules)"
    by (simp add: action_name_rules_def)
  moreover have "manifest_rule_body r = Lit (name_of_rule r)" if "r \<in> set action_name_rules" for r
    using that by (auto simp: action_name_rules_def name_of_rule_def)
  moreover have "find (\<lambda>l. prefix l s) (map name_of_rule rs) =
      map_option name_of_rule (find (\<lambda>r. prefix (name_of_rule r) s) rs)" for rs
    by (induction rs) auto
  ultimately show ?thesis
    by (simp add: peg_keywords [of _ _ name_of_rule] action_names_by_rule option.map_comp comp_def)
qed

text \<open>No action name is a prefix of another one.\<close>

lemma action_names_apart:
  "list_all (\<lambda>x. list_all (\<lambda>y. prefix x y \<longrightarrow> x = y) action_names) action_names"
  by code_simp

lemma action_name_found:
  assumes "a \<in> set action_names"
  shows "find (\<lambda>l. prefix l (a @ t)) action_names = Some a"
proof -
  have "x = a" if "x \<in> set action_names" "prefix x (a @ t)" for x
    using action_names_apart assms that prefix_same_cases [OF that(2), of a] by (auto simp: list_all_iff)
  then have "find (\<lambda>l. prefix l (a @ t)) ls = Some a" if "set ls \<subseteq> set action_names" "a \<in> set ls" for ls
    using that by (induction ls) auto
  with assms show ?thesis by simp
qed

lemma action_name_read:
  assumes "a \<in> set action_names"
  shows "peg manifest_grammar n False (Rule M_action_name) (a @ t) = Some (Some ([Pair M_action_name a []], t))"
  by (rule peg_rule_atomic) (use assms in \<open>simp_all add: action_name_choice action_name_found del: manifest_rule_body.simps\<close>)

lemma action_name_stop:
  assumes "end_of_line t"
  shows "peg manifest_grammar n False (Rule M_action_name) t = Some None"
proof -
  have "\<not> prefix l t" if "l \<in> set action_names" for l
    using that assms by (cases t) (auto simp: action_names_def end_of_line_def)
  then have "find (\<lambda>l. prefix l t) action_names = None" by (simp add: find_None_iff)
  then show ?thesis
    by (intro peg_rule_fail) (simp add: action_name_choice del: manifest_rule_body.simps)
qed

definition wf_payload :: "string \<Rightarrow> bool" where
  "wf_payload p \<longleftrightarrow> p \<noteq> [] \<and> utf8_valid p \<and> hd p \<noteq> CHR 0x22
     \<and> list_all (\<lambda>c. plain_char c \<and> c \<notin> {CHR ''='', CHR ''#''}) p"

definition wf_action :: "action_src \<Rightarrow> bool" where
  "wf_action a \<longleftrightarrow> as_name a \<in> set action_names \<and> list_all wf_property (as_properties a)
     \<and> (case as_payload a of None \<Rightarrow> as_properties a \<noteq> [] | Some (bs, p) \<Rightarrow> bs \<noteq> [] \<and> wf_payload p)"

text \<open>What follows a payload: blanks, then something that is not an equals sign.\<close>

lemma payload_no_property:
  assumes "wf_payload p" and "list_all wf_property ps" and "end_of_line t"
  shows "peg manifest_grammar n False (Rule M_property) (p @ properties_text ps @ t) = Some None"
proof -
  define k r where "k = takeWhile name_char p" and "r = dropWhile name_char p"
  have p: "p = k @ r" by (simp add: k_def r_def)
  have k: "list_all name_char k" by (auto simp: k_def list_all_iff dest: set_takeWhileD)
  have r: "r = [] \<or> \<not> name_char (hd r)" using hd_dropWhile [of name_char p] by (auto simp: r_def)
  let ?t = "properties_text ps @ t"
  have t: "no_name ?t"
  proof (cases ps)
    case Nil
    with end_of_lineD [OF assms(3)] show ?thesis by (simp add: properties_text_def)
  next
    case (Cons q qs)
    with assms(2) show ?thesis
      by (cases "ps_blanks q"; cases "hd (ps_blanks q)")
        (auto simp: properties_text_def property_text_def wf_property_def blanks_text_def no_name_def
          name_char_def ascii_alphanumeric_def byte_class_def)
  qed
  have "\<exists>s. peg manifest_grammar n True (skip manifest_grammar) (r @ ?t) = Some (Some ([], s))
      \<and> \<not> prefix ''='' s"
  proof (cases r)
    case (Cons c r')
    then have "settled (r @ ?t)" "c \<noteq> CHR ''=''"
      using assms(1) p by (auto simp: wf_payload_def settled_def plain_char_def)
    with Cons skip_nothing show ?thesis by auto
  next
    case Nil
    show ?thesis
    proof (cases ps)
      case Nil
      moreover have "\<not> prefix ''='' t" using assms(3) by (cases t) (auto simp: end_of_line_def)
      ultimately show ?thesis
        using \<open>r = []\<close> skip_nothing [OF end_of_lineD(1) [OF assms(3)]] by (simp add: properties_text_def)
    next
      case (Cons q qs)
      have "\<not> prefix ''='' (property_body q @ properties_text qs @ t)"
        using assms(2) Cons by (cases "ps_key q")
          (auto simp: wf_property_def property_body_def name_char_def ascii_alphanumeric_def byte_class_def)
      with Cons \<open>r = []\<close> assms(2) skip_blanks [OF property_settled, of q] show ?thesis
        by (auto simp: properties_text_def property_text_def)
    qed
  qed
  then obtain s where s: "peg manifest_grammar n True (skip manifest_grammar) (r @ ?t) = Some (Some ([], s))"
    "\<not> prefix ''='' s" by blast
  show ?thesis
  proof (cases "k = []")
    case True
    have "no_name (p @ ?t)" using True r t p by (cases r) (auto simp: no_name_def)
    then show ?thesis by (rule property_stop)
  next
    case False
    have "no_name (r @ ?t)" using r t by (cases r) (auto simp: no_name_def)
    from property_name_read [OF k False this]
    show ?thesis
      by (intro peg_rule_fail) (simp add: p peg_seq_skip [OF _ s(1)] peg_seq_fail peg_lit_fail s(2))
  qed
qed

lemma payload_read:
  assumes "wf_payload p" and "at_break t"
  shows "peg manifest_grammar n False (Rule M_payload) (p @ t) = Some (Some ([Pair M_payload p []], t))"
proof (rule peg_rule_atomic)
  have "list_all plain_char p" using assms(1) by (auto simp: wf_payload_def list_all_iff)
  with assms property_value_plain [of p t n]
  show "peg manifest_grammar n True (rule_body manifest_grammar M_payload) (p @ t) = Some (Some ([], t))"
    by (simp add: wf_payload_def peg_rule_atomic_context)
qed simp


text \<open>The pairs of an action: its name, the payload if there is one, the properties.\<close>

definition action_children :: "action_src \<Rightarrow> manifest_rule pair list" where
  "action_children a = Pair M_action_name (as_name a) []
     # (case as_payload a of None \<Rightarrow> [] | Some (bs, p) \<Rightarrow> [Pair M_payload p []])
     @ map property_tree (as_properties a)"

lemma properties_start_read:
  assumes "list_all wf_property ps" and "end_of_line t"
  shows "\<exists>s. peg manifest_grammar n True (skip manifest_grammar) (properties_text ps @ t) = Some (Some ([], s))
    \<and> peg manifest_grammar n False (Star (Rule M_property)) s = Some (Some (map property_tree ps, t))"
proof (cases ps)
  case Nil
  with assms(2) show ?thesis
    using skip_nothing peg_star_done [OF property_stop] end_of_lineD by (auto simp: properties_text_def)
next
  case (Cons p qs)
  have b: "at_break (properties_text qs @ t)"
    using Cons assms end_of_lineD by (simp add: properties_at_break)
  have "peg manifest_grammar n False (Star (Rule M_property)) (property_body p @ properties_text qs @ t)
      = Some (Some ([property_tree p] @ map property_tree qs, t))"
    using Cons assms by (intro peg_star_more [OF property_read [OF _ b] properties_read]) simp_all
  moreover have "peg manifest_grammar n True (skip manifest_grammar) (properties_text ps @ t)
      = Some (Some ([], property_body p @ properties_text qs @ t))"
    using Cons assms skip_blanks [OF property_settled] by (simp add: properties_text_def property_text_def)
  ultimately show ?thesis using Cons by simp
qed

lemma payload_settled: "wf_payload p \<Longrightarrow> settled (p @ t)"
  by (cases p) (auto simp: wf_payload_def settled_def plain_char_def)

text \<open>After the name: the first argument, the properties and the end \<open>e\<close> of the line.\<close>

lemma action_arguments_read:
  assumes "wf_action a" and "end_of_line t" and "peg manifest_grammar n False e t = Some (Some (te, t'))"
  shows "\<exists>s. peg manifest_grammar n True (skip manifest_grammar)
      (payload_text (as_payload a) @ properties_text (as_properties a) @ t) = Some (Some ([], s))
    \<and> peg manifest_grammar n False
        (seqs [Alt (Rule M_property) (Rule M_payload), Star (Rule M_property), e]) s
      = Some (Some (tl (action_children a) @ te, t'))"
proof -
  let ?g = manifest_grammar
  have wf: "list_all wf_property (as_properties a)" using assms(1) by (simp add: wf_action_def)
  have last: "peg ?g n False (Seq (Star (Rule M_property)) e) s = Some (Some (map property_tree ps @ te, t'))"
    if "peg ?g n False (Star (Rule M_property)) s = Some (Some (map property_tree ps, t))" for s ps
    using peg_seq_skip [OF that skip_nothing] assms(3) end_of_lineD [OF assms(2)] by simp
  show ?thesis
  proof (cases "as_payload a")
    case None
    then obtain p ps where ps: "as_properties a = p # ps" using assms(1) by (cases "as_properties a") (auto simp: wf_action_def)
    then have p: "wf_property p" "list_all wf_property ps" using wf by auto
    obtain s where s: "peg ?g n True (skip ?g) (properties_text ps @ t) = Some (Some ([], s))"
      "peg ?g n False (Star (Rule M_property)) s = Some (Some (map property_tree ps, t))"
      using properties_start_read [OF p(2) assms(2)] by blast
    have "at_break (properties_text ps @ t)" using p end_of_lineD [OF assms(2)] by (simp add: properties_at_break)
    from property_read [OF p(1) this]
    have "peg ?g n False (Alt (Rule M_property) (Rule M_payload)) (property_body p @ properties_text ps @ t)
        = Some (Some ([property_tree p], properties_text ps @ t))" by (rule peg_alt_first)
    from peg_seq_skip [OF this s(1)] last [OF s(2)] None ps skip_blanks [OF property_settled [OF p(1)]]
    show ?thesis by (simp add: payload_text_def properties_text_def property_text_def action_children_def)
  next
    case (Some z)
    then obtain bs p where z: "as_payload a = Some (bs, p)" "bs \<noteq> []" "wf_payload p"
      using assms(1) by (cases z) (auto simp: wf_action_def)
    let ?ps = "as_properties a"
    obtain s where s: "peg ?g n True (skip ?g) (properties_text ?ps @ t) = Some (Some ([], s))"
      "peg ?g n False (Star (Rule M_property)) s = Some (Some (map property_tree ?ps, t))"
      using properties_start_read [OF wf assms(2)] by blast
    have "at_break (properties_text ?ps @ t)" using wf end_of_lineD [OF assms(2)] by (simp add: properties_at_break)
    then have "peg ?g n False (Alt (Rule M_property) (Rule M_payload)) (p @ properties_text ?ps @ t)
        = Some (Some ([Pair M_payload p []], properties_text ?ps @ t))"
      using peg_alt_second [OF payload_no_property [OF z(3) wf assms(2)]] payload_read [OF z(3)] by simp
    from peg_seq_skip [OF this s(1)] last [OF s(2)] z(1) skip_blanks [OF payload_settled [OF z(3)]]
    show ?thesis by (simp add: payload_text_def action_children_def)
  qed
qed

lemma action_read:
  assumes "wf_action a" and "end_of_line t"
    and "peg manifest_grammar n False (Alt newline_exp Eoi) t = Some (Some (te, t'))" and "t = l @ t'"
  shows "peg manifest_grammar n False (Rule M_action) (action_text a @ t)
    = Some (Some ([Pair M_action (action_text a @ l) (action_children a @ te)], t'))"
proof -
  have name: "as_name a \<in> set action_names" using assms(1) by (simp add: wf_action_def)
  obtain s where s: "peg manifest_grammar n True (skip manifest_grammar)
      (payload_text (as_payload a) @ properties_text (as_properties a) @ t) = Some (Some ([], s))"
    "peg manifest_grammar n False (seqs [Alt (Rule M_property) (Rule M_payload), Star (Rule M_property),
       Alt newline_exp Eoi]) s = Some (Some (tl (action_children a) @ te, t'))"
    using action_arguments_read [OF assms(1-3)] by blast
  have "peg manifest_grammar n False (manifest_rule_body M_action) (action_text a @ t)
      = Some (Some (action_children a @ te, t'))"
    using peg_seq_skip [OF action_name_read [OF name] s(1)] s(2) by (simp add: action_text_def action_children_def)
  then show ?thesis
    using peg_rule_normal [of manifest_grammar M_action n "action_text a @ l" t'] assms(4) by simp
qed


subsection \<open>Whole documents\<close>

datatype item = Blank_line | Line action_src | Last_line action_src

fun item_text :: "item \<Rightarrow> string" where
  "item_text Blank_line = [CHR 0x0A]"
| "item_text (Line a) = action_text a @ [CHR 0x0A]"
| "item_text (Last_line a) = action_text a"

type_synonym document = "(string list \<times> item) list \<times> string list"

definition entries_text :: "(string list \<times> item) list \<Rightarrow> string" where
  "entries_text es = concat (map (\<lambda>(cs, it). comments_text cs @ item_text it) es)"

definition document_text :: "document \<Rightarrow> string" where
  "document_text d = entries_text (fst d) @ comments_text (snd d)"

fun wf_item :: "item \<Rightarrow> bool" where
  "wf_item Blank_line = True"
| "wf_item (Line a) = wf_action a"
| "wf_item (Last_line a) = wf_action a"

fun wf_entries :: "(string list \<times> item) list \<Rightarrow> string list \<Rightarrow> bool" where
  "wf_entries [] trailing \<longleftrightarrow> list_all wf_comment trailing"
| "wf_entries ((cs, it) # es) trailing \<longleftrightarrow> list_all wf_comment cs \<and> wf_item it
     \<and> (case it of Last_line _ \<Rightarrow> es = [] \<and> trailing = [] | _ \<Rightarrow> True) \<and> wf_entries es trailing"

definition wf_document :: "document \<Rightarrow> bool" where
  "wf_document d \<longleftrightarrow> fst d \<noteq> [] \<and> wf_entries (fst d) (snd d)"

fun item_trees :: "item \<Rightarrow> manifest_rule pair list" where
  "item_trees Blank_line = []"
| "item_trees (Line a) = [Pair M_action (action_text a @ [CHR 0x0A]) (action_children a)]"
| "item_trees (Last_line a) = [Pair M_action (action_text a) (action_children a @ [Pair M_EOI [] []])]"

definition entries_trees :: "(string list \<times> item) list \<Rightarrow> manifest_rule pair list" where
  "entries_trees es = concat (map (item_trees \<circ> snd) es)"

abbreviation item_exp :: "manifest_rule pexp" where
  "item_exp \<equiv> Alt newline_exp (Alt (Rule M_transform) (Rule M_action))"

lemma action_text_start:
  assumes "wf_action a"
  shows "\<exists>c s. action_text a = c # s \<and> c \<in> set ''sdflhgu''"
  using assms by (auto simp: wf_action_def action_text_def action_names_def)

lemma action_item_read:
  assumes "wf_action a" and "peg manifest_grammar n False (Rule M_action) (action_text a @ t) = r"
  shows "peg manifest_grammar n False item_exp (action_text a @ t) = r"
proof -
  obtain c s where a: "action_text a = c # s" "c \<in> set ''sdflhgu''" using action_text_start [OF assms(1)] by blast
  have "peg manifest_grammar n False newline_exp (action_text a @ t) = Some None"
    using a by (auto simp: reading)
  moreover have "peg manifest_grammar n False (Rule M_transform) (action_text a @ t) = Some None"
    using a by (intro peg_rule_fail) (auto simp: peg_seq_fail peg_lit_fail)
  ultimately show ?thesis using assms(2) by (simp only: peg_alt_second)
qed

lemma item_read:
  assumes "wf_item it" and "case it of Last_line _ \<Rightarrow> t = [] | _ \<Rightarrow> True"
  shows "peg manifest_grammar n False item_exp (item_text it @ t) = Some (Some (item_trees it, t))"
proof (cases it)
  case Blank_line
  then show ?thesis using peg_alt_first [OF newline_read] by simp
next
  case (Line a)
  have "peg manifest_grammar n False (Rule M_action) (action_text a @ CHR 0x0A # t)
      = Some (Some ([Pair M_action (action_text a @ [CHR 0x0A]) (action_children a @ [])], t))"
    using assms Line by (intro action_read peg_alt_first [OF newline_read]) (simp_all add: end_of_line_def)
  from action_item_read [OF _ this] Line assms show ?thesis by simp
next
  case (Last_line a)
  have "peg manifest_grammar n False newline_exp [] = Some None"
    by (simp add: reading)
  then have "peg manifest_grammar n False (Alt newline_exp Eoi) [] = Some (Some ([Pair M_EOI [] []], []))"
    by (simp only: peg_alt_second) (simp add: reading)
  then have "peg manifest_grammar n False (Rule M_action) (action_text a @ [])
      = Some (Some ([Pair M_action (action_text a @ []) (action_children a @ [Pair M_EOI [] []])], []))"
    using assms Last_line by (intro action_read) (simp_all add: end_of_line_def)
  with Last_line assms show ?thesis using action_item_read [of a n "[]"] by simp
qed

lemma item_settled: "wf_item it \<Longrightarrow> settled (item_text it @ t)"
  using action_text_start by (cases it) (fastforce simp: settled_def)+

lemma no_item: "peg manifest_grammar n False item_exp [] = Some None"
proof -
  have "peg manifest_grammar n False (Rule M_action) [] = Some None"
    by (intro peg_rule_fail) (simp add: peg_seq_fail action_name_stop end_of_line_def)
  moreover have "peg manifest_grammar n False (Rule M_transform) [] = Some None"
    by (intro peg_rule_fail) (simp add: peg_seq_fail peg_lit_fail)
  ultimately show ?thesis by (simp add: reading(1,2,7,13) fail_peg_def)
qed

lemma skip_comments:
  assumes "list_all wf_comment cs" and "settled t"
  shows "peg manifest_grammar n True (skip manifest_grammar) (comments_text cs @ t) = Some (Some ([], t))"
  using skip_read [OF assms, of n "[]"] by (simp add: blanks_text_def)

text \<open>The entries after the first one, and what is left is skipped to the end.\<close>

lemma entries_read:
  assumes "wf_entries es trailing"
  shows "\<exists>r. peg manifest_grammar n False (Tail item_exp) (entries_text es @ comments_text trailing)
      = Some (Some (entries_trees es, r))
    \<and> peg manifest_grammar n True (skip manifest_grammar) r = Some (Some ([], []))"
  using assms
proof (induction es)
  case Nil
  then have "peg manifest_grammar n True (skip manifest_grammar) (comments_text trailing) = Some (Some ([], []))"
    using skip_comments [of trailing "[]" n] by (simp add: settled_def)
  with peg_tail_done [OF this no_item] show ?case by (simp add: entries_text_def entries_trees_def)
next
  case (Cons e es)
  obtain cs it where e: "e = (cs, it)" by (cases e)
  let ?t = "entries_text es @ comments_text trailing"
  obtain r where r: "peg manifest_grammar n False (Tail item_exp) ?t = Some (Some (entries_trees es, r))"
    "peg manifest_grammar n True (skip manifest_grammar) r = Some (Some ([], []))"
    using Cons e by auto
  have "case it of Last_line _ \<Rightarrow> ?t = [] | _ \<Rightarrow> True"
    using Cons.prems e by (auto simp: entries_text_def comments_text_def split: item.splits)
  moreover have it: "wf_item it" "list_all wf_comment cs" using Cons.prems e by auto
  ultimately have "peg manifest_grammar n False item_exp (item_text it @ ?t) = Some (Some (item_trees it, ?t))"
    by (intro item_read)
  from peg_tail_more [OF skip_comments [OF it(2) item_settled [OF it(1)]] this r(1)] r(2) e
  show ?case by (auto simp: entries_text_def entries_trees_def)
qed


lemma entries_star_read:
  assumes "wf_entries es trailing"
  shows "\<exists>s r. peg manifest_grammar n True (skip manifest_grammar) (entries_text es @ comments_text trailing)
      = Some (Some ([], s))
    \<and> peg manifest_grammar n False (Star item_exp) s = Some (Some (entries_trees es, r))
    \<and> peg manifest_grammar n True (skip manifest_grammar) r = Some (Some ([], []))"
proof (cases es)
  case Nil
  then have "peg manifest_grammar n True (skip manifest_grammar) (comments_text trailing) = Some (Some ([], []))"
    "peg manifest_grammar n True (skip manifest_grammar) [] = Some (Some ([], []))"
    using skip_comments [of trailing "[]" n] assms skip_nothing [of "[]"] by (simp_all add: settled_def)
  with Nil peg_star_done [OF no_item] show ?thesis by (simp add: entries_text_def entries_trees_def)
next
  case (Cons e es')
  obtain cs it where e: "e = (cs, it)" by (cases e)
  let ?t = "entries_text es' @ comments_text trailing"
  obtain r where r: "peg manifest_grammar n False (Tail item_exp) ?t = Some (Some (entries_trees es', r))"
    "peg manifest_grammar n True (skip manifest_grammar) r = Some (Some ([], []))"
    using entries_read assms Cons e by fastforce
  have "case it of Last_line _ \<Rightarrow> ?t = [] | _ \<Rightarrow> True"
    using assms Cons e by (auto simp: entries_text_def comments_text_def split: item.splits)
  moreover have it: "wf_item it" "list_all wf_comment cs" using assms Cons e by auto
  ultimately have "peg manifest_grammar n False item_exp (item_text it @ ?t) = Some (Some (item_trees it, ?t))"
    by (intro item_read)
  from peg_star_more [OF this r(1)] r(2) skip_comments [OF it(2) item_settled [OF it(1), of ?t], of n] Cons e
  show ?thesis by (auto simp: entries_text_def entries_trees_def)
qed

text \<open>The tree of a document.\<close>

definition document_tree :: "document \<Rightarrow> manifest_rule pair" where
  "document_tree d = Pair M_manifest (document_text d) (entries_trees (fst d) @ [Pair M_EOI [] []])"

lemma document_read:
  assumes "wf_document d"
  shows "peg manifest_grammar (length (document_text d)) False (Rule M_manifest) (document_text d)
    = Some (Some ([document_tree d], []))"
proof -
  let ?n = "length (document_text d)"
  obtain cs it es trailing where d: "d = ((cs, it) # es, trailing)"
    using assms by (cases d; cases "fst d") (auto simp: wf_document_def)
  let ?t = "entries_text es @ comments_text trailing"
  have doc: "document_text d = comments_text cs @ item_text it @ ?t"
    by (simp add: d document_text_def entries_text_def)
  have it: "wf_item it" "list_all wf_comment cs" "wf_entries es trailing"
    using assms d by (auto simp: wf_document_def)
  have "case it of Last_line _ \<Rightarrow> ?t = [] | _ \<Rightarrow> True"
    using assms d by (auto simp: wf_document_def entries_text_def comments_text_def split: item.splits)
  then have item: "peg manifest_grammar ?n False item_exp (item_text it @ ?t) = Some (Some (item_trees it, ?t))"
    using it(1) by (intro item_read)
  obtain s r where sr: "peg manifest_grammar ?n True (skip manifest_grammar) ?t = Some (Some ([], s))"
    "peg manifest_grammar ?n False (Star item_exp) s = Some (Some (entries_trees es, r))"
    "peg manifest_grammar ?n True (skip manifest_grammar) r = Some (Some ([], []))"
    using entries_star_read [OF it(3)] by blast
  have items: "peg manifest_grammar ?n False (Plus item_exp) (item_text it @ ?t)
      = Some (Some (item_trees it @ entries_trees es, r))"
    using peg_seq_skip [OF item sr(1)] sr(2) by simp
  have soi: "peg manifest_grammar ?n False Soi (document_text d) = Some (Some ([], document_text d))"
    by (simp add: reading)
  have "peg manifest_grammar ?n True (skip manifest_grammar) (document_text d) = Some (Some ([], item_text it @ ?t))"
    unfolding doc using it by (intro skip_comments item_settled)
  from peg_seq_skip [OF soi this] peg_seq_skip [OF items sr(3)]
  have "peg manifest_grammar ?n False (manifest_rule_body M_manifest) (document_text d)
      = Some (Some (entries_trees (fst d) @ [Pair M_EOI [] []], []))"
    by (simp add: d entries_trees_def peg_equations(4) return_peg_def)
  then show ?thesis
    using peg_rule_normal [of manifest_grammar M_manifest ?n "document_text d" "[]"]
    by (simp add: document_tree_def)
qed

section \<open>What a document says\<close>

fun value_string :: "value_src \<Rightarrow> string" where
  "value_string (Plain v) = unquote v"
| "value_string (Quoted v) = unquote v"

definition src_property :: "property_src \<Rightarrow> Property" where
  "src_property p = \<lparr>prop_key = ps_key p, prop_value = value_string (ps_value p)\<rparr>"

definition src_action :: "action_src \<Rightarrow> Action" where
  "src_action a = (Action_new (get_action_kind (as_name a)))
     \<lparr>act_payload_string := (case as_payload a of None \<Rightarrow> [] | Some (bs, p) \<Rightarrow> p),
      act_properties := map src_property (as_properties a)\<rparr>"

fun item_actions :: "item \<Rightarrow> Action list" where
  "item_actions Blank_line = []"
| "item_actions (Line a) = [src_action a]"
| "item_actions (Last_line a) = [src_action a]"

definition document_actions :: "document \<Rightarrow> Action list" where
  "document_actions d = concat (map (item_actions \<circ> snd) (fst d))"

lemma property_of_tree: "property_of (property_tree p) = src_property p"
  by (cases "ps_value p") (simp_all add: property_of_def property_tree_def src_property_def pair_text_def str_remove_def)

lemma action_of_tree:
  assumes "ts = [] \<or> ts = [Pair M_EOI [] []]"
  shows "action_of (Pair M_action s (action_children a @ ts)) = src_action a"
proof -
  have "filter (\<lambda>t. as_rule t = r) (map property_tree ps) = (if r = M_property then map property_tree ps else [])" for r ps
    by (induction ps) (auto simp: property_tree_def)
  then show ?thesis
    using assms by (auto simp: action_of_def src_action_def action_children_def pair_text_def property_of_tree
        comp_def split: option.splits)
qed

lemma document_tree_actions: "manifest_actions [document_tree d] = document_actions d"
proof -
  have "map action_of (filter (\<lambda>t. as_rule t = M_action) (item_trees it)) = item_actions it" for it
    using action_of_tree [of "[]"] action_of_tree [of "[Pair M_EOI [] []]"] by (cases it) auto
  then show ?thesis
    by (simp add: manifest_actions_def document_tree_def document_actions_def entries_trees_def
        filter_concat map_concat comp_def)
qed

text \<open>Every parser with the choices of the grammar reads a document as its actions.\<close>

lemma document_parse:
  assumes "peg_parser manifest_grammar parse" and "wf_document d"
  shows "parse M_manifest (document_text d) = Ok [document_tree d]"
  using peg_parser.parse_match [OF assms(1) document_read [OF assms(2)]] .

lemma document_parse_string:
  assumes "peg_parser manifest_grammar parse" and "wf_document d"
  shows "parse_string parse (document_text d) = fold_res add_action (document_actions d) Manifest_new"
  using parse_string_loop [OF peg_parser.axioms(1) [OF assms(1)]] document_parse [OF assms]
  by (simp add: document_tree_actions)


section \<open>Printing actions\<close>

fun kind_name :: "ActionKind \<Rightarrow> string" where
  "kind_name Kind_Attr = ''set''"
| "kind_name Kind_Dependency = ''depend''"
| "kind_name Kind_Dir = ''dir''"
| "kind_name Kind_File = ''file''"
| "kind_name Kind_License = ''license''"
| "kind_name Kind_Link = ''link''"
| "kind_name Kind_Driver = ''driver''"
| "kind_name Kind_Group = ''group''"
| "kind_name Kind_User = ''user''"
| "kind_name Kind_Legacy = ''legacy''"
| "kind_name _ = []"

definition print_value :: "string \<Rightarrow> value_src" where
  "print_value v = (if wf_value (Plain v) then Plain v else Quoted v)"

definition print_property :: "Property \<Rightarrow> property_src" where
  "print_property p = \<lparr>ps_blanks = [Space], ps_key = prop_key p, ps_value = print_value (prop_value p)\<rparr>"

definition print_action :: "Action \<Rightarrow> action_src" where
  "print_action a = \<lparr>as_name = kind_name (act_kind a),
     as_payload = (if act_payload_string a = [] then None else Some ([Space], act_payload_string a)),
     as_properties = map print_property (act_properties a)\<rparr>"

definition print_document :: "Action list \<Rightarrow> document" where
  "print_document acts = (map (\<lambda>a. ([], Line (print_action a))) acts, [])"

definition print_actions :: "Action list \<Rightarrow> string" where
  "print_actions acts = document_text (print_document acts)"

text \<open>The actions that a manifest file can spell: what one line can hold.\<close>

definition printable_property :: "Property \<Rightarrow> bool" where
  "printable_property p \<longleftrightarrow> prop_key p \<noteq> [] \<and> list_all name_char (prop_key p)
     \<and> utf8_valid (prop_value p) \<and> set (prop_value p) \<inter> {CHR 0x22, CHR 0x5C} = {}"

definition printable :: "Action \<Rightarrow> bool" where
  "printable a \<longleftrightarrow> kind_name (act_kind a) \<noteq> [] \<and> act_payload a = Payload_default \<and> act_facets a = fmempty
     \<and> list_all printable_property (act_properties a)
     \<and> (if act_payload_string a = [] then act_properties a \<noteq> [] else wf_payload (act_payload_string a))"

lemma print_value_wf: "printable_property p \<Longrightarrow> wf_property (print_property p)"
  by (auto simp: printable_property_def print_property_def print_value_def wf_property_def)

lemma print_property_read: "printable_property p \<Longrightarrow> src_property (print_property p) = p"
  by (cases p) (auto simp: printable_property_def print_property_def print_value_def src_property_def
      str_remove_id)

lemma print_action_wf:
  assumes "printable a"
  shows "wf_action (print_action a)"
proof -
  have "kind_name (act_kind a) \<in> set action_names"
    using assms by (cases "act_kind a") (auto simp: printable_def action_names_def)
  with assms show ?thesis
    by (auto simp: wf_action_def print_action_def printable_def list_all_iff print_value_wf split: if_splits)
qed

lemma get_action_kind_name: "kind_name k \<noteq> [] \<Longrightarrow> get_action_kind (kind_name k) = k"
  by (cases k) (simp_all add: get_action_kind_def)

lemma print_action_read:
  assumes "printable a"
  shows "src_action (print_action a) = a"
proof -
  have "map (src_property \<circ> print_property) (act_properties a) = act_properties a"
    using assms by (intro map_idI) (auto simp: printable_def list_all_iff print_property_read)
  with assms show ?thesis
    by (cases a) (auto simp: src_action_def print_action_def printable_def get_action_kind_name Action_new_def)
qed

lemma print_document_wf:
  assumes "list_all printable acts" and "acts \<noteq> []"
  shows "wf_document (print_document acts)"
proof -
  have "wf_entries (map (\<lambda>a. ([], Line (print_action a))) acts) []"
    using assms(1) by (induction acts) (simp_all add: print_action_wf)
  with assms(2) show ?thesis by (simp add: wf_document_def print_document_def)
qed

lemma print_document_actions: "list_all printable acts \<Longrightarrow> document_actions (print_document acts) = acts"
  by (induction acts) (simp_all add: document_actions_def print_document_def print_action_read)

section \<open>A value that starts with a hash\<close>

text \<open>
  Comments may stand between any two parts of a property, also between \<^verbatim>\<open>=\<close> and the value. A value that starts
  with \<^verbatim>\<open>#\<close> is therefore taken for a comment up to the end of its line, and the first word of the next line becomes
  the value: the action on that line is lost.
\<close>

lemma hash_value_comment:
  "(case parse_string sample_parse (''set name=a value=#1'' @ [CHR 0x0A] @ ''link path=b'') of
      Ok m \<Rightarrow> map attr_values (m_attributes m) = [[''link'']] \<and> m_links m = []
    | _ \<Rightarrow> False)"
  by code_simp

section \<open>Properties\<close>

text \<open>
  C1: the round trip through the text of a manifest. Printing any nonempty list of actions that a manifest
  file can spell and reading the text again builds exactly the manifest of these actions, for every parser
  that makes the choices of the grammar; values with blanks or none at all are kept by their quotes.
\<close>

theorem print_parse_roundtrip:
  assumes "peg_parser manifest_grammar parse" and "list_all printable acts" and "acts \<noteq> []"
  shows "parse_string parse (print_actions acts) = fold_res add_action acts Manifest_new"
  using document_parse_string [OF assms(1) print_document_wf [OF assms(2,3)]] print_document_actions [OF assms(2)]
  by (simp add: print_actions_def)


lemma sample_printable: "list_all printable sample_actions"
  by (simp add: sample_actions_def Action_new_def printable_def printable_property_def wf_payload_def
      name_char_def plain_char_def ascii_alphanumeric_def byte_class_def utf8_valid_def)

lemma ref_peg_contract: "peg_parser manifest_grammar sample_parse"
  by (rule ref_peg.peg_parser_axioms)

theorem print_parse_roundtrip_witness:
  "print_actions sample_actions =
     ''set name=pkg.summary value='' @ [CHR 0x22] @ ''Nginx Webserver'' @ [CHR 0x22, CHR 0x0A]
     @ ''link path=usr/a target=b'' @ [CHR 0x0A] @ ''file Sol/smb mode=0555'' @ [CHR 0x0A]
   \<and> parse_string sample_parse (print_actions sample_actions) = fold_res add_action sample_actions Manifest_new"
proof
  show "print_actions sample_actions =
     ''set name=pkg.summary value='' @ [CHR 0x22] @ ''Nginx Webserver'' @ [CHR 0x22, CHR 0x0A]
     @ ''link path=usr/a target=b'' @ [CHR 0x0A] @ ''file Sol/smb mode=0555'' @ [CHR 0x0A]"
    by code_simp
  show "parse_string sample_parse (print_actions sample_actions) = fold_res add_action sample_actions Manifest_new"
    using print_parse_roundtrip [OF ref_peg_contract sample_printable] by (simp add: sample_actions_def)
qed

end
