(* ===== verification/Ips_Tests.thy ===== *)
theory Ips_Tests
  imports Ips_Manifest_Text
begin

text \<open>
  The unit tests of \<^verbatim>\<open>src/libips/src/lib.rs\<close>: for each test its manifest text, its expected values and the
  test function, whose assertions and out-of-range indexings are panics. The texts are the values of the Rust
  string literals, so a backslash at the end of a source line is not part of them. That the tests pass is the
  property of \<open>Ips_Tests_Pass\<close>.
\<close>


section \<open>Expected values\<close>

definition parse_attributes_manifest :: string where
  "parse_attributes_manifest =
     ''set name=pkg.fmri value=pkg://openindiana.org/web/server/nginx@1.18.0,5.11-2020.0.1.0:20200421T195136Z'' @ [CHR 0x0A]
     @ ''set name=com.oracle.info.name value=nginx value=test'' @ [CHR 0x0A]
     @ ''set name=userland.info.git-remote value=git://github.com/OpenIndiana/oi-userland.git'' @ [CHR 0x0A]
     @ ''set name=userland.info.git-branch value=HEAD'' @ [CHR 0x0A]
     @ ''set name=userland.info.git-rev value=1665491ba61bd494bf73e2916cd2250f3024260e'' @ [CHR 0x0A]
     @ ''set name=pkg.summary value='' @ [CHR 0x22] @ ''Nginx Webserver'' @ [CHR 0x22] @ [CHR 0x0A]
     @ ''set name=info.classification value='' @ [CHR 0x22] @ ''org.opensolaris.category.2008:Web Services/Application and Web Servers'' @ [CHR 0x22] @ [CHR 0x0A]
     @ ''set name=info.upstream-url value=http://nginx.net/'' @ [CHR 0x0A]
     @ ''set name=info.source-url value=http://nginx.org/download/nginx-1.18.0.tar.gz'' @ [CHR 0x0A]
     @ ''set name=org.opensolaris.consolidation value=userland'' @ [CHR 0x0A]
     @ ''set name=com.oracle.info.version value=1.18.0'' @ [CHR 0x0A]
     @ ''set name=pkg.summary value='' @ [CHR 0x22] @ ''provided mouse accessibility enhancements'' @ [CHR 0x22] @ [CHR 0x0A]
     @ ''set name=info.upstream value='' @ [CHR 0x22] @ ''X.Org Foundation'' @ [CHR 0x22] @ [CHR 0x0A]
     @ ''set name=pkg.description value='' @ [CHR 0x22] @ ''Latvian language support'' @ [CHR 0x27] @ ''s extra files'' @ [CHR 0x22] @ [CHR 0x0A]
     @ ''set name=variant.arch value=i386 optional=testing optionalWithString='' @ [CHR 0x22] @ ''test ing'' @ [CHR 0x22] @ [CHR 0x0A]
     @ ''set name=info.source-url value='' @ [CHR 0x22] @ ''http://www.pgpool.net/download.php?f=pgpool-II-3.3.1.tar.gz'' @ [CHR 0x22] @ [CHR 0x0A]
     @ ''set name=pkg.summary value='' @ [CHR 0x22, CHR 0x27] @ ''XZ Utils - loss-less file compression application and library.'' @ [CHR 0x27, CHR 0x22]"

definition optional_hash :: "(string, Property) HashMap" where
  "optional_hash =
     fmupd
       ''optionalWithString''
       (\<lparr>prop_key = ''optionalWithString'', prop_value = ''test ing''\<rparr>)
       (fmupd ''optional'' \<lparr>prop_key = ''optional'', prop_value = ''testing''\<rparr> fmempty)"

definition parse_attributes_results :: "Attr list" where
  "parse_attributes_results =
     [\<lparr>attr_key = ''pkg.fmri'',
       attr_values = [''pkg://openindiana.org/web/server/nginx@1.18.0,5.11-2020.0.1.0:20200421T195136Z''],
       attr_properties = fmempty\<rparr>,
      \<lparr>attr_key = ''com.oracle.info.name'', attr_values = [''nginx'', ''test''], attr_properties = fmempty\<rparr>,
      \<lparr>attr_key = ''userland.info.git-remote'',
       attr_values = [''git://github.com/OpenIndiana/oi-userland.git''], attr_properties = fmempty\<rparr>,
      \<lparr>attr_key = ''userland.info.git-branch'', attr_values = [''HEAD''], attr_properties = fmempty\<rparr>,
      \<lparr>attr_key = ''userland.info.git-rev'', attr_values = [''1665491ba61bd494bf73e2916cd2250f3024260e''],
       attr_properties = fmempty\<rparr>,
      \<lparr>attr_key = ''pkg.summary'', attr_values = [''Nginx Webserver''], attr_properties = fmempty\<rparr>,
      \<lparr>attr_key = ''info.classification'',
       attr_values = [''org.opensolaris.category.2008:Web Services/Application and Web Servers''],
       attr_properties = fmempty\<rparr>,
      \<lparr>attr_key = ''info.upstream-url'', attr_values = [''http://nginx.net/''], attr_properties = fmempty\<rparr>,
      \<lparr>attr_key = ''info.source-url'', attr_values = [''http://nginx.org/download/nginx-1.18.0.tar.gz''],
       attr_properties = fmempty\<rparr>,
      \<lparr>attr_key = ''org.opensolaris.consolidation'', attr_values = [''userland''], attr_properties = fmempty\<rparr>,
      \<lparr>attr_key = ''com.oracle.info.version'', attr_values = [''1.18.0''], attr_properties = fmempty\<rparr>,
      \<lparr>attr_key = ''pkg.summary'', attr_values = [''provided mouse accessibility enhancements''],
       attr_properties = fmempty\<rparr>,
      \<lparr>attr_key = ''info.upstream'', attr_values = [''X.Org Foundation''], attr_properties = fmempty\<rparr>,
      \<lparr>attr_key = ''pkg.description'',
       attr_values = [(''Latvian language support'' @ [CHR 0x27] @ ''s extra files'')],
       attr_properties = fmempty\<rparr>,
      \<lparr>attr_key = ''variant.arch'', attr_values = [''i386''], attr_properties = optional_hash\<rparr>,
      \<lparr>attr_key = ''info.source-url'',
       attr_values = [''http://www.pgpool.net/download.php?f=pgpool-II-3.3.1.tar.gz''],
       attr_properties = fmempty\<rparr>,
      \<lparr>attr_key = ''pkg.summary'',
       attr_values =
          [([CHR 0x27] @ ''XZ Utils - loss-less file compression application and library.'' @ [CHR 0x27])],
       attr_properties = fmempty\<rparr>]"

definition parse_direcory_actions_manifest :: string where
  "parse_direcory_actions_manifest =
     ''dir group=bin mode=0755 owner=root path=etc/nginx'' @ [CHR 0x0A]
     @ ''dir group=bin mode=0755 owner=root path=usr/share/nginx'' @ [CHR 0x0A]
     @ ''dir group=bin mode=0755 owner=root path=usr/share/nginx/html'' @ [CHR 0x0A]
     @ ''dir group=bin mode=0755 owner=webservd path=var/nginx/logs'' @ [CHR 0x0A]
     @ ''dir group=bin mode=0755 owner=root path='' @ [CHR 0x22] @ ''var/nginx'' @ [CHR 0x22]"

definition parse_direcory_actions_results :: "Dir list" where
  "parse_direcory_actions_results =
     [Dir_default
        \<lparr>dir_group := ''bin'', dir_mode := ''0755'', dir_owner := ''root'', dir_path := ''etc/nginx''\<rparr>,
      Dir_default
        \<lparr>dir_group := ''bin'', dir_mode := ''0755'', dir_owner := ''root'', dir_path := ''usr/share/nginx''\<rparr>,
      Dir_default
        \<lparr>dir_group := ''bin'', dir_mode := ''0755'', dir_owner := ''root'',
         dir_path := ''usr/share/nginx/html''\<rparr>,
      Dir_default
        \<lparr>dir_group := ''bin'', dir_mode := ''0755'', dir_owner := ''webservd'', dir_path := ''var/nginx/logs''\<rparr>,
      Dir_default
        \<lparr>dir_group := ''bin'', dir_mode := ''0755'', dir_owner := ''root'', dir_path := ''var/nginx''\<rparr>]"

definition parse_file_actions_manifest :: string where
  "parse_file_actions_manifest =
     ''file 4b76e83bb4bb7c87176b72ef805fe78ecae60d2c chash=7288afc78233791bb8e13b3e13aa4f0b4b1d6ee8 group=bin mode=555 owner=root path=lib/svc/method/http-nginx pkg.content-hash=file:sha512t_256:42007aaee6bd54977eb33f91db28f931ab11c39787ba9f7851b6baf0d142185b pkg.content-hash=gzip:sha512t_256:ec144533fa077af1d5b152d8c7549f113902021d71808adb12ea3f92bda9fd66 pkg.csize=975 pkg.size=1855'' @ [CHR 0x0A]
     @ ''file 72e0496a02e72e7380b0b62cdc8410108302876f chash=2f82b51db9cbba0705cb680e5aa0f11ff237009b group=sys mode=0444 owner=root path=lib/svc/manifest/network/http-nginx.xml pkg.content-hash=file:sha512t_256:c0c3640d6e61b53a3dc4228adff7532ec6b5d09bf1847991a3aaa5eb3e04d19a pkg.content-hash=gzip:sha512t_256:e1999bae58ef887d81dc686b794429a9dea0e7674b631c2a08f07fb9b34440e2 pkg.csize=1067 pkg.size=2844 restart_fmri=svc:/system/manifest-import:default'' @ [CHR 0x0A]
     @ ''file 95de71d58b37f9f74bede0e91bc381d6059fc2d7 chash=c2e2e4cf82ec527800a2170d9e2565b75d557012 group=bin mode=0444 owner=root path=usr/share/nginx/html/50x.html pkg.content-hash=file:sha512t_256:b592728ea1dcd6dd0924e1e6767e217ad70ec6973086911d8bc07d44695b9f0e pkg.content-hash=gzip:sha512t_256:8407d82b497c4a865841ab8874207cc5a4d581ba574d66074ef5f92f05ee13cf pkg.csize=327 pkg.size=494'' @ [CHR 0x0A]
     @ ''file 7dd71afcfb14e105e80b0c0d7fce370a28a41f0a chash=50b7bcf6c555b8e9bde1eacd2c3d5c34a757c312 group=bin mode=0444 owner=root path=usr/share/nginx/html/index.html pkg.content-hash=file:sha512t_256:204038cd5fbbcdd2c3d24acb7f41b1e861c51d689f53202ec69b43bdba01cb60 pkg.content-hash=gzip:sha512t_256:34bad6066578cf03289b0c957cb4f01a9353f91b3b95079d69bf9e12dd569279 pkg.csize=381 pkg.size=612'' @ [CHR 0x0A]
     @ ''file cbf596ddb3433a8e0d325f3c188bec9c1bb746b3 chash=2df27ca83841b9c8e38c5aa30760372773166928 group=bin mode=0644 owner=root path=etc/nginx/fastcgi.conf pkg.content-hash=file:sha512t_256:d260c064680ec58135d9a290ed3cfd64274db769701ab3df2bfdeb653a864518 pkg.content-hash=gzip:sha512t_256:4924c0f4bdc37b832afd281ad07b0bf339c8c3a0e2d95e076998d46fab76a084 pkg.csize=448 pkg.size=1077 preserve=true'' @ [CHR 0x0A]
     @ ''file da38e2a0dded838afbe0eade6cb837ac30fd8046 chash=530616dc345f6acf0aea26db06e56aa41b2f510d group=bin mode=0644 owner=root path=etc/nginx/fastcgi_params pkg.content-hash=file:sha512t_256:baeeb2df301f8764568a86884c127e90faf39bee4ff0e53fb4a890955e605cee pkg.content-hash=gzip:sha512t_256:5c6f541692556eacbde4ea1536de3c1af2cd8e9980fc4edca36851a97ed671ba pkg.csize=430 pkg.size=1007 preserve=true'' @ [CHR 0x0A]
     @ ''file 407cb51b397ba4ad90a2246640a81af18e2e917a chash=00d285c15dd65f24c4c89d5790094c38432a1ac6 group=bin mode=0644 owner=root path=etc/nginx/koi-utf pkg.content-hash=file:sha512t_256:06381b2c4a28fe88c0d908f1cd81453c9482358c8195163e294b8def8924b366 pkg.content-hash=gzip:sha512t_256:d66022b08971eaf9ddf3230a991b0d8352fcefe0f797305a94b5ca0574d70ff5 pkg.csize=938 pkg.size=2837 preserve=true'' @ [CHR 0x0A]
     @ ''file 19ec7fb71e7f00d7e8a1cfc1013490f0cfee572b chash=0f2588ac25780698ea7ebeac3ea0e9041502d501 group=bin mode=0644 owner=root path=etc/nginx/koi-win pkg.content-hash=file:sha512t_256:92d4df1df754d3e2cd8c52aba7415680c86097803b437bf0edcd8d022ab6aa8c pkg.content-hash=gzip:sha512t_256:2ad3bb0540d800f2115691c96e8ed35b9b91eb5c248bea199da22ffd102cc847 pkg.csize=749 pkg.size=2223 preserve=true'' @ [CHR 0x0A]
     @ ''file e39dbc36680b717ec902fadc805a302f1cf62245 chash=325af5a4b735284a3cdfd3b04bd249ff22334965 group=bin mode=0644 owner=root path=etc/nginx/mime.types pkg.content-hash=file:sha512t_256:8217c6955d644400707c4ecf1539ece4ee2fd1be4838654860f2ef2ecacdebd4 pkg.content-hash=gzip:sha512t_256:46566d205da4d67a6e12a1d3d2f78e3602770ce42ef2c117ee95b821aec90100 pkg.csize=990 pkg.size=5231 preserve=true'' @ [CHR 0x0A]
     @ ''file d143ca7a6aac765d28724af54d969a4bd2202383 chash=adacb374c514459417f07cacd4f8bf60644c9651 group=bin mode=0644 owner=root path=etc/nginx/nginx.conf pkg.content-hash=file:sha512t_256:cc9263a836b4db441340d2e041adf10136c9a8aa31259b868000f88c84032ba1 pkg.content-hash=gzip:sha512t_256:cf0cd12b5f3f1d9d15378e1a1bacaaff7589bf2c129312b277b66ea3418acc54 pkg.csize=997 pkg.size=2798 preserve=true'' @ [CHR 0x0A]
     @ ''file 379c1e2a2a5ffb8c91a07328d4c9be2bc58799fd chash=2c75c59e0de9208a9b96460d0566e5686708310c group=bin mode=0644 owner=root path=etc/nginx/scgi_params pkg.content-hash=file:sha512t_256:e6dd7076b6319abc3fcd04554fede95c8cc40f1e21a83772c36577f939e81cb6 pkg.content-hash=gzip:sha512t_256:48efb28df3607f1a8b67eab95d4ca19526e8351d10529d97cb4af05250f8ee95 pkg.csize=275 pkg.size=636 preserve=true'' @ [CHR 0x0A]
     @ ''file cc2fcdb4605dcac23d59f667889ccbdfdc6e3668 chash=62320c6c207a26bf9c68c39d0372f4d4b97b905f group=bin mode=0644 owner=root path=etc/nginx/uwsgi_params pkg.content-hash=file:sha512t_256:eb133ae0a357df02b4b02615bc47dc2e5328105dac2dbcbd647667e9bbc3b2fd pkg.content-hash=gzip:sha512t_256:e5a2625a67f5502c5911d7e7a850030b6af89929e182b2da74ecf6e79df0e9d2 pkg.csize=284 pkg.size=664 preserve=true'' @ [CHR 0x0A]
     @ ''file e10f2d42c9e581901d810928d01a3bf8f3372838 chash=fd231cdd1a726fcb2abeba90b31cbf4c7df6df4d group=bin mode=0644 owner=root path=etc/nginx/win-utf pkg.content-hash=file:sha512t_256:7620f21db4c06f3eb863c0cb0a8b3f62c435abd2f8f47794c42f08ad434d90dd pkg.content-hash=gzip:sha512t_256:ca16a95ddd6ef2043969db20915935829b8ccb6134588e1710b24baf45afd7bb pkg.csize=1197 pkg.size=3610 preserve=true'' @ [CHR 0x0A]
     @ ''file 6d5f820bb1d67594c7b757c79ef6f9242df49e98 chash=3ab17dde089f1eac7abd37d8efd700b5139d70b2 elfarch=i386 elfbits=64 elfhash=25b0cdd7736cddad78ce91b61385a8fdde91f7b2 group=bin mode=0555 owner=root path=usr/sbin/nginx pkg.content-hash=gelf:sha512t_256:add9bfb171c2a173b8f12d375884711527f40e592d100a337a9fae078c8beabd pkg.content-hash=gelf.unsigned:sha512t_256:add9bfb171c2a173b8f12d375884711527f40e592d100a337a9fae078c8beabd pkg.content-hash=file:sha512t_256:3d87b058a8e69b3a8dfab142f5e856549dcd531a371e3ca4d2be391655b0d076 pkg.content-hash=gzip:sha512t_256:7f93c48194b3e164ea35a9d2ddff310215769dbd27b45e9ab72beef1cce0d4f6 pkg.csize=657230 pkg.size=1598048'' @ [CHR 0x0A]
     @ ''file path=usr/lib/golang/1.16/src/cmd/go/testdata/mod/rsc.io_!c!g!o_v1.0.0.txt'' @ [CHR 0x0A]
     @ ''file path=usr/lib/golang/1.16/src/runtime/runtime-gdb_test.go.~1~''"

definition parse_file_actions_result1 :: File where
  "parse_file_actions_result1 =
     File_default
       \<lparr>file_payload :=
         Some
           (Payload_default
              \<lparr>primary_identifier := Digest_default\<lparr>hash := ''4b76e83bb4bb7c87176b72ef805fe78ecae60d2c''\<rparr>,
               additional_identifiers :=
                [Digest_default\<lparr>hash := ''7288afc78233791bb8e13b3e13aa4f0b4b1d6ee8''\<rparr>,
                 \<lparr>hash = ''42007aaee6bd54977eb33f91db28f931ab11c39787ba9f7851b6baf0d142185b'',
                  algorithm = SHA512Half, source = UncompressedFile\<rparr>,
                 \<lparr>hash = ''ec144533fa077af1d5b152d8c7549f113902021d71808adb12ea3f92bda9fd66'',
                  algorithm = SHA512Half, source = GzipCompressed\<rparr>]\<rparr>),
        file_group := ''bin'', file_mode := ''555'', file_owner := ''root'',
        file_path := ''lib/svc/method/http-nginx'',
        file_properties :=
         [\<lparr>prop_key = ''pkg.csize'', prop_value = ''975''\<rparr>, \<lparr>prop_key = ''pkg.size'', prop_value = ''1855''\<rparr>]\<rparr>"

definition parse_file_actions_result2 :: File where
  "parse_file_actions_result2 =
     File_default
       \<lparr>file_payload :=
         Some
           (Payload_default
              \<lparr>primary_identifier := Digest_default\<lparr>hash := ''72e0496a02e72e7380b0b62cdc8410108302876f''\<rparr>,
               additional_identifiers :=
                [Digest_default\<lparr>hash := ''2f82b51db9cbba0705cb680e5aa0f11ff237009b''\<rparr>,
                 \<lparr>hash = ''c0c3640d6e61b53a3dc4228adff7532ec6b5d09bf1847991a3aaa5eb3e04d19a'',
                  algorithm = SHA512Half, source = UncompressedFile\<rparr>,
                 \<lparr>hash = ''e1999bae58ef887d81dc686b794429a9dea0e7674b631c2a08f07fb9b34440e2'',
                  algorithm = SHA512Half, source = GzipCompressed\<rparr>]\<rparr>),
        file_group := ''sys'', file_mode := ''0444'', file_owner := ''root'',
        file_path := ''lib/svc/manifest/network/http-nginx.xml'',
        file_properties :=
         [\<lparr>prop_key = ''pkg.csize'', prop_value = ''1067''\<rparr>,
          \<lparr>prop_key = ''pkg.size'', prop_value = ''2844''\<rparr>,
          \<lparr>prop_key = ''restart_fmri'', prop_value = ''svc:/system/manifest-import:default''\<rparr>]\<rparr>"

definition parse_file_actions_result3 :: File where
  "parse_file_actions_result3 =
     File_default
       \<lparr>file_payload :=
         Some
           (Payload_default
              \<lparr>primary_identifier := Digest_default\<lparr>hash := ''95de71d58b37f9f74bede0e91bc381d6059fc2d7''\<rparr>,
               additional_identifiers :=
                [Digest_default\<lparr>hash := ''c2e2e4cf82ec527800a2170d9e2565b75d557012''\<rparr>,
                 \<lparr>hash = ''b592728ea1dcd6dd0924e1e6767e217ad70ec6973086911d8bc07d44695b9f0e'',
                  algorithm = SHA512Half, source = UncompressedFile\<rparr>,
                 \<lparr>hash = ''8407d82b497c4a865841ab8874207cc5a4d581ba574d66074ef5f92f05ee13cf'',
                  algorithm = SHA512Half, source = GzipCompressed\<rparr>]\<rparr>),
        file_group := ''bin'', file_mode := ''0444'', file_owner := ''root'',
        file_path := ''usr/share/nginx/html/50x.html'',
        file_properties :=
         [\<lparr>prop_key = ''pkg.csize'', prop_value = ''327''\<rparr>, \<lparr>prop_key = ''pkg.size'', prop_value = ''494''\<rparr>]\<rparr>"

definition parse_file_actions_result4 :: File where
  "parse_file_actions_result4 =
     File_default
       \<lparr>file_payload :=
         Some
           (Payload_default
              \<lparr>primary_identifier := Digest_default\<lparr>hash := ''7dd71afcfb14e105e80b0c0d7fce370a28a41f0a''\<rparr>,
               additional_identifiers :=
                [Digest_default\<lparr>hash := ''50b7bcf6c555b8e9bde1eacd2c3d5c34a757c312''\<rparr>,
                 \<lparr>hash = ''204038cd5fbbcdd2c3d24acb7f41b1e861c51d689f53202ec69b43bdba01cb60'',
                  algorithm = SHA512Half, source = UncompressedFile\<rparr>,
                 \<lparr>hash = ''34bad6066578cf03289b0c957cb4f01a9353f91b3b95079d69bf9e12dd569279'',
                  algorithm = SHA512Half, source = GzipCompressed\<rparr>]\<rparr>),
        file_group := ''bin'', file_mode := ''0444'', file_owner := ''root'',
        file_path := ''usr/share/nginx/html/index.html'',
        file_properties :=
         [\<lparr>prop_key = ''pkg.csize'', prop_value = ''381''\<rparr>, \<lparr>prop_key = ''pkg.size'', prop_value = ''612''\<rparr>]\<rparr>"

definition parse_file_actions_result5 :: File where
  "parse_file_actions_result5 =
     File_default
       \<lparr>file_payload :=
         Some
           (Payload_default
              \<lparr>primary_identifier := Digest_default\<lparr>hash := ''cbf596ddb3433a8e0d325f3c188bec9c1bb746b3''\<rparr>,
               additional_identifiers :=
                [Digest_default\<lparr>hash := ''2df27ca83841b9c8e38c5aa30760372773166928''\<rparr>,
                 \<lparr>hash = ''d260c064680ec58135d9a290ed3cfd64274db769701ab3df2bfdeb653a864518'',
                  algorithm = SHA512Half, source = UncompressedFile\<rparr>,
                 \<lparr>hash = ''4924c0f4bdc37b832afd281ad07b0bf339c8c3a0e2d95e076998d46fab76a084'',
                  algorithm = SHA512Half, source = GzipCompressed\<rparr>]\<rparr>),
        file_group := ''bin'', file_mode := ''0644'', file_owner := ''root'',
        file_path := ''etc/nginx/fastcgi.conf'', file_preserve := True,
        file_properties :=
         [\<lparr>prop_key = ''pkg.csize'', prop_value = ''448''\<rparr>, \<lparr>prop_key = ''pkg.size'', prop_value = ''1077''\<rparr>]\<rparr>"

definition parse_file_actions_result6 :: File where
  "parse_file_actions_result6 =
     File_default
       \<lparr>file_payload :=
         Some
           (Payload_default
              \<lparr>primary_identifier := Digest_default\<lparr>hash := ''da38e2a0dded838afbe0eade6cb837ac30fd8046''\<rparr>,
               additional_identifiers :=
                [Digest_default\<lparr>hash := ''530616dc345f6acf0aea26db06e56aa41b2f510d''\<rparr>,
                 \<lparr>hash = ''baeeb2df301f8764568a86884c127e90faf39bee4ff0e53fb4a890955e605cee'',
                  algorithm = SHA512Half, source = UncompressedFile\<rparr>,
                 \<lparr>hash = ''5c6f541692556eacbde4ea1536de3c1af2cd8e9980fc4edca36851a97ed671ba'',
                  algorithm = SHA512Half, source = GzipCompressed\<rparr>]\<rparr>),
        file_group := ''bin'', file_mode := ''0644'', file_owner := ''root'',
        file_path := ''etc/nginx/fastcgi_params'', file_preserve := True,
        file_properties :=
         [\<lparr>prop_key = ''pkg.csize'', prop_value = ''430''\<rparr>, \<lparr>prop_key = ''pkg.size'', prop_value = ''1007''\<rparr>]\<rparr>"

definition parse_file_actions_result7 :: File where
  "parse_file_actions_result7 =
     File_default
       \<lparr>file_payload :=
         Some
           (Payload_default
              \<lparr>primary_identifier := Digest_default\<lparr>hash := ''407cb51b397ba4ad90a2246640a81af18e2e917a''\<rparr>,
               additional_identifiers :=
                [Digest_default\<lparr>hash := ''00d285c15dd65f24c4c89d5790094c38432a1ac6''\<rparr>,
                 \<lparr>hash = ''06381b2c4a28fe88c0d908f1cd81453c9482358c8195163e294b8def8924b366'',
                  algorithm = SHA512Half, source = UncompressedFile\<rparr>,
                 \<lparr>hash = ''d66022b08971eaf9ddf3230a991b0d8352fcefe0f797305a94b5ca0574d70ff5'',
                  algorithm = SHA512Half, source = GzipCompressed\<rparr>]\<rparr>),
        file_group := ''bin'', file_mode := ''0644'', file_owner := ''root'',
        file_path := ''etc/nginx/koi-utf'', file_preserve := True,
        file_properties :=
         [\<lparr>prop_key = ''pkg.csize'', prop_value = ''938''\<rparr>, \<lparr>prop_key = ''pkg.size'', prop_value = ''2837''\<rparr>]\<rparr>"

definition parse_file_actions_result8 :: File where
  "parse_file_actions_result8 =
     File_default
       \<lparr>file_payload :=
         Some
           (Payload_default
              \<lparr>primary_identifier := Digest_default\<lparr>hash := ''19ec7fb71e7f00d7e8a1cfc1013490f0cfee572b''\<rparr>,
               additional_identifiers :=
                [Digest_default\<lparr>hash := ''0f2588ac25780698ea7ebeac3ea0e9041502d501''\<rparr>,
                 \<lparr>hash = ''92d4df1df754d3e2cd8c52aba7415680c86097803b437bf0edcd8d022ab6aa8c'',
                  algorithm = SHA512Half, source = UncompressedFile\<rparr>,
                 \<lparr>hash = ''2ad3bb0540d800f2115691c96e8ed35b9b91eb5c248bea199da22ffd102cc847'',
                  algorithm = SHA512Half, source = GzipCompressed\<rparr>]\<rparr>),
        file_group := ''bin'', file_mode := ''0644'', file_owner := ''root'',
        file_path := ''etc/nginx/koi-win'', file_preserve := True,
        file_properties :=
         [\<lparr>prop_key = ''pkg.csize'', prop_value = ''749''\<rparr>, \<lparr>prop_key = ''pkg.size'', prop_value = ''2223''\<rparr>]\<rparr>"

definition parse_file_actions_result9 :: File where
  "parse_file_actions_result9 =
     File_default
       \<lparr>file_payload :=
         Some
           (Payload_default
              \<lparr>primary_identifier := Digest_default\<lparr>hash := ''e39dbc36680b717ec902fadc805a302f1cf62245''\<rparr>,
               additional_identifiers :=
                [Digest_default\<lparr>hash := ''325af5a4b735284a3cdfd3b04bd249ff22334965''\<rparr>,
                 \<lparr>hash = ''8217c6955d644400707c4ecf1539ece4ee2fd1be4838654860f2ef2ecacdebd4'',
                  algorithm = SHA512Half, source = UncompressedFile\<rparr>,
                 \<lparr>hash = ''46566d205da4d67a6e12a1d3d2f78e3602770ce42ef2c117ee95b821aec90100'',
                  algorithm = SHA512Half, source = GzipCompressed\<rparr>]\<rparr>),
        file_group := ''bin'', file_mode := ''0644'', file_owner := ''root'',
        file_path := ''etc/nginx/mime.types'', file_preserve := True,
        file_properties :=
         [\<lparr>prop_key = ''pkg.csize'', prop_value = ''990''\<rparr>, \<lparr>prop_key = ''pkg.size'', prop_value = ''5231''\<rparr>]\<rparr>"

definition parse_file_actions_result10 :: File where
  "parse_file_actions_result10 =
     File_default
       \<lparr>file_payload :=
         Some
           (Payload_default
              \<lparr>primary_identifier := Digest_default\<lparr>hash := ''d143ca7a6aac765d28724af54d969a4bd2202383''\<rparr>,
               additional_identifiers :=
                [Digest_default\<lparr>hash := ''adacb374c514459417f07cacd4f8bf60644c9651''\<rparr>,
                 \<lparr>hash = ''cc9263a836b4db441340d2e041adf10136c9a8aa31259b868000f88c84032ba1'',
                  algorithm = SHA512Half, source = UncompressedFile\<rparr>,
                 \<lparr>hash = ''cf0cd12b5f3f1d9d15378e1a1bacaaff7589bf2c129312b277b66ea3418acc54'',
                  algorithm = SHA512Half, source = GzipCompressed\<rparr>]\<rparr>),
        file_group := ''bin'', file_mode := ''0644'', file_owner := ''root'',
        file_path := ''etc/nginx/nginx.conf'', file_preserve := True,
        file_properties :=
         [\<lparr>prop_key = ''pkg.csize'', prop_value = ''997''\<rparr>, \<lparr>prop_key = ''pkg.size'', prop_value = ''2798''\<rparr>]\<rparr>"

definition parse_file_actions_result11 :: File where
  "parse_file_actions_result11 =
     File_default
       \<lparr>file_payload :=
         Some
           (Payload_default
              \<lparr>primary_identifier := Digest_default\<lparr>hash := ''379c1e2a2a5ffb8c91a07328d4c9be2bc58799fd''\<rparr>,
               additional_identifiers :=
                [Digest_default\<lparr>hash := ''2c75c59e0de9208a9b96460d0566e5686708310c''\<rparr>,
                 \<lparr>hash = ''e6dd7076b6319abc3fcd04554fede95c8cc40f1e21a83772c36577f939e81cb6'',
                  algorithm = SHA512Half, source = UncompressedFile\<rparr>,
                 \<lparr>hash = ''48efb28df3607f1a8b67eab95d4ca19526e8351d10529d97cb4af05250f8ee95'',
                  algorithm = SHA512Half, source = GzipCompressed\<rparr>]\<rparr>),
        file_group := ''bin'', file_mode := ''0644'', file_owner := ''root'',
        file_path := ''etc/nginx/scgi_params'', file_preserve := True,
        file_properties :=
         [\<lparr>prop_key = ''pkg.csize'', prop_value = ''275''\<rparr>, \<lparr>prop_key = ''pkg.size'', prop_value = ''636''\<rparr>]\<rparr>"

definition parse_file_actions_result12 :: File where
  "parse_file_actions_result12 =
     File_default
       \<lparr>file_payload :=
         Some
           (Payload_default
              \<lparr>primary_identifier := Digest_default\<lparr>hash := ''cc2fcdb4605dcac23d59f667889ccbdfdc6e3668''\<rparr>,
               additional_identifiers :=
                [Digest_default\<lparr>hash := ''62320c6c207a26bf9c68c39d0372f4d4b97b905f''\<rparr>,
                 \<lparr>hash = ''eb133ae0a357df02b4b02615bc47dc2e5328105dac2dbcbd647667e9bbc3b2fd'',
                  algorithm = SHA512Half, source = UncompressedFile\<rparr>,
                 \<lparr>hash = ''e5a2625a67f5502c5911d7e7a850030b6af89929e182b2da74ecf6e79df0e9d2'',
                  algorithm = SHA512Half, source = GzipCompressed\<rparr>]\<rparr>),
        file_group := ''bin'', file_mode := ''0644'', file_owner := ''root'',
        file_path := ''etc/nginx/uwsgi_params'', file_preserve := True,
        file_properties :=
         [\<lparr>prop_key = ''pkg.csize'', prop_value = ''284''\<rparr>, \<lparr>prop_key = ''pkg.size'', prop_value = ''664''\<rparr>]\<rparr>"

definition parse_file_actions_result13 :: File where
  "parse_file_actions_result13 =
     File_default
       \<lparr>file_payload :=
         Some
           (Payload_default
              \<lparr>primary_identifier := Digest_default\<lparr>hash := ''e10f2d42c9e581901d810928d01a3bf8f3372838''\<rparr>,
               additional_identifiers :=
                [Digest_default\<lparr>hash := ''fd231cdd1a726fcb2abeba90b31cbf4c7df6df4d''\<rparr>,
                 \<lparr>hash = ''7620f21db4c06f3eb863c0cb0a8b3f62c435abd2f8f47794c42f08ad434d90dd'',
                  algorithm = SHA512Half, source = UncompressedFile\<rparr>,
                 \<lparr>hash = ''ca16a95ddd6ef2043969db20915935829b8ccb6134588e1710b24baf45afd7bb'',
                  algorithm = SHA512Half, source = GzipCompressed\<rparr>]\<rparr>),
        file_group := ''bin'', file_mode := ''0644'', file_owner := ''root'',
        file_path := ''etc/nginx/win-utf'', file_preserve := True,
        file_properties :=
         [\<lparr>prop_key = ''pkg.csize'', prop_value = ''1197''\<rparr>, \<lparr>prop_key = ''pkg.size'', prop_value = ''3610''\<rparr>]\<rparr>"

definition parse_file_actions_result14 :: File where
  "parse_file_actions_result14 =
     File_default
       \<lparr>file_payload :=
         Some
           (Payload_default
              \<lparr>primary_identifier := Digest_default\<lparr>hash := ''6d5f820bb1d67594c7b757c79ef6f9242df49e98''\<rparr>,
               additional_identifiers :=
                [Digest_default\<lparr>hash := ''3ab17dde089f1eac7abd37d8efd700b5139d70b2''\<rparr>,
                 \<lparr>hash = ''add9bfb171c2a173b8f12d375884711527f40e592d100a337a9fae078c8beabd'',
                  algorithm = SHA512Half, source = GNUElf\<rparr>,
                 \<lparr>hash = ''add9bfb171c2a173b8f12d375884711527f40e592d100a337a9fae078c8beabd'',
                  algorithm = SHA512Half, source = GNUElfUnsigned\<rparr>,
                 \<lparr>hash = ''3d87b058a8e69b3a8dfab142f5e856549dcd531a371e3ca4d2be391655b0d076'',
                  algorithm = SHA512Half, source = UncompressedFile\<rparr>,
                 \<lparr>hash = ''7f93c48194b3e164ea35a9d2ddff310215769dbd27b45e9ab72beef1cce0d4f6'',
                  algorithm = SHA512Half, source = GzipCompressed\<rparr>]\<rparr>),
        file_group := ''bin'', file_mode := ''0555'', file_owner := ''root'', file_path := ''usr/sbin/nginx'',
        file_properties :=
         [\<lparr>prop_key = ''elfarch'', prop_value = ''i386''\<rparr>,
          \<lparr>prop_key = ''elfbits'', prop_value = ''64''\<rparr>,
          \<lparr>prop_key = ''elfhash'', prop_value = ''25b0cdd7736cddad78ce91b61385a8fdde91f7b2''\<rparr>,
          \<lparr>prop_key = ''pkg.csize'', prop_value = ''657230''\<rparr>,
          \<lparr>prop_key = ''pkg.size'', prop_value = ''1598048''\<rparr>]\<rparr>"

definition parse_file_actions_result15 :: File where
  "parse_file_actions_result15 =
     File_default\<lparr>file_path := ''usr/lib/golang/1.16/src/cmd/go/testdata/mod/rsc.io_!c!g!o_v1.0.0.txt''\<rparr>"

definition parse_file_actions_result16 :: File where
  "parse_file_actions_result16 =
     File_default\<lparr>file_path := ''usr/lib/golang/1.16/src/runtime/runtime-gdb_test.go.~1~''\<rparr>"

definition parse_file_actions_results :: "File list" where
  "parse_file_actions_results =
     [parse_file_actions_result1,
      parse_file_actions_result2,
      parse_file_actions_result3,
      parse_file_actions_result4,
      parse_file_actions_result5,
      parse_file_actions_result6,
      parse_file_actions_result7,
      parse_file_actions_result8,
      parse_file_actions_result9,
      parse_file_actions_result10,
      parse_file_actions_result11,
      parse_file_actions_result12,
      parse_file_actions_result13,
      parse_file_actions_result14,
      parse_file_actions_result15,
      parse_file_actions_result16]"

definition parse_dependency_actions_manifest :: string where
  "parse_dependency_actions_manifest =
     ''depend fmri=pkg:/system/library@0.5.11-2020.0.1.19563 type=require'' @ [CHR 0x0A]
     @ ''depend fmri=pkg:/system/file-system/nfs@0.5.11,5.11-2020.0.1.19951 type=incorporate'' @ [CHR 0x0A]
     @ ''depend facet.version-lock.system/data/hardware-registry=true fmri=pkg:/system/data/hardware-registry@2020.2.22,5.11-2020.0.1.19951 type=incorporate'' @ [CHR 0x0A]
     @ ''depend facet.version-lock.xvm=true fmri=xvm@0.5.11-2015.0.2.0 type=incorporate'' @ [CHR 0x0A]
     @ ''depend facet.version-lock.system/mozilla-nss=true fmri=system/mozilla-nss@3.51.1-2020.0.1.0 type=incorporate''"

definition parse_dependency_actions_results :: "Dependency list" where
  "parse_dependency_actions_results =
     [Dependency_default
        \<lparr>dep_fmri := ''pkg:/system/library@0.5.11-2020.0.1.19563'', dep_dependency_type := ''require''\<rparr>,
      Dependency_default
        \<lparr>dep_fmri := ''pkg:/system/file-system/nfs@0.5.11,5.11-2020.0.1.19951'',
         dep_dependency_type := ''incorporate''\<rparr>,
      Dependency_default
        \<lparr>dep_fmri := ''pkg:/system/data/hardware-registry@2020.2.22,5.11-2020.0.1.19951'',
         dep_dependency_type := ''incorporate'',
         dep_facets :=
          fmupd
            ''version-lock.system/data/hardware-registry''
            (\<lparr>facet_name = ''version-lock.system/data/hardware-registry'', facet_value = ''true''\<rparr>)
            fmempty\<rparr>,
      Dependency_default
        \<lparr>dep_fmri := ''xvm@0.5.11-2015.0.2.0'', dep_dependency_type := ''incorporate'',
         dep_facets :=
          fmupd ''version-lock.xvm'' \<lparr>facet_name = ''version-lock.xvm'', facet_value = ''true''\<rparr> fmempty\<rparr>,
      Dependency_default
        \<lparr>dep_fmri := ''system/mozilla-nss@3.51.1-2020.0.1.0'', dep_dependency_type := ''incorporate'',
         dep_facets :=
          fmupd
            ''version-lock.system/mozilla-nss''
            (\<lparr>facet_name = ''version-lock.system/mozilla-nss'', facet_value = ''true''\<rparr>)
            fmempty\<rparr>]"

definition parse_line_breaks_manifest :: string where
  "parse_line_breaks_manifest =
     ''link path=usr/lib/cups/backend/http target=ipp'' @ [CHR 0x0A]
     @ ''file Solaris/desktop-print-management mode=0555 path=usr/lib/cups/bin/desktop-print-management'' @ [CHR 0x0A]
     @ ''file Solaris/desktop-print-management-applet mode=0555 path=usr/lib/cups/bin/desktop-print-management-applet'' @ [CHR 0x0A]
     @ ''file Solaris/smb mode=0555 path=usr/lib/cups/backend/smb'' @ [CHR 0x0A]
     @ ''# SMF service start method script'' @ [CHR 0x0A]
     @ ''file Solaris/svc-cupsd mode=0644 path=lib/svc/method/svc-cupsd'' @ [CHR 0x0A]
     @ [CHR 0x0A]
     @ ''# SMF help'' @ [CHR 0x0A]
     @ ''file Solaris/ManageCUPS.html mode=0444 path=usr/lib/help/auths/locale/C/ManageCUPS.html''"

definition parse_line_breaks_files :: "File list" where
  "parse_line_breaks_files =
     [File_default
        \<lparr>file_path := ''usr/lib/cups/bin/desktop-print-management'', file_mode := ''0555'',
         file_properties := [\<lparr>prop_key = ''original-path'', prop_value = ''Solaris/desktop-print-management''\<rparr>]\<rparr>,
      File_default
        \<lparr>file_path := ''usr/lib/cups/bin/desktop-print-management-applet'', file_mode := ''0555'',
         file_properties :=
          [\<lparr>prop_key = ''original-path'', prop_value = ''Solaris/desktop-print-management-applet''\<rparr>]\<rparr>,
      File_default
        \<lparr>file_path := ''usr/lib/cups/backend/smb'', file_mode := ''0555'',
         file_properties := [\<lparr>prop_key = ''original-path'', prop_value = ''Solaris/smb''\<rparr>]\<rparr>,
      File_default
        \<lparr>file_path := ''lib/svc/method/svc-cupsd'', file_mode := ''0644'',
         file_properties := [\<lparr>prop_key = ''original-path'', prop_value = ''Solaris/svc-cupsd''\<rparr>]\<rparr>,
      File_default
        \<lparr>file_path := ''usr/lib/help/auths/locale/C/ManageCUPS.html'', file_mode := ''0444'',
         file_properties := [\<lparr>prop_key = ''original-path'', prop_value = ''Solaris/ManageCUPS.html''\<rparr>]\<rparr>]"

definition parse_line_breaks_links :: "Link list" where
  "parse_line_breaks_links =
     [Link_default\<lparr>link_path := ''usr/lib/cups/backend/http'', link_target := ''ipp''\<rparr>]"

definition parse_unicode_manifest :: string where
  "parse_unicode_manifest =
     ''link path=usr/lib/cups/'' @ [CHR 0xD0, CHR 0xBF, CHR 0xD0, CHR 0xB5, CHR 0xD1, CHR 0x80, CHR 0xD1, CHR 0x82, CHR 0xD0, CHR 0xB8, CHR 0xD0, CHR 0xBD, CHR 0xD0, CHR 0xB0, CHR 0xD1, CHR 0x85] @ ''/http target='' @ [CHR 0xD0, CHR 0x9F, CHR 0xD1, CHR 0x80, CHR 0xD0, CHR 0xBE] @ [CHR 0x0A]
     @ ''# SMF blub'' @ [CHR 0x0A]
     @ ''link path=usr/lib/cups/'' @ [CHR 0xD0, CHR 0xBF, CHR 0xD0, CHR 0xB5, CHR 0xD1, CHR 0x80, CHR 0xD1, CHR 0x82, CHR 0xD0, CHR 0xB8, CHR 0xD0, CHR 0xBD, CHR 0xD0, CHR 0xB0, CHR 0xD1, CHR 0x85] @ ''/http target=blub''"

definition parse_unicode_links :: "Link list" where
  "parse_unicode_links =
     [Link_default
        \<lparr>link_path :=
          (''usr/lib/cups/'' @ [CHR 0xD0, CHR 0xBF, CHR 0xD0, CHR 0xB5, CHR 0xD1, CHR 0x80, CHR 0xD1, CHR 0x82, CHR 0xD0, CHR 0xB8, CHR 0xD0, CHR 0xBD, CHR 0xD0, CHR 0xB0, CHR 0xD1, CHR 0x85] @ ''/http''),
         link_target := [CHR 0xD0, CHR 0x9F, CHR 0xD1, CHR 0x80, CHR 0xD0, CHR 0xBE]\<rparr>,
      Link_default
        \<lparr>link_path :=
          (''usr/lib/cups/'' @ [CHR 0xD0, CHR 0xBF, CHR 0xD0, CHR 0xB5, CHR 0xD1, CHR 0x80, CHR 0xD1, CHR 0x82, CHR 0xD0, CHR 0xB8, CHR 0xD0, CHR 0xBD, CHR 0xD0, CHR 0xB0, CHR 0xD1, CHR 0x85] @ ''/http''),
         link_target := ''blub''\<rparr>]"

section \<open>The tests\<close>

text \<open>Indexing a vector.\<close>

definition index :: "'a list \<Rightarrow> nat \<Rightarrow> ('a, 'e) res" where
  "index xs i = (if i < length xs then Ok (xs ! i) else Panic ''index out of bounds'')"

text \<open>\<^verbatim>\<open>for (pos, x) in xs.iter().enumerate()\<close>.\<close>

definition for_enumerated :: "'a list \<Rightarrow> (nat \<Rightarrow> 'a \<Rightarrow> (unit, 'e) res) \<Rightarrow> (unit, 'e) res" where
  "for_enumerated xs body = fold_res (\<lambda>(pos, x) _. body pos x) (List.enumerate 0 xs) ()"

text \<open>\<^verbatim>\<open>assert!(res.is_ok()); let manifest = res.unwrap();\<close>\<close>

definition unwrap_parsed :: "(Manifest, ActionError) res \<Rightarrow> (Manifest, ActionError) res" where
  "unwrap_parsed r =
     (case r of Ok m \<Rightarrow> Ok m | Err e \<Rightarrow> Panic ''error during Manifest parsing'' | Panic msg \<Rightarrow> Panic msg)"

definition parse_attributes :: "manifest_parser \<Rightarrow> (unit, ActionError) res" where
  "parse_attributes parse =
     res_bind (unwrap_parsed (parse_string parse parse_attributes_manifest)) (\<lambda>manifest.
     res_bind (assert_that (length (m_attributes manifest) = 17)) (\<lambda>_.
     for_enumerated (m_attributes manifest) (\<lambda>pos attr.
       res_bind (index parse_attributes_results pos) (\<lambda>expected.
       res_bind (assert_that (attr_key attr = attr_key expected)) (\<lambda>_.
       for_enumerated (attr_values attr) (\<lambda>vpos val.
         res_bind (index (attr_values expected) vpos) (\<lambda>v. assert_that (val = v))))))))"

definition parse_direcory_actions :: "manifest_parser \<Rightarrow> (unit, ActionError) res" where
  "parse_direcory_actions parse =
     res_bind (unwrap_parsed (parse_string parse parse_direcory_actions_manifest)) (\<lambda>manifest.
     res_bind (assert_that (length (m_directories manifest) = length parse_direcory_actions_results)) (\<lambda>_.
     for_enumerated (m_directories manifest) (\<lambda>pos attr.
       res_bind (index parse_direcory_actions_results pos) (\<lambda>expected.
       res_bind (assert_that (dir_group attr = dir_group expected)) (\<lambda>_.
       res_bind (assert_that (dir_mode attr = dir_mode expected)) (\<lambda>_.
       res_bind (assert_that (dir_owner attr = dir_owner expected)) (\<lambda>_.
       assert_that (dir_path attr = dir_path expected))))))))"

text \<open>The two inner parts of the loop of \<^verbatim>\<open>parse_file_actions\<close> that look at the payload.\<close>

definition assert_primary :: "File \<Rightarrow> File \<Rightarrow> (unit, ActionError) res" where
  "assert_primary file expected =
     (case file_payload expected of
        None \<Rightarrow> Ok ()
      | Some payload_expected \<Rightarrow>
          (case file_payload file of
             None \<Rightarrow> Panic ''assertion failed''
           | Some payload \<Rightarrow>
               assert_that (hash (primary_identifier payload) = hash (primary_identifier payload_expected))))"

definition assert_additional :: "File \<Rightarrow> File \<Rightarrow> (unit, ActionError) res" where
  "assert_additional file expected =
     (case file_payload file of
        None \<Rightarrow> Ok ()
      | Some payload \<Rightarrow>
          for_enumerated (additional_identifiers payload) (\<lambda>vpos val.
            (case file_payload expected of
               None \<Rightarrow> Panic ''called `Option::unwrap()` on a `None` value''
             | Some payload_expected \<Rightarrow>
                 res_bind (index (additional_identifiers payload_expected) vpos) (\<lambda>d.
                 res_bind (assert_that (hash val = hash d)) (\<lambda>_.
                 res_bind (assert_that (source val = source d)) (\<lambda>_.
                 assert_that (algorithm val = algorithm d)))))))"

definition parse_file_actions :: "manifest_parser \<Rightarrow> (unit, ActionError) res" where
  "parse_file_actions parse =
     res_bind (unwrap_parsed (parse_string parse parse_file_actions_manifest)) (\<lambda>manifest.
     res_bind (assert_that (length (m_files manifest) = length parse_file_actions_results)) (\<lambda>_.
     for_enumerated (m_files manifest) (\<lambda>pos file.
       res_bind (index parse_file_actions_results pos) (\<lambda>expected.
       res_bind (assert_that (file_group file = file_group expected)) (\<lambda>_.
       res_bind (assert_that (file_mode file = file_mode expected)) (\<lambda>_.
       res_bind (assert_that (file_owner file = file_owner expected)) (\<lambda>_.
       res_bind (assert_that (file_path file = file_path expected)) (\<lambda>_.
       res_bind (assert_that (file_preserve file = file_preserve expected)) (\<lambda>_.
       res_bind (assert_primary file expected) (\<lambda>_.
       res_bind (for_enumerated (file_properties file) (\<lambda>vpos val.
         res_bind (index (file_properties expected) vpos) (\<lambda>p.
         res_bind (assert_that (prop_key val = prop_key p)) (\<lambda>_.
         assert_that (prop_value val = prop_value p))))) (\<lambda>_.
       assert_additional file expected)))))))))))"

text \<open>\<^verbatim>\<open>facets.iter()\<close> goes over a hash map, in the order \<open>entries\<close>.\<close>

definition parse_dependency_actions ::
  "((string, Facet) HashMap \<Rightarrow> (string \<times> Facet) list) \<Rightarrow> manifest_parser \<Rightarrow> (unit, ActionError) res" where
  "parse_dependency_actions entries parse =
     res_bind (unwrap_parsed (parse_string parse parse_dependency_actions_manifest)) (\<lambda>manifest.
     res_bind (assert_that (length (m_dependencies manifest) = length parse_dependency_actions_results)) (\<lambda>_.
     for_enumerated (m_dependencies manifest) (\<lambda>pos dependency.
       res_bind (index parse_dependency_actions_results pos) (\<lambda>expected.
       res_bind (assert_that (dep_fmri dependency = dep_fmri expected)) (\<lambda>_.
       res_bind (assert_that (dep_dependency_type dependency = dep_dependency_type expected)) (\<lambda>_.
       for_enumerated (entries (dep_facets dependency)) (\<lambda>_ (key, facet).
         (case fmlookup (dep_facets expected) key of
            None \<Rightarrow> Panic ''error no facet with name found''
          | Some f \<Rightarrow>
              res_bind (assert_that (facet_name facet = facet_name f)) (\<lambda>_.
              assert_that (facet_value facet = facet_value f)))))))))) "

definition assert_links :: "Link list \<Rightarrow> Link list \<Rightarrow> (unit, ActionError) res" where
  "assert_links links link_results =
     for_enumerated links (\<lambda>pos link.
       res_bind (index link_results pos) (\<lambda>expected.
       res_bind (assert_that (link_path link = link_path expected)) (\<lambda>_.
       assert_that (link_target link = link_target expected))))"

definition parse_line_breaks :: "manifest_parser \<Rightarrow> (unit, ActionError) res" where
  "parse_line_breaks parse =
     res_bind (unwrap_parsed (parse_string parse parse_line_breaks_manifest)) (\<lambda>manifest.
     res_bind (for_enumerated (m_files manifest) (\<lambda>pos file.
       res_bind (index parse_line_breaks_files pos) (\<lambda>expected.
       res_bind (assert_that (file_path file = file_path expected)) (\<lambda>_.
       res_bind (index (file_properties file) 0) (\<lambda>p.
       res_bind (index (file_properties expected) 0) (\<lambda>q.
       res_bind (assert_that (prop_key p = prop_key q)) (\<lambda>_.
       res_bind (assert_that (prop_value p = prop_value q)) (\<lambda>_.
       assert_that (file_mode file = file_mode expected))))))))) (\<lambda>_.
     assert_links (m_links manifest) parse_line_breaks_links))"

definition parse_unicode :: "manifest_parser \<Rightarrow> (unit, ActionError) res" where
  "parse_unicode parse =
     res_bind (unwrap_parsed (parse_string parse parse_unicode_manifest)) (\<lambda>manifest.
     assert_links (m_links manifest) parse_unicode_links)"

end
