(* ===== verification/Ips_Tests_Pass.thy ===== *)
theory Ips_Tests_Pass
  imports Ips_Tests
begin

text \<open>
  The tests of \<open>Ips_Tests\<close> pass. The layouts are the documents the manifest texts are written out of; with
  them reading a text is an instance of \<open>document_parse_string\<close>, and no parse has to be evaluated. The
  manifests are read as exactly the expected values, where the tests compare only some of the fields.
\<close>

text \<open>An argument of a line, after one space.\<close>

definition property_layout :: "string \<Rightarrow> value_src \<Rightarrow> property_src" where
  "property_layout k v = \<lparr>ps_blanks = [Space], ps_key = k, ps_value = v\<rparr>"


section \<open>The layout of the texts\<close>

definition parse_attributes_line1 :: action_src where
  "parse_attributes_line1 =
     \<lparr>as_name = ''set'', as_payload = None,
      as_properties = [property_layout ''name'' (Plain ''pkg.fmri''),
        property_layout ''value'' (Plain ''pkg://openindiana.org/web/server/nginx@1.18.0,5.11-2020.0.1.0:20200421T195136Z'')]\<rparr>"

definition parse_attributes_line2 :: action_src where
  "parse_attributes_line2 =
     \<lparr>as_name = ''set'', as_payload = None,
      as_properties = [property_layout ''name'' (Plain ''com.oracle.info.name''),
        property_layout ''value'' (Plain ''nginx''),
        property_layout ''value'' (Plain ''test'')]\<rparr>"

definition parse_attributes_line3 :: action_src where
  "parse_attributes_line3 =
     \<lparr>as_name = ''set'', as_payload = None,
      as_properties = [property_layout ''name'' (Plain ''userland.info.git-remote''),
        property_layout ''value'' (Plain ''git://github.com/OpenIndiana/oi-userland.git'')]\<rparr>"

definition parse_attributes_line4 :: action_src where
  "parse_attributes_line4 =
     \<lparr>as_name = ''set'', as_payload = None,
      as_properties = [property_layout ''name'' (Plain ''userland.info.git-branch''),
        property_layout ''value'' (Plain ''HEAD'')]\<rparr>"

definition parse_attributes_line5 :: action_src where
  "parse_attributes_line5 =
     \<lparr>as_name = ''set'', as_payload = None,
      as_properties = [property_layout ''name'' (Plain ''userland.info.git-rev''),
        property_layout ''value'' (Plain ''1665491ba61bd494bf73e2916cd2250f3024260e'')]\<rparr>"

definition parse_attributes_line6 :: action_src where
  "parse_attributes_line6 =
     \<lparr>as_name = ''set'', as_payload = None,
      as_properties = [property_layout ''name'' (Plain ''pkg.summary''),
        property_layout ''value'' (Quoted ''Nginx Webserver'')]\<rparr>"

definition parse_attributes_line7 :: action_src where
  "parse_attributes_line7 =
     \<lparr>as_name = ''set'', as_payload = None,
      as_properties = [property_layout ''name'' (Plain ''info.classification''),
        property_layout ''value'' (Quoted ''org.opensolaris.category.2008:Web Services/Application and Web Servers'')]\<rparr>"

definition parse_attributes_line8 :: action_src where
  "parse_attributes_line8 =
     \<lparr>as_name = ''set'', as_payload = None,
      as_properties = [property_layout ''name'' (Plain ''info.upstream-url''),
        property_layout ''value'' (Plain ''http://nginx.net/'')]\<rparr>"

definition parse_attributes_line9 :: action_src where
  "parse_attributes_line9 =
     \<lparr>as_name = ''set'', as_payload = None,
      as_properties = [property_layout ''name'' (Plain ''info.source-url''),
        property_layout ''value'' (Plain ''http://nginx.org/download/nginx-1.18.0.tar.gz'')]\<rparr>"

definition parse_attributes_line10 :: action_src where
  "parse_attributes_line10 =
     \<lparr>as_name = ''set'', as_payload = None,
      as_properties = [property_layout ''name'' (Plain ''org.opensolaris.consolidation''),
        property_layout ''value'' (Plain ''userland'')]\<rparr>"

definition parse_attributes_line11 :: action_src where
  "parse_attributes_line11 =
     \<lparr>as_name = ''set'', as_payload = None,
      as_properties = [property_layout ''name'' (Plain ''com.oracle.info.version''),
        property_layout ''value'' (Plain ''1.18.0'')]\<rparr>"

definition parse_attributes_line12 :: action_src where
  "parse_attributes_line12 =
     \<lparr>as_name = ''set'', as_payload = None,
      as_properties = [property_layout ''name'' (Plain ''pkg.summary''),
        property_layout ''value'' (Quoted ''provided mouse accessibility enhancements'')]\<rparr>"

definition parse_attributes_line13 :: action_src where
  "parse_attributes_line13 =
     \<lparr>as_name = ''set'', as_payload = None,
      as_properties = [property_layout ''name'' (Plain ''info.upstream''),
        property_layout ''value'' (Quoted ''X.Org Foundation'')]\<rparr>"

definition parse_attributes_line14 :: action_src where
  "parse_attributes_line14 =
     \<lparr>as_name = ''set'', as_payload = None,
      as_properties = [property_layout ''name'' (Plain ''pkg.description''),
        property_layout ''value'' (Quoted (''Latvian language support'' @ [CHR 0x27] @ ''s extra files''))]\<rparr>"

definition parse_attributes_line15 :: action_src where
  "parse_attributes_line15 =
     \<lparr>as_name = ''set'', as_payload = None,
      as_properties = [property_layout ''name'' (Plain ''variant.arch''),
        property_layout ''value'' (Plain ''i386''),
        property_layout ''optional'' (Plain ''testing''),
        property_layout ''optionalWithString'' (Quoted ''test ing'')]\<rparr>"

definition parse_attributes_line16 :: action_src where
  "parse_attributes_line16 =
     \<lparr>as_name = ''set'', as_payload = None,
      as_properties = [property_layout ''name'' (Plain ''info.source-url''),
        property_layout ''value'' (Quoted ''http://www.pgpool.net/download.php?f=pgpool-II-3.3.1.tar.gz'')]\<rparr>"

definition parse_attributes_line17 :: action_src where
  "parse_attributes_line17 =
     \<lparr>as_name = ''set'', as_payload = None,
      as_properties = [property_layout ''name'' (Plain ''pkg.summary''),
        property_layout ''value'' (Quoted ([CHR 0x27] @ ''XZ Utils - loss-less file compression application and library.'' @ [CHR 0x27]))]\<rparr>"

definition parse_attributes_layout :: document where
  "parse_attributes_layout =
     ([([], Line parse_attributes_line1),
       ([], Line parse_attributes_line2),
       ([], Line parse_attributes_line3),
       ([], Line parse_attributes_line4),
       ([], Line parse_attributes_line5),
       ([], Line parse_attributes_line6),
       ([], Line parse_attributes_line7),
       ([], Line parse_attributes_line8),
       ([], Line parse_attributes_line9),
       ([], Line parse_attributes_line10),
       ([], Line parse_attributes_line11),
       ([], Line parse_attributes_line12),
       ([], Line parse_attributes_line13),
       ([], Line parse_attributes_line14),
       ([], Line parse_attributes_line15),
       ([], Line parse_attributes_line16),
       ([], Last_line parse_attributes_line17)], [])"

definition parse_direcory_actions_line1 :: action_src where
  "parse_direcory_actions_line1 =
     \<lparr>as_name = ''dir'', as_payload = None,
      as_properties = [property_layout ''group'' (Plain ''bin''),
        property_layout ''mode'' (Plain ''0755''),
        property_layout ''owner'' (Plain ''root''),
        property_layout ''path'' (Plain ''etc/nginx'')]\<rparr>"

definition parse_direcory_actions_line2 :: action_src where
  "parse_direcory_actions_line2 =
     \<lparr>as_name = ''dir'', as_payload = None,
      as_properties = [property_layout ''group'' (Plain ''bin''),
        property_layout ''mode'' (Plain ''0755''),
        property_layout ''owner'' (Plain ''root''),
        property_layout ''path'' (Plain ''usr/share/nginx'')]\<rparr>"

definition parse_direcory_actions_line3 :: action_src where
  "parse_direcory_actions_line3 =
     \<lparr>as_name = ''dir'', as_payload = None,
      as_properties = [property_layout ''group'' (Plain ''bin''),
        property_layout ''mode'' (Plain ''0755''),
        property_layout ''owner'' (Plain ''root''),
        property_layout ''path'' (Plain ''usr/share/nginx/html'')]\<rparr>"

definition parse_direcory_actions_line4 :: action_src where
  "parse_direcory_actions_line4 =
     \<lparr>as_name = ''dir'', as_payload = None,
      as_properties = [property_layout ''group'' (Plain ''bin''),
        property_layout ''mode'' (Plain ''0755''),
        property_layout ''owner'' (Plain ''webservd''),
        property_layout ''path'' (Plain ''var/nginx/logs'')]\<rparr>"

definition parse_direcory_actions_line5 :: action_src where
  "parse_direcory_actions_line5 =
     \<lparr>as_name = ''dir'', as_payload = None,
      as_properties = [property_layout ''group'' (Plain ''bin''),
        property_layout ''mode'' (Plain ''0755''),
        property_layout ''owner'' (Plain ''root''),
        property_layout ''path'' (Quoted ''var/nginx'')]\<rparr>"

definition parse_direcory_actions_layout :: document where
  "parse_direcory_actions_layout =
     ([([], Line parse_direcory_actions_line1),
       ([], Line parse_direcory_actions_line2),
       ([], Line parse_direcory_actions_line3),
       ([], Line parse_direcory_actions_line4),
       ([], Last_line parse_direcory_actions_line5)], [])"

definition parse_file_actions_line1 :: action_src where
  "parse_file_actions_line1 =
     \<lparr>as_name = ''file'', as_payload = Some ([Space], ''4b76e83bb4bb7c87176b72ef805fe78ecae60d2c''),
      as_properties = [property_layout ''chash'' (Plain ''7288afc78233791bb8e13b3e13aa4f0b4b1d6ee8''),
        property_layout ''group'' (Plain ''bin''),
        property_layout ''mode'' (Plain ''555''),
        property_layout ''owner'' (Plain ''root''),
        property_layout ''path'' (Plain ''lib/svc/method/http-nginx''),
        property_layout ''pkg.content-hash'' (Plain ''file:sha512t_256:42007aaee6bd54977eb33f91db28f931ab11c39787ba9f7851b6baf0d142185b''),
        property_layout ''pkg.content-hash'' (Plain ''gzip:sha512t_256:ec144533fa077af1d5b152d8c7549f113902021d71808adb12ea3f92bda9fd66''),
        property_layout ''pkg.csize'' (Plain ''975''),
        property_layout ''pkg.size'' (Plain ''1855'')]\<rparr>"

definition parse_file_actions_line2 :: action_src where
  "parse_file_actions_line2 =
     \<lparr>as_name = ''file'', as_payload = Some ([Space], ''72e0496a02e72e7380b0b62cdc8410108302876f''),
      as_properties = [property_layout ''chash'' (Plain ''2f82b51db9cbba0705cb680e5aa0f11ff237009b''),
        property_layout ''group'' (Plain ''sys''),
        property_layout ''mode'' (Plain ''0444''),
        property_layout ''owner'' (Plain ''root''),
        property_layout ''path'' (Plain ''lib/svc/manifest/network/http-nginx.xml''),
        property_layout ''pkg.content-hash'' (Plain ''file:sha512t_256:c0c3640d6e61b53a3dc4228adff7532ec6b5d09bf1847991a3aaa5eb3e04d19a''),
        property_layout ''pkg.content-hash'' (Plain ''gzip:sha512t_256:e1999bae58ef887d81dc686b794429a9dea0e7674b631c2a08f07fb9b34440e2''),
        property_layout ''pkg.csize'' (Plain ''1067''),
        property_layout ''pkg.size'' (Plain ''2844''),
        property_layout ''restart_fmri'' (Plain ''svc:/system/manifest-import:default'')]\<rparr>"

definition parse_file_actions_line3 :: action_src where
  "parse_file_actions_line3 =
     \<lparr>as_name = ''file'', as_payload = Some ([Space], ''95de71d58b37f9f74bede0e91bc381d6059fc2d7''),
      as_properties = [property_layout ''chash'' (Plain ''c2e2e4cf82ec527800a2170d9e2565b75d557012''),
        property_layout ''group'' (Plain ''bin''),
        property_layout ''mode'' (Plain ''0444''),
        property_layout ''owner'' (Plain ''root''),
        property_layout ''path'' (Plain ''usr/share/nginx/html/50x.html''),
        property_layout ''pkg.content-hash'' (Plain ''file:sha512t_256:b592728ea1dcd6dd0924e1e6767e217ad70ec6973086911d8bc07d44695b9f0e''),
        property_layout ''pkg.content-hash'' (Plain ''gzip:sha512t_256:8407d82b497c4a865841ab8874207cc5a4d581ba574d66074ef5f92f05ee13cf''),
        property_layout ''pkg.csize'' (Plain ''327''),
        property_layout ''pkg.size'' (Plain ''494'')]\<rparr>"

definition parse_file_actions_line4 :: action_src where
  "parse_file_actions_line4 =
     \<lparr>as_name = ''file'', as_payload = Some ([Space], ''7dd71afcfb14e105e80b0c0d7fce370a28a41f0a''),
      as_properties = [property_layout ''chash'' (Plain ''50b7bcf6c555b8e9bde1eacd2c3d5c34a757c312''),
        property_layout ''group'' (Plain ''bin''),
        property_layout ''mode'' (Plain ''0444''),
        property_layout ''owner'' (Plain ''root''),
        property_layout ''path'' (Plain ''usr/share/nginx/html/index.html''),
        property_layout ''pkg.content-hash'' (Plain ''file:sha512t_256:204038cd5fbbcdd2c3d24acb7f41b1e861c51d689f53202ec69b43bdba01cb60''),
        property_layout ''pkg.content-hash'' (Plain ''gzip:sha512t_256:34bad6066578cf03289b0c957cb4f01a9353f91b3b95079d69bf9e12dd569279''),
        property_layout ''pkg.csize'' (Plain ''381''),
        property_layout ''pkg.size'' (Plain ''612'')]\<rparr>"

definition parse_file_actions_line5 :: action_src where
  "parse_file_actions_line5 =
     \<lparr>as_name = ''file'', as_payload = Some ([Space], ''cbf596ddb3433a8e0d325f3c188bec9c1bb746b3''),
      as_properties = [property_layout ''chash'' (Plain ''2df27ca83841b9c8e38c5aa30760372773166928''),
        property_layout ''group'' (Plain ''bin''),
        property_layout ''mode'' (Plain ''0644''),
        property_layout ''owner'' (Plain ''root''),
        property_layout ''path'' (Plain ''etc/nginx/fastcgi.conf''),
        property_layout ''pkg.content-hash'' (Plain ''file:sha512t_256:d260c064680ec58135d9a290ed3cfd64274db769701ab3df2bfdeb653a864518''),
        property_layout ''pkg.content-hash'' (Plain ''gzip:sha512t_256:4924c0f4bdc37b832afd281ad07b0bf339c8c3a0e2d95e076998d46fab76a084''),
        property_layout ''pkg.csize'' (Plain ''448''),
        property_layout ''pkg.size'' (Plain ''1077''),
        property_layout ''preserve'' (Plain ''true'')]\<rparr>"

definition parse_file_actions_line6 :: action_src where
  "parse_file_actions_line6 =
     \<lparr>as_name = ''file'', as_payload = Some ([Space], ''da38e2a0dded838afbe0eade6cb837ac30fd8046''),
      as_properties = [property_layout ''chash'' (Plain ''530616dc345f6acf0aea26db06e56aa41b2f510d''),
        property_layout ''group'' (Plain ''bin''),
        property_layout ''mode'' (Plain ''0644''),
        property_layout ''owner'' (Plain ''root''),
        property_layout ''path'' (Plain ''etc/nginx/fastcgi_params''),
        property_layout ''pkg.content-hash'' (Plain ''file:sha512t_256:baeeb2df301f8764568a86884c127e90faf39bee4ff0e53fb4a890955e605cee''),
        property_layout ''pkg.content-hash'' (Plain ''gzip:sha512t_256:5c6f541692556eacbde4ea1536de3c1af2cd8e9980fc4edca36851a97ed671ba''),
        property_layout ''pkg.csize'' (Plain ''430''),
        property_layout ''pkg.size'' (Plain ''1007''),
        property_layout ''preserve'' (Plain ''true'')]\<rparr>"

definition parse_file_actions_line7 :: action_src where
  "parse_file_actions_line7 =
     \<lparr>as_name = ''file'', as_payload = Some ([Space], ''407cb51b397ba4ad90a2246640a81af18e2e917a''),
      as_properties = [property_layout ''chash'' (Plain ''00d285c15dd65f24c4c89d5790094c38432a1ac6''),
        property_layout ''group'' (Plain ''bin''),
        property_layout ''mode'' (Plain ''0644''),
        property_layout ''owner'' (Plain ''root''),
        property_layout ''path'' (Plain ''etc/nginx/koi-utf''),
        property_layout ''pkg.content-hash'' (Plain ''file:sha512t_256:06381b2c4a28fe88c0d908f1cd81453c9482358c8195163e294b8def8924b366''),
        property_layout ''pkg.content-hash'' (Plain ''gzip:sha512t_256:d66022b08971eaf9ddf3230a991b0d8352fcefe0f797305a94b5ca0574d70ff5''),
        property_layout ''pkg.csize'' (Plain ''938''),
        property_layout ''pkg.size'' (Plain ''2837''),
        property_layout ''preserve'' (Plain ''true'')]\<rparr>"

definition parse_file_actions_line8 :: action_src where
  "parse_file_actions_line8 =
     \<lparr>as_name = ''file'', as_payload = Some ([Space], ''19ec7fb71e7f00d7e8a1cfc1013490f0cfee572b''),
      as_properties = [property_layout ''chash'' (Plain ''0f2588ac25780698ea7ebeac3ea0e9041502d501''),
        property_layout ''group'' (Plain ''bin''),
        property_layout ''mode'' (Plain ''0644''),
        property_layout ''owner'' (Plain ''root''),
        property_layout ''path'' (Plain ''etc/nginx/koi-win''),
        property_layout ''pkg.content-hash'' (Plain ''file:sha512t_256:92d4df1df754d3e2cd8c52aba7415680c86097803b437bf0edcd8d022ab6aa8c''),
        property_layout ''pkg.content-hash'' (Plain ''gzip:sha512t_256:2ad3bb0540d800f2115691c96e8ed35b9b91eb5c248bea199da22ffd102cc847''),
        property_layout ''pkg.csize'' (Plain ''749''),
        property_layout ''pkg.size'' (Plain ''2223''),
        property_layout ''preserve'' (Plain ''true'')]\<rparr>"

definition parse_file_actions_line9 :: action_src where
  "parse_file_actions_line9 =
     \<lparr>as_name = ''file'', as_payload = Some ([Space], ''e39dbc36680b717ec902fadc805a302f1cf62245''),
      as_properties = [property_layout ''chash'' (Plain ''325af5a4b735284a3cdfd3b04bd249ff22334965''),
        property_layout ''group'' (Plain ''bin''),
        property_layout ''mode'' (Plain ''0644''),
        property_layout ''owner'' (Plain ''root''),
        property_layout ''path'' (Plain ''etc/nginx/mime.types''),
        property_layout ''pkg.content-hash'' (Plain ''file:sha512t_256:8217c6955d644400707c4ecf1539ece4ee2fd1be4838654860f2ef2ecacdebd4''),
        property_layout ''pkg.content-hash'' (Plain ''gzip:sha512t_256:46566d205da4d67a6e12a1d3d2f78e3602770ce42ef2c117ee95b821aec90100''),
        property_layout ''pkg.csize'' (Plain ''990''),
        property_layout ''pkg.size'' (Plain ''5231''),
        property_layout ''preserve'' (Plain ''true'')]\<rparr>"

definition parse_file_actions_line10 :: action_src where
  "parse_file_actions_line10 =
     \<lparr>as_name = ''file'', as_payload = Some ([Space], ''d143ca7a6aac765d28724af54d969a4bd2202383''),
      as_properties = [property_layout ''chash'' (Plain ''adacb374c514459417f07cacd4f8bf60644c9651''),
        property_layout ''group'' (Plain ''bin''),
        property_layout ''mode'' (Plain ''0644''),
        property_layout ''owner'' (Plain ''root''),
        property_layout ''path'' (Plain ''etc/nginx/nginx.conf''),
        property_layout ''pkg.content-hash'' (Plain ''file:sha512t_256:cc9263a836b4db441340d2e041adf10136c9a8aa31259b868000f88c84032ba1''),
        property_layout ''pkg.content-hash'' (Plain ''gzip:sha512t_256:cf0cd12b5f3f1d9d15378e1a1bacaaff7589bf2c129312b277b66ea3418acc54''),
        property_layout ''pkg.csize'' (Plain ''997''),
        property_layout ''pkg.size'' (Plain ''2798''),
        property_layout ''preserve'' (Plain ''true'')]\<rparr>"

definition parse_file_actions_line11 :: action_src where
  "parse_file_actions_line11 =
     \<lparr>as_name = ''file'', as_payload = Some ([Space], ''379c1e2a2a5ffb8c91a07328d4c9be2bc58799fd''),
      as_properties = [property_layout ''chash'' (Plain ''2c75c59e0de9208a9b96460d0566e5686708310c''),
        property_layout ''group'' (Plain ''bin''),
        property_layout ''mode'' (Plain ''0644''),
        property_layout ''owner'' (Plain ''root''),
        property_layout ''path'' (Plain ''etc/nginx/scgi_params''),
        property_layout ''pkg.content-hash'' (Plain ''file:sha512t_256:e6dd7076b6319abc3fcd04554fede95c8cc40f1e21a83772c36577f939e81cb6''),
        property_layout ''pkg.content-hash'' (Plain ''gzip:sha512t_256:48efb28df3607f1a8b67eab95d4ca19526e8351d10529d97cb4af05250f8ee95''),
        property_layout ''pkg.csize'' (Plain ''275''),
        property_layout ''pkg.size'' (Plain ''636''),
        property_layout ''preserve'' (Plain ''true'')]\<rparr>"

definition parse_file_actions_line12 :: action_src where
  "parse_file_actions_line12 =
     \<lparr>as_name = ''file'', as_payload = Some ([Space], ''cc2fcdb4605dcac23d59f667889ccbdfdc6e3668''),
      as_properties = [property_layout ''chash'' (Plain ''62320c6c207a26bf9c68c39d0372f4d4b97b905f''),
        property_layout ''group'' (Plain ''bin''),
        property_layout ''mode'' (Plain ''0644''),
        property_layout ''owner'' (Plain ''root''),
        property_layout ''path'' (Plain ''etc/nginx/uwsgi_params''),
        property_layout ''pkg.content-hash'' (Plain ''file:sha512t_256:eb133ae0a357df02b4b02615bc47dc2e5328105dac2dbcbd647667e9bbc3b2fd''),
        property_layout ''pkg.content-hash'' (Plain ''gzip:sha512t_256:e5a2625a67f5502c5911d7e7a850030b6af89929e182b2da74ecf6e79df0e9d2''),
        property_layout ''pkg.csize'' (Plain ''284''),
        property_layout ''pkg.size'' (Plain ''664''),
        property_layout ''preserve'' (Plain ''true'')]\<rparr>"

definition parse_file_actions_line13 :: action_src where
  "parse_file_actions_line13 =
     \<lparr>as_name = ''file'', as_payload = Some ([Space], ''e10f2d42c9e581901d810928d01a3bf8f3372838''),
      as_properties = [property_layout ''chash'' (Plain ''fd231cdd1a726fcb2abeba90b31cbf4c7df6df4d''),
        property_layout ''group'' (Plain ''bin''),
        property_layout ''mode'' (Plain ''0644''),
        property_layout ''owner'' (Plain ''root''),
        property_layout ''path'' (Plain ''etc/nginx/win-utf''),
        property_layout ''pkg.content-hash'' (Plain ''file:sha512t_256:7620f21db4c06f3eb863c0cb0a8b3f62c435abd2f8f47794c42f08ad434d90dd''),
        property_layout ''pkg.content-hash'' (Plain ''gzip:sha512t_256:ca16a95ddd6ef2043969db20915935829b8ccb6134588e1710b24baf45afd7bb''),
        property_layout ''pkg.csize'' (Plain ''1197''),
        property_layout ''pkg.size'' (Plain ''3610''),
        property_layout ''preserve'' (Plain ''true'')]\<rparr>"

definition parse_file_actions_line14 :: action_src where
  "parse_file_actions_line14 =
     \<lparr>as_name = ''file'', as_payload = Some ([Space], ''6d5f820bb1d67594c7b757c79ef6f9242df49e98''),
      as_properties = [property_layout ''chash'' (Plain ''3ab17dde089f1eac7abd37d8efd700b5139d70b2''),
        property_layout ''elfarch'' (Plain ''i386''),
        property_layout ''elfbits'' (Plain ''64''),
        property_layout ''elfhash'' (Plain ''25b0cdd7736cddad78ce91b61385a8fdde91f7b2''),
        property_layout ''group'' (Plain ''bin''),
        property_layout ''mode'' (Plain ''0555''),
        property_layout ''owner'' (Plain ''root''),
        property_layout ''path'' (Plain ''usr/sbin/nginx''),
        property_layout ''pkg.content-hash'' (Plain ''gelf:sha512t_256:add9bfb171c2a173b8f12d375884711527f40e592d100a337a9fae078c8beabd''),
        property_layout ''pkg.content-hash'' (Plain ''gelf.unsigned:sha512t_256:add9bfb171c2a173b8f12d375884711527f40e592d100a337a9fae078c8beabd''),
        property_layout ''pkg.content-hash'' (Plain ''file:sha512t_256:3d87b058a8e69b3a8dfab142f5e856549dcd531a371e3ca4d2be391655b0d076''),
        property_layout ''pkg.content-hash'' (Plain ''gzip:sha512t_256:7f93c48194b3e164ea35a9d2ddff310215769dbd27b45e9ab72beef1cce0d4f6''),
        property_layout ''pkg.csize'' (Plain ''657230''),
        property_layout ''pkg.size'' (Plain ''1598048'')]\<rparr>"

definition parse_file_actions_line15 :: action_src where
  "parse_file_actions_line15 =
     \<lparr>as_name = ''file'', as_payload = None,
      as_properties = [property_layout ''path'' (Plain ''usr/lib/golang/1.16/src/cmd/go/testdata/mod/rsc.io_!c!g!o_v1.0.0.txt'')]\<rparr>"

definition parse_file_actions_line16 :: action_src where
  "parse_file_actions_line16 =
     \<lparr>as_name = ''file'', as_payload = None,
      as_properties = [property_layout ''path'' (Plain ''usr/lib/golang/1.16/src/runtime/runtime-gdb_test.go.~1~'')]\<rparr>"

definition parse_file_actions_layout :: document where
  "parse_file_actions_layout =
     ([([], Line parse_file_actions_line1),
       ([], Line parse_file_actions_line2),
       ([], Line parse_file_actions_line3),
       ([], Line parse_file_actions_line4),
       ([], Line parse_file_actions_line5),
       ([], Line parse_file_actions_line6),
       ([], Line parse_file_actions_line7),
       ([], Line parse_file_actions_line8),
       ([], Line parse_file_actions_line9),
       ([], Line parse_file_actions_line10),
       ([], Line parse_file_actions_line11),
       ([], Line parse_file_actions_line12),
       ([], Line parse_file_actions_line13),
       ([], Line parse_file_actions_line14),
       ([], Line parse_file_actions_line15),
       ([], Last_line parse_file_actions_line16)], [])"

definition parse_dependency_actions_line1 :: action_src where
  "parse_dependency_actions_line1 =
     \<lparr>as_name = ''depend'', as_payload = None,
      as_properties = [property_layout ''fmri'' (Plain ''pkg:/system/library@0.5.11-2020.0.1.19563''),
        property_layout ''type'' (Plain ''require'')]\<rparr>"

definition parse_dependency_actions_line2 :: action_src where
  "parse_dependency_actions_line2 =
     \<lparr>as_name = ''depend'', as_payload = None,
      as_properties = [property_layout ''fmri'' (Plain ''pkg:/system/file-system/nfs@0.5.11,5.11-2020.0.1.19951''),
        property_layout ''type'' (Plain ''incorporate'')]\<rparr>"

definition parse_dependency_actions_line3 :: action_src where
  "parse_dependency_actions_line3 =
     \<lparr>as_name = ''depend'', as_payload = None,
      as_properties = [property_layout ''facet.version-lock.system/data/hardware-registry'' (Plain ''true''),
        property_layout ''fmri'' (Plain ''pkg:/system/data/hardware-registry@2020.2.22,5.11-2020.0.1.19951''),
        property_layout ''type'' (Plain ''incorporate'')]\<rparr>"

definition parse_dependency_actions_line4 :: action_src where
  "parse_dependency_actions_line4 =
     \<lparr>as_name = ''depend'', as_payload = None,
      as_properties = [property_layout ''facet.version-lock.xvm'' (Plain ''true''),
        property_layout ''fmri'' (Plain ''xvm@0.5.11-2015.0.2.0''),
        property_layout ''type'' (Plain ''incorporate'')]\<rparr>"

definition parse_dependency_actions_line5 :: action_src where
  "parse_dependency_actions_line5 =
     \<lparr>as_name = ''depend'', as_payload = None,
      as_properties = [property_layout ''facet.version-lock.system/mozilla-nss'' (Plain ''true''),
        property_layout ''fmri'' (Plain ''system/mozilla-nss@3.51.1-2020.0.1.0''),
        property_layout ''type'' (Plain ''incorporate'')]\<rparr>"

definition parse_dependency_actions_layout :: document where
  "parse_dependency_actions_layout =
     ([([], Line parse_dependency_actions_line1),
       ([], Line parse_dependency_actions_line2),
       ([], Line parse_dependency_actions_line3),
       ([], Line parse_dependency_actions_line4),
       ([], Last_line parse_dependency_actions_line5)], [])"

definition parse_line_breaks_line1 :: action_src where
  "parse_line_breaks_line1 =
     \<lparr>as_name = ''link'', as_payload = None,
      as_properties = [property_layout ''path'' (Plain ''usr/lib/cups/backend/http''),
        property_layout ''target'' (Plain ''ipp'')]\<rparr>"

definition parse_line_breaks_line2 :: action_src where
  "parse_line_breaks_line2 =
     \<lparr>as_name = ''file'', as_payload = Some ([Space], ''Solaris/desktop-print-management''),
      as_properties = [property_layout ''mode'' (Plain ''0555''),
        property_layout ''path'' (Plain ''usr/lib/cups/bin/desktop-print-management'')]\<rparr>"

definition parse_line_breaks_line3 :: action_src where
  "parse_line_breaks_line3 =
     \<lparr>as_name = ''file'', as_payload = Some ([Space], ''Solaris/desktop-print-management-applet''),
      as_properties = [property_layout ''mode'' (Plain ''0555''),
        property_layout ''path'' (Plain ''usr/lib/cups/bin/desktop-print-management-applet'')]\<rparr>"

definition parse_line_breaks_line4 :: action_src where
  "parse_line_breaks_line4 =
     \<lparr>as_name = ''file'', as_payload = Some ([Space], ''Solaris/smb''),
      as_properties = [property_layout ''mode'' (Plain ''0555''),
        property_layout ''path'' (Plain ''usr/lib/cups/backend/smb'')]\<rparr>"

definition parse_line_breaks_line5 :: action_src where
  "parse_line_breaks_line5 =
     \<lparr>as_name = ''file'', as_payload = Some ([Space], ''Solaris/svc-cupsd''),
      as_properties = [property_layout ''mode'' (Plain ''0644''),
        property_layout ''path'' (Plain ''lib/svc/method/svc-cupsd'')]\<rparr>"

definition parse_line_breaks_line6 :: action_src where
  "parse_line_breaks_line6 =
     \<lparr>as_name = ''file'', as_payload = Some ([Space], ''Solaris/ManageCUPS.html''),
      as_properties = [property_layout ''mode'' (Plain ''0444''),
        property_layout ''path'' (Plain ''usr/lib/help/auths/locale/C/ManageCUPS.html'')]\<rparr>"

definition parse_line_breaks_layout :: document where
  "parse_line_breaks_layout =
     ([([], Line parse_line_breaks_line1),
       ([], Line parse_line_breaks_line2),
       ([], Line parse_line_breaks_line3),
       ([], Line parse_line_breaks_line4),
       (['' SMF service start method script''], Line parse_line_breaks_line5),
       ([], Blank_line),
       (['' SMF help''], Last_line parse_line_breaks_line6)], [])"

definition parse_unicode_line1 :: action_src where
  "parse_unicode_line1 =
     \<lparr>as_name = ''link'', as_payload = None,
      as_properties = [property_layout ''path'' (Plain (''usr/lib/cups/'' @ [CHR 0xD0, CHR 0xBF, CHR 0xD0, CHR 0xB5, CHR 0xD1, CHR 0x80, CHR 0xD1, CHR 0x82, CHR 0xD0, CHR 0xB8, CHR 0xD0, CHR 0xBD, CHR 0xD0, CHR 0xB0, CHR 0xD1, CHR 0x85] @ ''/http'')),
        property_layout ''target'' (Plain [CHR 0xD0, CHR 0x9F, CHR 0xD1, CHR 0x80, CHR 0xD0, CHR 0xBE])]\<rparr>"

definition parse_unicode_line2 :: action_src where
  "parse_unicode_line2 =
     \<lparr>as_name = ''link'', as_payload = None,
      as_properties = [property_layout ''path'' (Plain (''usr/lib/cups/'' @ [CHR 0xD0, CHR 0xBF, CHR 0xD0, CHR 0xB5, CHR 0xD1, CHR 0x80, CHR 0xD1, CHR 0x82, CHR 0xD0, CHR 0xB8, CHR 0xD0, CHR 0xBD, CHR 0xD0, CHR 0xB0, CHR 0xD1, CHR 0x85] @ ''/http'')),
        property_layout ''target'' (Plain ''blub'')]\<rparr>"

definition parse_unicode_layout :: document where
  "parse_unicode_layout =
     ([([], Line parse_unicode_line1),
       (['' SMF blub''], Last_line parse_unicode_line2)], [])"

section \<open>The layouts are well-formed\<close>

text \<open>Tables of the characters in names and in values, so that words are checked character by character.\<close>

definition word_char :: "char \<Rightarrow> bool" where
  "word_char c \<longleftrightarrow> plain_char c \<and> c \<noteq> CHR 0x22 \<and> of_char c < (128 :: nat)"

lemma word_chars:
  "list_all word_char ''abcdefghijklmnopqrstuvwxyzABCDEFGHIJKLMNOPQRSTUVWXYZ0123456789._-/:@,!?~='' "
  by code_simp

lemma name_chars:
  "list_all name_char ''abcdefghijklmnopqrstuvwxyzABCDEFGHIJKLMNOPQRSTUVWXYZ0123456789._-/''"
  by code_simp

lemmas char_tables = word_chars [simplified] name_chars [simplified]

lemma utf8_ascii: "list_all (\<lambda>c. of_char c < (128 :: nat)) s \<Longrightarrow> utf8_valid s"
  by (induction s) (auto simp: utf8_valid_def)

lemma word_chars_valid:
  assumes "list_all word_char v"
  shows "utf8_valid v" "list_all plain_char v" "CHR 0x22 \<notin> set v"
  using assms utf8_ascii [of v] by (auto simp: word_char_def list_all_iff)

lemma wf_plain_ascii: "list_all word_char v \<Longrightarrow> v \<noteq> [] \<Longrightarrow> hd v \<noteq> CHR ''#'' \<Longrightarrow> wf_value (Plain v)"
  using word_chars_valid [of v] by (cases v) auto

lemma name_char_word: "name_char c \<Longrightarrow> word_char c \<and> c \<notin> {CHR ''='', CHR ''#''}"
  by (auto simp: name_char_def word_char_def plain_char_def ascii_alphanumeric_def byte_class_def split: if_splits)

lemma wf_payload_name: "list_all name_char p \<Longrightarrow> p \<noteq> [] \<Longrightarrow> wf_payload p"
  using name_char_word word_chars_valid [of p]
  by (cases p) (simp_all add: wf_payload_def list_all_iff, metis+)

lemma wf_quoted_ascii:
  assumes "list_all (\<lambda>c. word_char c \<or> c = CHR '' '' \<or> c = CHR 0x27) v"
  shows "wf_value (Quoted v)"
proof -
  have "list_all (\<lambda>c. of_char c < (128 :: nat) \<and> c \<noteq> CHR 0x22) v"
    using assms by (rule list.pred_mono_strong) (auto simp: word_char_def)
  then show ?thesis using utf8_ascii [of v] by (auto simp: list_all_iff)
qed

lemmas layout_wf_simps = wf_document_def wf_action_def wf_property_def property_layout_def action_names_def
  wf_comment_def utf8_ascii wf_plain_ascii wf_payload_name wf_quoted_ascii char_tables

lemmas layout_text_simps = document_text_def entries_text_def comments_text_def action_text_def payload_text_def
  properties_text_def property_text_def property_body_def property_layout_def blanks_text_def

lemma parse_attributes_wf: "wf_document parse_attributes_layout"
  by (simp add: parse_attributes_layout_def parse_attributes_line1_def parse_attributes_line2_def parse_attributes_line3_def
      parse_attributes_line4_def parse_attributes_line5_def parse_attributes_line6_def
      parse_attributes_line7_def parse_attributes_line8_def parse_attributes_line9_def
      parse_attributes_line10_def parse_attributes_line11_def parse_attributes_line12_def
      parse_attributes_line13_def parse_attributes_line14_def parse_attributes_line15_def
      parse_attributes_line16_def parse_attributes_line17_def layout_wf_simps del: wf_value.simps)

lemma parse_direcory_actions_wf: "wf_document parse_direcory_actions_layout"
  by (simp add: parse_direcory_actions_layout_def parse_direcory_actions_line1_def parse_direcory_actions_line2_def parse_direcory_actions_line3_def
      parse_direcory_actions_line4_def parse_direcory_actions_line5_def layout_wf_simps
      del: wf_value.simps)

lemma parse_file_actions_wf: "wf_document parse_file_actions_layout"
  by (simp add: parse_file_actions_layout_def parse_file_actions_line1_def parse_file_actions_line2_def parse_file_actions_line3_def
      parse_file_actions_line4_def parse_file_actions_line5_def parse_file_actions_line6_def
      parse_file_actions_line7_def parse_file_actions_line8_def parse_file_actions_line9_def
      parse_file_actions_line10_def parse_file_actions_line11_def parse_file_actions_line12_def
      parse_file_actions_line13_def parse_file_actions_line14_def parse_file_actions_line15_def
      parse_file_actions_line16_def layout_wf_simps
      del: wf_value.simps)

lemma parse_dependency_actions_wf: "wf_document parse_dependency_actions_layout"
  by (simp add: parse_dependency_actions_layout_def parse_dependency_actions_line1_def parse_dependency_actions_line2_def
      parse_dependency_actions_line3_def parse_dependency_actions_line4_def
      parse_dependency_actions_line5_def layout_wf_simps
      del: wf_value.simps)

lemma parse_line_breaks_wf: "wf_document parse_line_breaks_layout"
  by (simp add: parse_line_breaks_layout_def parse_line_breaks_line1_def parse_line_breaks_line2_def parse_line_breaks_line3_def
      parse_line_breaks_line4_def parse_line_breaks_line5_def parse_line_breaks_line6_def layout_wf_simps
      del: wf_value.simps)

lemma parse_unicode_wf: "wf_document parse_unicode_layout"
  by code_simp

section \<open>The texts are those of the layouts\<close>

lemma parse_attributes_text: "document_text parse_attributes_layout = parse_attributes_manifest"
  by (simp add: parse_attributes_layout_def parse_attributes_line1_def parse_attributes_line2_def parse_attributes_line3_def
      parse_attributes_line4_def parse_attributes_line5_def parse_attributes_line6_def
      parse_attributes_line7_def parse_attributes_line8_def parse_attributes_line9_def
      parse_attributes_line10_def parse_attributes_line11_def parse_attributes_line12_def
      parse_attributes_line13_def parse_attributes_line14_def parse_attributes_line15_def
      parse_attributes_line16_def parse_attributes_line17_def layout_text_simps
      parse_attributes_manifest_def)

lemma parse_direcory_actions_text: "document_text parse_direcory_actions_layout = parse_direcory_actions_manifest"
  by (simp add: parse_direcory_actions_layout_def parse_direcory_actions_line1_def parse_direcory_actions_line2_def parse_direcory_actions_line3_def
      parse_direcory_actions_line4_def parse_direcory_actions_line5_def layout_text_simps
      parse_direcory_actions_manifest_def)

lemma parse_file_actions_text: "document_text parse_file_actions_layout = parse_file_actions_manifest"
  by code_simp

lemma parse_dependency_actions_text:
  "document_text parse_dependency_actions_layout = parse_dependency_actions_manifest"
  by (simp add: parse_dependency_actions_layout_def parse_dependency_actions_line1_def parse_dependency_actions_line2_def
      parse_dependency_actions_line3_def parse_dependency_actions_line4_def
      parse_dependency_actions_line5_def layout_text_simps
      parse_dependency_actions_manifest_def)

lemma parse_line_breaks_text: "document_text parse_line_breaks_layout = parse_line_breaks_manifest"
  by (simp add: parse_line_breaks_layout_def parse_line_breaks_line1_def parse_line_breaks_line2_def parse_line_breaks_line3_def
      parse_line_breaks_line4_def parse_line_breaks_line5_def parse_line_breaks_line6_def layout_text_simps
      parse_line_breaks_manifest_def)

lemma parse_unicode_text: "document_text parse_unicode_layout = parse_unicode_manifest"
  by (simp add: parse_unicode_layout_def parse_unicode_line1_def parse_unicode_line2_def layout_text_simps
      parse_unicode_manifest_def)

section \<open>The manifests are the expected ones\<close>

lemma add_attributes:
  "list_all (\<lambda>a. act_kind a = Kind_Attr) acts \<Longrightarrow>
     fold_res add_action acts m = Ok (m\<lparr>m_attributes := m_attributes m @ map Attr_from acts\<rparr>)"
  by (induction acts arbitrary: m) (simp_all add: add_action_def [of a for a])

lemma add_directories:
  "list_all (\<lambda>a. act_kind a = Kind_Dir) acts \<Longrightarrow>
     fold_res add_action acts m = Ok (m\<lparr>m_directories := m_directories m @ map Dir_from acts\<rparr>)"
  by (induction acts arbitrary: m) (simp_all add: add_action_def [of a for a])

lemma add_dependencies:
  "list_all (\<lambda>a. act_kind a = Kind_Dependency) acts \<Longrightarrow>
     fold_res add_action acts m = Ok (m\<lparr>m_dependencies := m_dependencies m @ map Dependency_from acts\<rparr>)"
  by (induction acts arbitrary: m) (simp_all add: add_action_def [of a for a])

lemma add_links:
  "list_all (\<lambda>a. act_kind a = Kind_Link) acts \<Longrightarrow>
     fold_res add_action acts m = Ok (m\<lparr>m_links := m_links m @ map Link_from acts\<rparr>)"
  by (induction acts arbitrary: m) (simp_all add: add_action_def [of a for a])

lemma add_files:
  "list_all2 (\<lambda>a f. act_kind a = Kind_File \<and> File_from a = Ok f) acts fs \<Longrightarrow>
     fold_res add_action acts m = Ok (m\<lparr>m_files := m_files m @ fs\<rparr>)"
  by (induction acts fs arbitrary: m rule: list_all2_induct) (simp_all add: add_action_def [of a for a])

lemma parse_attributes_read:
  assumes "peg_parser manifest_grammar parse"
  shows "parse_string parse parse_attributes_manifest = Ok (Manifest_new\<lparr>m_attributes := parse_attributes_results\<rparr>)"
proof -
  have "list_all (\<lambda>a. act_kind a = Kind_Attr) (document_actions parse_attributes_layout)" by code_simp
  moreover have "map Attr_from (document_actions parse_attributes_layout) = parse_attributes_results" by code_simp
  ultimately show ?thesis
    using document_parse_string [OF assms parse_attributes_wf]
    by (simp add: parse_attributes_text add_attributes Manifest_new_def)
qed

lemma parse_direcory_actions_read:
  assumes "peg_parser manifest_grammar parse"
  shows "parse_string parse parse_direcory_actions_manifest =
    Ok (Manifest_new\<lparr>m_directories := parse_direcory_actions_results\<rparr>)"
proof -
  have "list_all (\<lambda>a. act_kind a = Kind_Dir) (document_actions parse_direcory_actions_layout)" by code_simp
  moreover have "map Dir_from (document_actions parse_direcory_actions_layout) = parse_direcory_actions_results"
    by code_simp
  ultimately show ?thesis
    using document_parse_string [OF assms parse_direcory_actions_wf]
    by (simp add: parse_direcory_actions_text add_directories Manifest_new_def)
qed

lemma parse_dependency_actions_read:
  assumes "peg_parser manifest_grammar parse"
  shows "parse_string parse parse_dependency_actions_manifest =
    Ok (Manifest_new\<lparr>m_dependencies := parse_dependency_actions_results\<rparr>)"
proof -
  have "list_all (\<lambda>a. act_kind a = Kind_Dependency) (document_actions parse_dependency_actions_layout)" by code_simp
  moreover have "map Dependency_from (document_actions parse_dependency_actions_layout) =
      parse_dependency_actions_results" by code_simp
  ultimately show ?thesis
    using document_parse_string [OF assms parse_dependency_actions_wf]
    by (simp add: parse_dependency_actions_text add_dependencies Manifest_new_def)
qed

lemma parse_unicode_read:
  assumes "peg_parser manifest_grammar parse"
  shows "parse_string parse parse_unicode_manifest = Ok (Manifest_new\<lparr>m_links := parse_unicode_links\<rparr>)"
proof -
  have "list_all (\<lambda>a. act_kind a = Kind_Link) (document_actions parse_unicode_layout)" by code_simp
  moreover have "map Link_from (document_actions parse_unicode_layout) = parse_unicode_links" by code_simp
  ultimately show ?thesis
    using document_parse_string [OF assms parse_unicode_wf]
    by (simp add: parse_unicode_text add_links Manifest_new_def)
qed

lemma parse_line_breaks_read:
  assumes "peg_parser manifest_grammar parse"
  shows "parse_string parse parse_line_breaks_manifest =
    Ok (Manifest_new\<lparr>m_files := parse_line_breaks_files, m_links := parse_line_breaks_links\<rparr>)"
proof -
  define a as where "a = src_action parse_line_breaks_line1"
    and "as = tl (document_actions parse_line_breaks_layout)"
  have acts: "document_actions parse_line_breaks_layout = a # as"
    by (simp add: a_def as_def document_actions_def parse_line_breaks_layout_def)
  have "act_kind a = Kind_Link" "[Link_from a] = parse_line_breaks_links"
    unfolding a_def by code_simp+
  then have "add_action a Manifest_new = Ok (Manifest_new\<lparr>m_links := parse_line_breaks_links\<rparr>)"
    by (simp add: add_action_def Manifest_new_def)
  moreover have "list_all2 (\<lambda>a f. act_kind a = Kind_File \<and> File_from a = Ok f) as parse_line_breaks_files"
    unfolding as_def by code_simp
  ultimately show ?thesis
    using document_parse_string [OF assms parse_line_breaks_wf]
    by (simp add: parse_line_breaks_text acts add_files Manifest_new_def)
qed

lemma parse_file_actions_file1: "File_from (src_action parse_file_actions_line1) = Ok parse_file_actions_result1"
  by code_simp

lemma parse_file_actions_file2: "File_from (src_action parse_file_actions_line2) = Ok parse_file_actions_result2"
  by code_simp

lemma parse_file_actions_file3: "File_from (src_action parse_file_actions_line3) = Ok parse_file_actions_result3"
  by code_simp

lemma parse_file_actions_file4: "File_from (src_action parse_file_actions_line4) = Ok parse_file_actions_result4"
  by code_simp

lemma parse_file_actions_file5: "File_from (src_action parse_file_actions_line5) = Ok parse_file_actions_result5"
  by code_simp

lemma parse_file_actions_file6: "File_from (src_action parse_file_actions_line6) = Ok parse_file_actions_result6"
  by code_simp

lemma parse_file_actions_file7: "File_from (src_action parse_file_actions_line7) = Ok parse_file_actions_result7"
  by code_simp

lemma parse_file_actions_file8: "File_from (src_action parse_file_actions_line8) = Ok parse_file_actions_result8"
  by code_simp

lemma parse_file_actions_file9: "File_from (src_action parse_file_actions_line9) = Ok parse_file_actions_result9"
  by code_simp

lemma parse_file_actions_file10: "File_from (src_action parse_file_actions_line10) = Ok parse_file_actions_result10"
  by code_simp

lemma parse_file_actions_file11: "File_from (src_action parse_file_actions_line11) = Ok parse_file_actions_result11"
  by code_simp

lemma parse_file_actions_file12: "File_from (src_action parse_file_actions_line12) = Ok parse_file_actions_result12"
  by code_simp

lemma parse_file_actions_file13: "File_from (src_action parse_file_actions_line13) = Ok parse_file_actions_result13"
  by code_simp

lemma parse_file_actions_file14: "File_from (src_action parse_file_actions_line14) = Ok parse_file_actions_result14"
  by code_simp

lemma parse_file_actions_file15: "File_from (src_action parse_file_actions_line15) = Ok parse_file_actions_result15"
  by code_simp

lemma parse_file_actions_file16: "File_from (src_action parse_file_actions_line16) = Ok parse_file_actions_result16"
  by code_simp

lemmas parse_file_actions_files = parse_file_actions_file1 parse_file_actions_file2 parse_file_actions_file3 parse_file_actions_file4
  parse_file_actions_file5 parse_file_actions_file6 parse_file_actions_file7 parse_file_actions_file8
  parse_file_actions_file9 parse_file_actions_file10 parse_file_actions_file11 parse_file_actions_file12
  parse_file_actions_file13 parse_file_actions_file14 parse_file_actions_file15 parse_file_actions_file16

lemma parse_file_actions_read:
  assumes "peg_parser manifest_grammar parse"
  shows "parse_string parse parse_file_actions_manifest = Ok (Manifest_new\<lparr>m_files := parse_file_actions_results\<rparr>)"
proof -
  have "list_all (\<lambda>a. act_kind a = Kind_File) (document_actions parse_file_actions_layout)" by code_simp
  then have "list_all2 (\<lambda>a f. act_kind a = Kind_File \<and> File_from a = Ok f)
      (document_actions parse_file_actions_layout) parse_file_actions_results"
    by (simp add: document_actions_def parse_file_actions_layout_def parse_file_actions_results_def
        parse_file_actions_files)
  then show ?thesis
    using document_parse_string [OF assms parse_file_actions_wf]
    by (simp add: parse_file_actions_text add_files Manifest_new_def)
qed

section \<open>The tests pass\<close>

lemma index_Ok [simp]: "i < length xs \<Longrightarrow> index xs i = Ok (xs ! i)"
  by (simp add: index_def)

lemma assert_that_True [simp]: "assert_that True = Ok ()"
  by (simp add: assert_that_def)

lemma for_enumerated_pass:
  assumes "\<And>i. i < length xs \<Longrightarrow> body i (xs ! i) = Ok ()"
  shows "for_enumerated xs body = Ok ()"
proof -
  have "fold_res (\<lambda>(pos, x) _. body pos x) (List.enumerate k ys) () = Ok ()"
    if "\<And>i. i < length ys \<Longrightarrow> body (k + i) (ys ! i) = Ok ()" for k ys
    using that
  proof (induction ys arbitrary: k)
    case (Cons y ys)
    from Cons.prems [of 0] have "body k y = Ok ()" by simp
    moreover have "body (Suc k + i) (ys ! i) = Ok ()" if "i < length ys" for i
      using Cons.prems [of "Suc i"] that by simp
    ultimately show ?case using Cons.IH [of "Suc k"] by simp
  qed simp
  from this [of xs 0] assms show ?thesis by (simp add: for_enumerated_def)
qed

lemma assert_primary_same [simp]: "assert_primary f f = Ok ()"
  by (simp add: assert_primary_def split: option.split)

lemma assert_additional_same [simp]: "assert_additional f f = Ok ()"
  by (auto simp: assert_additional_def split: option.split intro!: for_enumerated_pass)

lemma assert_links_same [simp]: "assert_links ls ls = Ok ()"
  by (auto simp: assert_links_def intro!: for_enumerated_pass)

lemma parse_attributes_pass: "peg_parser manifest_grammar parse \<Longrightarrow> parse_attributes parse = Ok ()"
  by (simp add: parse_attributes_def parse_attributes_read unwrap_parsed_def for_enumerated_pass)
    (simp add: parse_attributes_results_def)

lemma parse_direcory_actions_pass: "peg_parser manifest_grammar parse \<Longrightarrow> parse_direcory_actions parse = Ok ()"
  by (simp add: parse_direcory_actions_def parse_direcory_actions_read unwrap_parsed_def for_enumerated_pass)

lemma parse_file_actions_pass: "peg_parser manifest_grammar parse \<Longrightarrow> parse_file_actions parse = Ok ()"
  by (simp add: parse_file_actions_def parse_file_actions_read unwrap_parsed_def for_enumerated_pass)

lemma parse_unicode_pass: "peg_parser manifest_grammar parse \<Longrightarrow> parse_unicode parse = Ok ()"
  by (simp add: parse_unicode_def parse_unicode_read unwrap_parsed_def)

lemma parse_line_breaks_pass: "peg_parser manifest_grammar parse \<Longrightarrow> parse_line_breaks parse = Ok ()"
proof -
  have "list_all (\<lambda>f. file_properties f \<noteq> []) parse_line_breaks_files"
    by (simp add: parse_line_breaks_files_def)
  then have "0 < length (file_properties (parse_line_breaks_files ! i))" if "i < length parse_line_breaks_files" for i
    using that by (simp add: list_all_length)
  then show "parse_line_breaks parse = Ok ()" if "peg_parser manifest_grammar parse"
    using that by (simp add: parse_line_breaks_def parse_line_breaks_read unwrap_parsed_def for_enumerated_pass)
qed

text \<open>Going over the facets of a dependency in any order finds them in the expected ones.\<close>

lemma parse_dependency_actions_pass:
  assumes "peg_parser manifest_grammar parse" and "hash_iteration entries"
  shows "parse_dependency_actions entries parse = Ok ()"
proof -
  have "fmlookup d k = Some f" if "i < length (entries d)" "entries d ! i = (k, f)" for d i k f
    using hash_iteration.entries_set [OF assms(2), of k f d] nth_mem [OF that(1)] that(2) by simp
  then have "for_enumerated (entries d) (\<lambda>_ (key, facet).
      (case fmlookup d key of
         None \<Rightarrow> Panic ''error no facet with name found''
       | Some f \<Rightarrow> res_bind (assert_that (facet_name facet = facet_name f)) (\<lambda>_.
           assert_that (facet_value facet = facet_value f)))) = (Ok () :: (unit, ActionError) res)" for d
    by (intro for_enumerated_pass) (auto split: prod.split)
  then show ?thesis
    by (simp add: parse_dependency_actions_def parse_dependency_actions_read [OF assms(1)] unwrap_parsed_def
        for_enumerated_pass)
qed

text \<open>
  The unit tests of the library pass: reading the six test manifests returns without error or panic, no
  index is out of range and every assertion holds, for every parser that makes the choices of the grammar
  and every iteration order of hash maps.
\<close>

lemma libips_tests_pass:
  assumes "peg_parser manifest_grammar parse" and "hash_iteration entries"
  shows "parse_attributes parse = Ok ()
    \<and> parse_direcory_actions parse = Ok ()
    \<and> parse_file_actions parse = Ok ()
    \<and> parse_dependency_actions entries parse = Ok ()
    \<and> parse_line_breaks parse = Ok ()
    \<and> parse_unicode parse = Ok ()"
  using assms parse_attributes_pass parse_direcory_actions_pass parse_file_actions_pass
    parse_dependency_actions_pass parse_line_breaks_pass parse_unicode_pass by blast

end
