(* ===== verification/Specfile_Tests.thy ===== *)
theory Specfile_Tests
  imports Specfile_Text
begin

text \<open>
  The unit tests of \<^verbatim>\<open>src/specfile/src/lib.rs\<close>. \<^verbatim>\<open>test_parse\<close> reads \<^verbatim>\<open>src/test_data/simple.spec\<close> and asserts that
  parsing it succeeds. The test passes, and the file is read as the fields one would expect, except that every
  comment line is dropped from a script, the first line of the shell script in its here-document included.
\<close>

section \<open>The tests\<close>

definition simple_spec :: string where
  "simple_spec =
     ''Name:       hello-world'' @ [CHR 0x0A]
     @ ''Version:    1'' @ [CHR 0x0A]
     @ ''Release:    1'' @ [CHR 0x0A]
     @ ''Summary:    Most simple RPM package'' @ [CHR 0x0A]
     @ ''License:    FIXME'' @ [CHR 0x0A]
     @ [CHR 0x0A]
     @ ''%description'' @ [CHR 0x0A]
     @ ''This is my first RPM package, which does nothing.'' @ [CHR 0x0A]
     @ ''This is a second description line.'' @ [CHR 0x0A]
     @ [CHR 0x0A]
     @ ''%prep'' @ [CHR 0x0A]
     @ ''# we have no source, so nothing here'' @ [CHR 0x0A]
     @ [CHR 0x0A]
     @ ''%build'' @ [CHR 0x0A]
     @ ''cat > hello-world.sh <<EOF'' @ [CHR 0x0A]
     @ ''#!/usr/bin/bash'' @ [CHR 0x0A]
     @ ''echo Hello world'' @ [CHR 0x0A]
     @ ''EOF'' @ [CHR 0x0A]
     @ [CHR 0x0A]
     @ ''%install'' @ [CHR 0x0A]
     @ ''mkdir -p %{buildroot}/usr/bin/'' @ [CHR 0x0A]
     @ ''install -m 755 hello-world.sh %{buildroot}/usr/bin/hello-world.sh'' @ [CHR 0x0A]
     @ [CHR 0x0A]
     @ ''%files'' @ [CHR 0x0A]
     @ ''/usr/bin/hello-world.sh'' @ [CHR 0x0A]
     @ [CHR 0x0A]
     @ ''%changelog'' @ [CHR 0x0A]
     @ ''# let'' @ [CHR 0x27] @ ''s skip this for now'' @ [CHR 0x0A]
     @ [CHR 0x0A]"

definition it_works_specfile :: "(unit, pest_error) res" where
  "it_works_specfile = assert_that (2 + 2 = (4 :: int))"

text \<open>\<open>read\<close> is \<^verbatim>\<open>fs::read_to_string\<close>.\<close>

definition test_parse ::
  "(string \<Rightarrow> (string, io_error) res) \<Rightarrow> (spec_rule \<Rightarrow> string \<Rightarrow> (spec_rule pair list, pest_error) res)
     \<Rightarrow> (unit, pest_error) res" where
  "test_parse read parse =
     (case read ''src/test_data/simple.spec'' of
        Ok file \<Rightarrow>
          (case spec_parse parse file of
             Panic msg \<Rightarrow> Panic msg
           | spec \<Rightarrow> assert_that (\<not> is_err spec))
      | Err e \<Rightarrow> Panic (''io error: '' @ e)
      | Panic msg \<Rightarrow> Panic msg)"

section \<open>They pass\<close>

definition simple_layout :: spec_document where
  "simple_layout =
     [([], Assign ''Name'' ''       '' ''hello-world''),
      ([], Assign ''Version'' ''    '' ''1''),
      ([], Assign ''Release'' ''    '' ''1''),
      ([], Assign ''Summary'' ''    '' ''Most simple RPM package''),
      ([], Assign ''License'' ''    '' ''FIXME''),
      ([], Empty_Line),
      ([], Script ''description''
        [([], ''This is my first RPM package, which does nothing.''),
         ([], ''This is a second description line.'')]),
      ([], Empty_Line),
      ([], Script ''prep''
        [([], ''# we have no source, so nothing here'')]),
      ([], Empty_Line),
      ([], Script ''build''
        [([], ''cat > hello-world.sh <<EOF''),
         ([], ''#!/usr/bin/bash''),
         ([], ''echo Hello world''),
         ([], ''EOF'')]),
      ([], Empty_Line),
      ([], Script ''install''
        [([], ''mkdir -p %{buildroot}/usr/bin/''),
         ([], ''install -m 755 hello-world.sh %{buildroot}/usr/bin/hello-world.sh'')]),
      ([], Empty_Line),
      ([], Script ''files''
        [([], ''/usr/bin/hello-world.sh'')]),
      ([], Empty_Line),
      ([], Script ''changelog''
        [([], ''# let'' @ [CHR 0x27] @ ''s skip this for now'')]),
      ([], Empty_Line)]"

lemma simple_layout_text: "spec_document_text simple_layout = simple_spec"
  by (simp add: simple_layout_def simple_spec_def script_lines_text_def script_line_text_def)

lemma simple_layout_wf: "wf_spec_document simple_layout"
  by code_simp

lemma simple_layout_sections:
  "document_sections simple_layout =
     [(''description'', [''This is my first RPM package, which does nothing.'', ''This is a second description line.'']),
      (''prep'', []), (''build'', [''cat > hello-world.sh <<EOF'', ''echo Hello world'', ''EOF'']),
      (''install'', [''mkdir -p %{buildroot}/usr/bin/'',
         ''install -m 755 hello-world.sh %{buildroot}/usr/bin/hello-world.sh'']),
      (''files'', [''/usr/bin/hello-world.sh'']), (''changelog'', [])]"
  by code_simp

lemma simple_spec_read:
  assumes "peg_parser spec_grammar parse"
  shows "spec_parse parse simple_spec = Ok (spec_fields (document_assignments simple_layout) (document_sections simple_layout))"
  using spec_document_outcome [OF assms simple_layout_wf]
  by (simp add: simple_layout_text simple_layout_sections)

lemma specfile_tests_pass:
  assumes "peg_parser spec_grammar parse" and "read ''src/test_data/simple.spec'' = Ok simple_spec"
  shows "test_parse read parse = Ok () \<and> it_works_specfile = Ok ()"
  by (simp add: test_parse_def assms(2) simple_spec_read [OF assms(1)] it_works_specfile_def assert_that_def)

text \<open>The shell script in the here-document of \<^verbatim>\<open>%build\<close> loses its first line, \<^verbatim>\<open>#!/usr/bin/bash\<close>.\<close>

lemma simple_build_script:
  assumes "peg_parser spec_grammar parse" and "spec_parse parse simple_spec = Ok spec"
  shows "build_script spec = ''cat > hello-world.sh <<EOF'' @ [CHR 0x0A] @ ''echo Hello world'' @ [CHR 0x0A] @ ''EOF''"
  using assms(2) unfolding simple_spec_read [OF assms(1)]
  by (auto simp: spec_fields_def simple_layout_sections script_of_def texts_of_def)

end
