(* ===== verification/Userland_Makefile_Text.thy ===== *)
theory Userland_Makefile_Text
  imports Userland_Makefile Pest_Text
begin

text \<open>
  Makefiles as text. A \<open>mk_document\<close> is the layout of a makefile: line breaks, comments, assignments with \<^verbatim>\<open>=\<close> and
  \<^verbatim>\<open>+=\<close>, \<^verbatim>\<open>define\<close> blocks, includes and targets without recipes. The text of every well-formed document is read as
  its assignments and includes, by every parser that makes the choices of \<^verbatim>\<open>makefile.pest\<close>. pest's class
  \<^verbatim>\<open>UPPERCASE\<close> is a parameter; on ASCII characters it is \<^verbatim>\<open>A\<close> to \<^verbatim>\<open>Z\<close> (\<open>upper_ascii\<close>).
\<close>

section \<open>Documents\<close>

datatype mk_entry =
    Mk_Break
  | Mk_Comment string
  | Mk_Assign string string bool string string
  | Mk_Define string string string string string
  | Mk_Include string string
  | Mk_Target string string string

type_synonym mk_document = "(string \<times> mk_entry) list"

abbreviation end_keyword :: string where
  "end_keyword \<equiv> CHR 0x0A # ''endef''"

fun mk_entry_text :: "mk_entry \<Rightarrow> string" where
  "mk_entry_text Mk_Break = [CHR 0x0A]"
| "mk_entry_text (Mk_Comment c) = ''#'' @ c @ [CHR 0x0A]"
| "mk_entry_text (Mk_Assign k b1 add b2 v) = k @ b1 @ (if add then ''+='' else ''='') @ b2 @ v"
| "mk_entry_text (Mk_Define b k b1 b2 v) = ''define'' @ b @ k @ b1 @ ''='' @ b2 @ [CHR 0x0A] @ v @ end_keyword"
| "mk_entry_text (Mk_Include b v) = ''include'' @ b @ v"
| "mk_entry_text (Mk_Target k b v) = k @ '':'' @ b @ v"

definition mk_text :: "mk_document \<Rightarrow> string" where
  "mk_text d = concat (map (\<lambda>(b, e). b @ mk_entry_text e) d)"

text \<open>What a document says; \<^verbatim>\<open>+=\<close> is read as \<^verbatim>\<open>=\<close>.\<close>

definition plain_variable :: "string \<Rightarrow> MakefileVariable" where
  "plain_variable v = \<lparr>var_key = [], var_values = [v], var_mode = Mode_Set\<rparr>"

definition entry_assignments :: "mk_entry \<Rightarrow> (string \<times> MakefileVariable) list" where
  "entry_assignments e =
     (case e of Mk_Assign k _ _ _ v \<Rightarrow> [(k, plain_variable v)] | Mk_Define _ k _ _ v \<Rightarrow> [(k, plain_variable v)] | _ \<Rightarrow> [])"

definition entry_includes :: "mk_entry \<Rightarrow> string list" where
  "entry_includes e = (case e of Mk_Include _ v \<Rightarrow> [v] | _ \<Rightarrow> [])"

definition mk_assignments :: "mk_document \<Rightarrow> (string \<times> MakefileVariable) list" where
  "mk_assignments d = concat (map (entry_assignments \<circ> snd) d)"

definition mk_include_list :: "mk_document \<Rightarrow> string list" where
  "mk_include_list d = concat (map (entry_includes \<circ> snd) d)"

section \<open>Well-formed documents\<close>

definition upper_ascii :: "(string \<Rightarrow> nat) \<Rightarrow> bool" where
  "upper_ascii upper \<longleftrightarrow> upper [] = 0 \<and>
     (\<forall>c s. of_char c < (128 :: nat) \<longrightarrow> upper (c # s) = char_range (CHR ''A'') (CHR ''Z'') [c])"

definition mk_name_char :: "char \<Rightarrow> bool" where
  "mk_name_char c \<longleftrightarrow> char_range (CHR ''A'') (CHR ''Z'') [c] = 1 \<or> ascii_digit [c] = 1 \<or> c = CHR ''_'' \<or> c = CHR ''.''"

definition mk_name :: "string \<Rightarrow> bool" where
  "mk_name k \<longleftrightarrow> k \<noteq> [] \<and> list_all mk_name_char k"

definition one_line :: "string \<Rightarrow> bool" where
  "one_line v \<longleftrightarrow> utf8_valid v \<and> list_all (\<lambda>c. c \<noteq> CHR 0x0A \<and> c \<noteq> CHR 0x0D) v"

definition mk_value :: "string \<Rightarrow> bool" where
  "mk_value v \<longleftrightarrow> one_line v \<and> solid v"

text \<open>The value of a \<^verbatim>\<open>define\<close> ends at the first \<^verbatim>\<open>endef\<close> at the start of a line.\<close>

definition no_end :: "string \<Rightarrow> bool" where
  "no_end v = list_all (\<lambda>i. \<not> prefix end_keyword (drop i v @ end_keyword)) [0..<length v]"

definition define_body :: "string \<Rightarrow> bool" where
  "define_body v \<longleftrightarrow> utf8_valid v \<and> solid v \<and> CHR 0x0D \<notin> set v \<and> no_end v"

definition target_char :: "char \<Rightarrow> bool" where
  "target_char c \<longleftrightarrow> of_char c < (128 :: nat) \<and> \<not> blank_char c \<and> c \<notin> {CHR 0x0A, CHR 0x0D, CHR '':'', CHR ''=''}"

definition mk_target :: "string \<Rightarrow> bool" where
  "mk_target k \<longleftrightarrow> k \<noteq> [] \<and> hd k \<noteq> CHR ''#'' \<and> list_all target_char k
     \<and> \<not> prefix ''define'' k \<and> \<not> prefix ''include'' k"

fun wf_mk_entry :: "mk_entry \<Rightarrow> bool" where
  "wf_mk_entry Mk_Break = True"
| "wf_mk_entry (Mk_Comment c) \<longleftrightarrow> one_line c"
| "wf_mk_entry (Mk_Assign k b1 add b2 v) \<longleftrightarrow> mk_name k \<and> list_all blank_char b1 \<and> list_all blank_char b2 \<and> mk_value v"
| "wf_mk_entry (Mk_Define b k b1 b2 v) \<longleftrightarrow>
     list_all blank_char b \<and> mk_name k \<and> list_all blank_char b1 \<and> list_all blank_char b2 \<and> define_body v"
| "wf_mk_entry (Mk_Include b v) \<longleftrightarrow> list_all blank_char b \<and> mk_value v"
| "wf_mk_entry (Mk_Target k b v) \<longleftrightarrow> mk_target k \<and> list_all blank_char b \<and> mk_value v"

fun within_line :: "mk_entry \<Rightarrow> bool" where
  "within_line Mk_Break = False"
| "within_line (Mk_Comment c) = False"
| "within_line _ = True"

fun wf_mk_entries :: "mk_document \<Rightarrow> bool" where
  "wf_mk_entries [] = True"
| "wf_mk_entries ((b, e) # d) \<longleftrightarrow> list_all blank_char b \<and> wf_mk_entry e \<and> wf_mk_entries d
     \<and> (within_line e \<longrightarrow> d = [] \<or> hd d = ([], Mk_Break))"

definition wf_mk_document :: "mk_document \<Rightarrow> bool" where
  "wf_mk_document d \<longleftrightarrow> d \<noteq> [] \<and> wf_mk_entries d"

section \<open>Names and values\<close>

interpretation mk_blanks: blank_grammar "makefile_grammar upper" K_WHITESPACE for upper
  by unfold_locales (simp_all add: makefile_grammar_def)

definition eol :: "string \<Rightarrow> bool" where
  "eol t \<longleftrightarrow> t = [] \<or> hd t = CHR 0x0A"

lemma eol_solid: "eol t \<Longrightarrow> solid t"
  by (cases t) (simp_all add: eol_def blank_char_def)

lemma name_char_read:
  assumes "upper_ascii upper" and "of_char c < (128 :: nat)"
  shows "peg (makefile_grammar upper) n True (Rule K_variable_name_character) (c # s)
    = Some (if mk_name_char c then Some ([], s) else None)"
proof -
  have "upper (c # s) = char_range (CHR ''A'') (CHR ''Z'') [c]" using assms by (simp add: upper_ascii_def)
  then show ?thesis
    by (auto simp: reading mk_name_char_def char_range_def byte_class_def ascii_digit_def)
qed

definition name_end :: "string \<Rightarrow> bool" where
  "name_end t \<longleftrightarrow> t = [] \<or> of_char (hd t) < (128 :: nat) \<and> \<not> mk_name_char (hd t)"

lemma mk_name_char_ascii: "mk_name_char c \<Longrightarrow> of_char c < (128 :: nat)"
  by (auto simp: mk_name_char_def char_range_def byte_class_def ascii_digit_def split: if_splits)

lemma name_read:
  assumes "upper_ascii upper" and "list_all mk_name_char k" and "name_end t"
  shows "peg (makefile_grammar upper) n False (Rule K_variable_name) (k @ t) = Some (Some ([Pair K_variable_name k []], t))"
proof (rule peg_rule_atomic)
  have "peg (makefile_grammar upper) n True (Rule K_variable_name_character) [] = Some None"
    using assms(1) by (simp add: reading upper_ascii_def ascii_digit_def char_range_def byte_class_def)
  then have "peg (makefile_grammar upper) n True (Rule K_variable_name_character) t = Some None"
    using assms(1,3) by (cases t) (auto simp: name_end_def name_char_read)
  then have "peg (makefile_grammar upper) n True (Tail (Rule K_variable_name_character)) (k @ t) = Some (Some ([], t))"
    using assms(1,2) mk_name_char_ascii by (intro peg_tail_chars) (auto simp: name_char_read list_all_iff)
  then show "peg (makefile_grammar upper) n True (rule_body (makefile_grammar upper) K_variable_name) (k @ t) = Some (Some ([], t))"
    by (simp add: peg_star_atomic)
qed simp

lemma value_read:
  assumes "one_line v" and "eol t"
  shows "peg (makefile_grammar upper) n False (Rule K_variable_value) (v @ t) = Some (Some ([Pair K_variable_value v []], t))"
proof (rule peg_rule_atomic)
  let ?e = "Rule K_variable_value_character"
  have "peg (makefile_grammar upper) n True (Tail ?e) (v @ t) = Some (Some ([], t))"
    using assms by (intro peg_tail_utf8)
      (auto simp: one_line_def eol_def list_all_iff peg_rule_atomic_context simp del: alts.simps
        intro!: peg_line_char peg_line_char_stop)
  then show "peg (makefile_grammar upper) n True (rule_body (makefile_grammar upper) K_variable_value) (v @ t) = Some (Some ([], t))"
    by (simp add: peg_star_atomic)
qed simp

section \<open>Comments\<close>

lemma utf8_drop_blanks: "utf8_valid c \<Longrightarrow> utf8_valid (dropWhile blank_char c)"
proof (induction c)
  case (Cons a c)
  then show ?case by (auto simp: blank_char_def utf8_valid_def)
qed simp

lemma peg_not: "peg g n at e s = Some None \<Longrightarrow> peg g n at (Not e) s = Some (Some ([], s))"
  by (simp add: peg_equations)

lemma comment_char_read:
  assumes "whole_char u" and "set u \<inter> {CHR 0x0A, CHR 0x0D} = {}" and "solid u"
  shows "peg (makefile_grammar upper) n False (Rule K_comment_character) (u @ t) = Some (Some ([], t))"
proof -
  obtain c u' where u: "u = c # u'" using whole_charD(2) [OF assms(1)] by (cases u) auto
  have "peg (makefile_grammar upper) n False newline_exp (u @ t) = Some None"
    using assms(2) u by (intro newline_stop) auto
  moreover have "peg (makefile_grammar upper) n False (Cls any_char) (u @ t) = Some (Some ([], t))"
    using whole_charD [OF assms(1)] by (simp add: peg_equations take_peg_def)
  moreover have "solid (u @ t)" using assms(3) u by simp
  ultimately show ?thesis
    using mk_blanks.peg_seq_solid [OF peg_not] by (simp add: peg_rule_silent)
qed

lemma comment_char_stop: "peg (makefile_grammar upper) n False (Rule K_comment_character) (CHR 0x0A # t) = Some None"
  by (simp add: peg_rule_silent reading)

lemma comment_chars_read:
  assumes "one_line c"
  shows "\<exists>b. peg (makefile_grammar upper) n False (Tail (Rule K_comment_character)) (c @ CHR 0x0A # t)
      = Some (Some ([], b @ CHR 0x0A # t)) \<and> list_all blank_char b"
  using assms
proof (induction "length c" arbitrary: c rule: less_induct)
  case less
  let ?b = "takeWhile blank_char c" and ?r = "dropWhile blank_char c"
  have b: "list_all blank_char ?b" by (auto simp: list_all_iff dest: set_takeWhileD)
  have c: "c = ?b @ ?r" by simp
  have r: "utf8_valid ?r" "set ?r \<subseteq> set c" using less.prems utf8_drop_blanks by (auto simp: one_line_def dest: set_dropWhileD)
  show ?case
  proof (cases "?r = []")
    case True
    then have "c = ?b" by (metis append_Nil2 takeWhile_dropWhile_id)
    moreover have "solid (CHR 0x0A # t)" by (simp add: blank_char_def)
    ultimately show ?thesis
      using mk_blanks.peg_tail_blanks_done [OF b _ comment_char_stop] b by metis
  next
    case False
    then obtain u v where uv: "?r = u @ v" "whole_char u" "utf8_valid v" using utf8_split r(1) by blast
    then have u: "u \<noteq> []" "solid u" using whole_charD(2) hd_dropWhile [of blank_char c] False
      by (auto simp: solid_def simp del: dropWhile_eq_Nil_conv)
    have "length v < length c" using u(1) arg_cong [OF c, of length] uv(1) by (cases u) auto
    moreover have v: "one_line v" "set u \<inter> {CHR 0x0A, CHR 0x0D} = {}"
      using less.prems uv r(2) by (auto simp: one_line_def list_all_iff)
    ultimately obtain b' where b': "peg (makefile_grammar upper) n False (Tail (Rule K_comment_character)) (v @ CHR 0x0A # t)
        = Some (Some ([], b' @ CHR 0x0A # t))" "list_all blank_char b'"
      using less.hyps by blast
    have "solid (u @ v @ CHR 0x0A # t)" using u by (cases u) simp_all
    from mk_blanks.peg_tail_blanks [OF b this comment_char_read [OF uv(2) v(2) u(2)] b'(1)] b'(2) c uv(1)
    show ?thesis by (metis append.assoc append_Nil)
  qed
qed

lemma mk_comment_read:
  assumes "one_line c"
  shows "peg (makefile_grammar upper) n False (Rule K_comment_string) (''#'' @ c @ CHR 0x0A # t) = Some (Some ([], t))"
proof -
  let ?b = "takeWhile blank_char c" and ?r = "dropWhile blank_char c" and ?e = "Rule K_comment_character"
  have b: "list_all blank_char ?b" by (auto simp: list_all_iff dest: set_takeWhileD)
  have nl: "solid (CHR 0x0A # t)" by (simp add: blank_char_def)
  have solid: "solid (?r @ CHR 0x0A # t)"
    using hd_dropWhile [of blank_char c] by (cases ?r) (auto simp: blank_char_def simp del: dropWhile_eq_Nil_conv)
  have "one_line ?r" using assms utf8_drop_blanks by (auto simp: one_line_def list_all_iff dest: set_dropWhileD)
  then obtain b' where b': "peg (makefile_grammar upper) n False (Star ?e) (?r @ CHR 0x0A # t) = Some (Some ([], b' @ CHR 0x0A # t))"
    "list_all blank_char b'"
    using comment_chars_read [of ?r upper n t] mk_blanks.peg_star_solid [OF solid] by auto
  have "peg (makefile_grammar upper) n False (Seq (Star ?e) newline_exp) (?r @ CHR 0x0A # t) = Some (Some ([], t))"
    using mk_blanks.peg_seq_blanks [OF b' nl] newline_read by simp
  then have "peg (makefile_grammar upper) n False (Rule K_comment_string) (CHR ''#'' # ?b @ ?r @ CHR 0x0A # t) = Some (Some ([], t))"
    using mk_blanks.peg_seq_blanks [OF peg_lit_char b solid] by (simp add: peg_rule_silent)
  then show ?thesis by (simp flip: append_assoc)
qed

section \<open>Assignments, includes and targets\<close>

text \<open>The pairs of an entry.\<close>

definition char_tree :: "char \<Rightarrow> makefile_rule pair" where
  "char_tree c = Pair K_target_character [c] []"

fun entry_trees :: "mk_entry \<Rightarrow> makefile_rule pair list" where
  "entry_trees Mk_Break = []"
| "entry_trees (Mk_Comment c) = []"
| "entry_trees (Mk_Assign k b1 add b2 v) = [Pair K_variable (mk_entry_text (Mk_Assign k b1 add b2 v))
     [Pair K_variable_name k [], Pair K_variable_value v []]]"
| "entry_trees (Mk_Define b k b1 b2 v) = [Pair K_define (mk_entry_text (Mk_Define b k b1 b2 v))
     [Pair K_variable_name k [], Pair K_define_value v []]]"
| "entry_trees (Mk_Include b v) = [Pair K_include (mk_entry_text (Mk_Include b v)) [Pair K_variable_value v []]]"
| "entry_trees (Mk_Target k b v) = [Pair K_target (mk_entry_text (Mk_Target k b v))
     [Pair K_target_name k (map char_tree k), Pair K_variable_value v []]]"

lemma value_solid: "mk_value v \<Longrightarrow> eol t \<Longrightarrow> solid (v @ t)"
  using eol_solid by (cases v) (simp_all add: mk_value_def)

lemma value_part:
  assumes "mk_value v" and "eol t" and "list_all blank_char b"
    and "peg (makefile_grammar upper) n False a s = Some (Some (ts, b @ v @ t))"
  shows "peg (makefile_grammar upper) n False (Seq a (Rule K_variable_value)) s = Some (Some (ts @ [Pair K_variable_value v []], t))"
    "peg (makefile_grammar upper) n False (Seq a (Opt (Rule K_variable_value))) s = Some (Some (ts @ [Pair K_variable_value v []], t))"
proof -
  have v: "peg (makefile_grammar upper) n False (Rule K_variable_value) (v @ t) = Some (Some ([Pair K_variable_value v []], t))"
    using value_read assms(1,2) by (simp add: mk_value_def)
  then have "peg (makefile_grammar upper) n False (Opt (Rule K_variable_value)) (v @ t) = Some (Some ([Pair K_variable_value v []], t))"
    by (subst peg_equations) (simp add: alt_peg_def)
  with v mk_blanks.peg_seq_blanks [OF assms(4,3) value_solid [OF assms(1,2)]]
  show "peg (makefile_grammar upper) n False (Seq a (Rule K_variable_value)) s = Some (Some (ts @ [Pair K_variable_value v []], t))"
    "peg (makefile_grammar upper) n False (Seq a (Opt (Rule K_variable_value))) s = Some (Some (ts @ [Pair K_variable_value v []], t))"
    by simp_all
qed

lemma blanks_name_end: "list_all blank_char b \<Longrightarrow> name_end t \<Longrightarrow> name_end (b @ t)"
  by (cases b) (auto simp: name_end_def blank_char_def mk_name_char_def char_range_def byte_class_def ascii_digit_def)

lemma name_ends: "name_end (CHR ''='' # t)" "name_end (CHR ''+'' # t)" "name_end (CHR '':'' # t)"
  by (simp_all add: name_end_def mk_name_char_def char_range_def byte_class_def ascii_digit_def)

lemma assignment_read:
  assumes "upper_ascii upper" and "wf_mk_entry (Mk_Assign k b1 add b2 v)" and "eol t"
  shows "peg (makefile_grammar upper) n False (Rule K_variable) (mk_entry_text (Mk_Assign k b1 add b2 v) @ t)
    = Some (Some (entry_trees (Mk_Assign k b1 add b2 v), t))"
proof -
  let ?op = "if add then ''+='' else ''=''" and ?ops = "Alt (Rule K_variable_set) (Rule K_variable_add)"
  have k: "list_all mk_name_char k" "list_all blank_char b1" "list_all blank_char b2" "mk_value v"
    using assms(2) by (simp_all add: mk_name_def)
  have "peg (makefile_grammar upper) n False ?ops (?op @ b2 @ v @ t) = Some (Some ([], b2 @ v @ t))"
    by (cases add) (simp_all add: reading)
  from value_part(2) [OF k(4) assms(3) k(3) this]
  have ops: "peg (makefile_grammar upper) n False (Seq ?ops (Opt (Rule K_variable_value))) (?op @ b2 @ v @ t)
      = Some (Some ([Pair K_variable_value v []], t))" by simp
  have "name_end (b1 @ ?op @ b2 @ v @ t)" "solid (?op @ b2 @ v @ t)"
    using blanks_name_end [OF k(2)] name_ends by (simp_all add: blank_char_def)
  from mk_blanks.peg_seq_blanks [OF name_read [OF assms(1) k(1) this(1)] k(2) this(2)] ops
  have "peg (makefile_grammar upper) n False (makefile_rule_body upper K_variable) ((k @ b1 @ ?op @ b2 @ v) @ t)
      = Some (Some ([Pair K_variable_name k [], Pair K_variable_value v []], t))" by simp
  then show ?thesis by (simp only: entry_trees.simps mk_entry_text.simps) (intro peg_rule_normal, simp_all)
qed

lemma include_read:
  assumes "wf_mk_entry (Mk_Include b v)" and "eol t"
  shows "peg (makefile_grammar upper) n False (Rule K_include) (mk_entry_text (Mk_Include b v) @ t)
    = Some (Some (entry_trees (Mk_Include b v), t))"
proof -
  have "mk_value v" "list_all blank_char b" using assms(1) by simp_all
  from value_part(1) [OF this(1) assms(2) this(2) peg_lit, of upper n "''include''"]
  have "peg (makefile_grammar upper) n False (makefile_rule_body upper K_include) ((''include'' @ b @ v) @ t)
      = Some (Some ([Pair K_variable_value v []], t))" by simp
  then show ?thesis by (simp only: entry_trees.simps mk_entry_text.simps) (intro peg_rule_normal, simp_all)
qed

lemma target_char_read:
  assumes "target_char c"
  shows "peg (makefile_grammar upper) n False (Rule K_target_character) (c # s) = Some (Some ([char_tree c], s))"
proof -
  have "peg (makefile_grammar upper) n False (Lit '':'') (c # s) = Some None"
    using assms by (intro peg_lit_fail) (auto simp: target_char_def)
  moreover have "peg (makefile_grammar upper) n False (Cls any_char) (c # s) = Some (Some ([], s))"
    using assms by (simp add: reading any_char_def target_char_def)
  moreover have "solid (c # s)" using assms by (simp add: target_char_def)
  ultimately have "peg (makefile_grammar upper) n False (makefile_rule_body upper K_target_character) ([c] @ s) = Some (Some ([], s))"
    using mk_blanks.peg_seq_solid [OF peg_not] by simp
  then have "peg (makefile_grammar upper) n False (Rule K_target_character) ([c] @ s) = Some (Some ([char_tree c], s))"
    unfolding char_tree_def by (intro peg_rule_normal) simp_all
  then show ?thesis by simp
qed

lemma target_char_stop: "peg (makefile_grammar upper) n False (Rule K_target_character) (CHR '':'' # s) = Some None"
  by (rule peg_rule_fail) (simp add: reading)

lemma target_solid: "list_all target_char k \<Longrightarrow> solid (k @ CHR '':'' # s)"
  by (cases k) (auto simp: target_char_def blank_char_def)

lemma target_chars_read:
  assumes "list_all target_char k"
  shows "peg (makefile_grammar upper) n False (Tail (Rule K_target_character)) (k @ CHR '':'' # s)
    = Some (Some (map char_tree k, CHR '':'' # s))"
  using assms
proof (induction k)
  case Nil
  have "solid (CHR '':'' # s)" by (simp add: blank_char_def)
  from mk_blanks.peg_tail_blanks_done [OF _ this target_char_stop, of "[]"] show ?case by simp
next
  case (Cons c k)
  have "solid (c # k @ CHR '':'' # s)" using target_solid [OF Cons.prems] by simp
  from mk_blanks.peg_tail_blanks [OF _ this target_char_read Cons.IH, of "[]"] Cons.prems show ?case by simp
qed

lemma target_name_read:
  assumes "list_all target_char k" and "k \<noteq> []"
  shows "peg (makefile_grammar upper) n False (Rule K_target_name) (k @ CHR '':'' # s)
    = Some (Some ([Pair K_target_name k (map char_tree k)], CHR '':'' # s))"
proof (rule peg_rule_normal)
  obtain c k' where k: "k = c # k'" using assms(2) by (cases k) auto
  with assms(1) have k': "list_all target_char k'" "target_char c" by simp_all
  from mk_blanks.peg_seq_solid [OF target_char_read [OF k'(2)] target_solid [OF k'(1)]]
    mk_blanks.peg_star_solid [OF target_solid [OF k'(1)]] target_chars_read [OF k'(1)]
  show "peg (makefile_grammar upper) n False (rule_body (makefile_grammar upper) K_target_name) (k @ CHR '':'' # s)
      = Some (Some (map char_tree k, CHR '':'' # s))" by (simp add: k)
qed simp

lemma target_read:
  assumes "wf_mk_entry (Mk_Target k b v)" and "eol t"
  shows "peg (makefile_grammar upper) n False (Rule K_target) (mk_entry_text (Mk_Target k b v) @ t)
    = Some (Some (entry_trees (Mk_Target k b v), t))"
proof -
  have k: "list_all target_char k" "k \<noteq> []" "list_all blank_char b" "mk_value v"
    using assms(1) by (simp_all add: mk_target_def)
  have "peg (makefile_grammar upper) n False (Seq (Lit '':'') (Rule K_variable_value)) (CHR '':'' # b @ v @ t)
      = Some (Some ([Pair K_variable_value v []], t))"
    using value_part(1) [OF k(4) assms(2) k(3) peg_lit_char] by simp
  with mk_blanks.peg_seq_solid [OF target_name_read [OF k(1,2)]]
  have "peg (makefile_grammar upper) n False (makefile_rule_body upper K_target) ((k @ '':'' @ b @ v) @ t)
      = Some (Some ([Pair K_target_name k (map char_tree k), Pair K_variable_value v []], t))"
    by (simp add: blank_char_def)
  then show ?thesis by (simp only: entry_trees.simps mk_entry_text.simps) (intro peg_rule_normal, simp_all)
qed

section \<open>Definitions over several lines\<close>

lemma no_end_append: "no_end (u @ v) \<Longrightarrow> no_end v"
  unfolding no_end_def list_all_iff
proof (intro ballI)
  fix i assume all: "\<forall>i \<in> set [0..<length (u @ v)]. \<not> prefix end_keyword (drop i (u @ v) @ end_keyword)" and "i \<in> set [0..<length v]"
  then have "length u + i \<in> set [0..<length (u @ v)]" by simp
  with all have "\<not> prefix end_keyword (drop (length u + i) (u @ v) @ end_keyword)" by blast
  then show "\<not> prefix end_keyword (drop i v @ end_keyword)" by simp
qed

lemma no_end_start:
  assumes "no_end v" and "v \<noteq> []"
  shows "\<not> prefix end_keyword (v @ end_keyword @ t)"
proof -
  have "\<not> prefix end_keyword (v @ end_keyword)"
    using assms by (auto simp: no_end_def list_all_iff dest: bspec [of _ _ 0])
  moreover have "prefix end_keyword (v @ end_keyword)" if "prefix end_keyword ((v @ end_keyword) @ t)"
    using that by (rule prefix_length_prefix) simp_all
  ultimately show ?thesis by auto
qed

lemma end_keyword_stop:
  assumes "\<not> prefix end_keyword s" and "s = [] \<or> hd s \<noteq> CHR 0x0D"
  shows "peg (makefile_grammar upper) n True (Rule K_define_end_keyword) s = Some None"
  using assms by (cases s) (auto simp: reading)

lemma define_chars_read:
  assumes "utf8_valid v" and "CHR 0x0D \<notin> set v" and "no_end v"
  shows "peg (makefile_grammar upper) n True (Tail (Rule K_define_value_character)) (v @ end_keyword @ t)
    = Some (Some ([], end_keyword @ t))"
  using assms
proof (induction rule: utf8_induct)
  case Nil
  have "peg (makefile_grammar upper) n True (Rule K_define_value_character) (end_keyword @ t) = Some None"
    by (simp add: reading)
  then show ?case by (simp add: peg_tail_done_atomic)
next
  case (char u v)
  note u = whole_charD [OF char.hyps(1)]
  have "\<not> prefix end_keyword ((u @ v) @ end_keyword @ t)" using char.prems(2) u(2) by (intro no_end_start) simp_all
  moreover have "hd (u @ v @ end_keyword @ t) \<noteq> CHR 0x0D" using char.prems(1) u(2) by (cases u) auto
  ultimately have "peg (makefile_grammar upper) n True (Rule K_define_end_keyword) (u @ v @ end_keyword @ t) = Some None"
    by (intro end_keyword_stop) simp_all
  then have "peg (makefile_grammar upper) n True (Rule K_define_value_character) (u @ v @ end_keyword @ t)
      = peg (makefile_grammar upper) n True (Cls any_char) (u @ v @ end_keyword @ t)"
    by (subst peg_rule_atomic_context) (simp add: peg_seq_atomic [OF peg_not])
  also have "\<dots> = Some (Some ([], v @ end_keyword @ t))"
    using u by (simp add: peg_equations take_peg_def)
  finally have "peg (makefile_grammar upper) n True (Rule K_define_value_character) (u @ v @ end_keyword @ t)
      = Some (Some ([], v @ end_keyword @ t))" .
  moreover have "peg (makefile_grammar upper) n True (Tail (Rule K_define_value_character)) (v @ end_keyword @ t)
      = Some (Some ([], end_keyword @ t))"
    using char no_end_append by (intro char.IH) auto
  ultimately show ?case by (simp add: peg_tail_more_atomic)
qed

lemma define_read:
  assumes "upper_ascii upper" and "wf_mk_entry (Mk_Define b k b1 b2 v)"
  shows "peg (makefile_grammar upper) n False (Rule K_define) (mk_entry_text (Mk_Define b k b1 b2 v) @ t)
    = Some (Some (entry_trees (Mk_Define b k b1 b2 v), t))"
proof -
  let ?g = "makefile_grammar upper" and ?rest = "v @ end_keyword @ t"
  have w: "list_all blank_char b" "mk_name k" "list_all blank_char b1" "list_all blank_char b2"
    "utf8_valid v" "solid v" "CHR 0x0D \<notin> set v" "no_end v"
    using assms(2) by (simp_all add: define_body_def)
  have nl: "solid (CHR 0x0A # s)" "solid (CHR ''='' # s)" "solid (CHR ''e'' # s)" for s by (simp_all add: blank_char_def)
  have "peg ?g n False (Seq newline_exp (Lit ''endef'')) (end_keyword @ t) = peg ?g n False (Lit ''endef'') (''endef'' @ t)"
    using mk_blanks.peg_seq_solid [OF newline_read nl(3)] by simp
  then have "peg ?g n False (Rule K_define_end_keyword) (end_keyword @ t) = Some (Some ([], t))"
    using peg_lit [of ?g n False "''endef''" t] by (simp add: peg_rule_silent)
  moreover have "peg ?g n False (Rule K_define_value) ?rest = Some (Some ([Pair K_define_value v []], end_keyword @ t))"
    by (rule peg_rule_atomic) (simp_all add: peg_star_atomic define_chars_read [OF w(5,7,8), simplified])
  ultimately have "peg ?g n False (Seq (Rule K_define_value) (Rule K_define_end_keyword)) ?rest
      = Some (Some ([Pair K_define_value v []], t))" (is "peg _ _ _ ?body _ = _")
    using mk_blanks.peg_seq_solid [of _ _ _ _ _ "end_keyword @ t"] nl by simp
  moreover have "solid ?rest" using w(6) nl(1) by (cases v) simp_all
  ultimately have "peg ?g n False (Seq newline_exp ?body) (CHR 0x0A # ?rest) = Some (Some ([Pair K_define_value v []], t))"
    using mk_blanks.peg_seq_solid [OF newline_read] by simp
  moreover have "peg ?g n False (Rule K_variable_set) (CHR ''='' # b2 @ CHR 0x0A # ?rest) = Some (Some ([], b2 @ CHR 0x0A # ?rest))"
    by (simp add: peg_rule_silent peg_lit_char)
  ultimately have "peg ?g n False (Seq (Rule K_variable_set) (Seq newline_exp ?body)) (CHR ''='' # b2 @ CHR 0x0A # ?rest)
      = Some (Some ([Pair K_define_value v []], t))"
    using mk_blanks.peg_seq_blanks [OF _ w(4) nl(1)] by simp
  moreover have "name_end (b1 @ CHR ''='' # b2 @ CHR 0x0A # ?rest)" using w(3) name_ends(1) by (rule blanks_name_end)
  ultimately have "peg ?g n False (Seq (Rule K_variable_name) (Seq (Rule K_variable_set) (Seq newline_exp ?body)))
      (k @ b1 @ CHR ''='' # b2 @ CHR 0x0A # ?rest) = Some (Some ([Pair K_variable_name k [], Pair K_define_value v []], t))"
    using mk_blanks.peg_seq_blanks [OF name_read [OF assms(1)] w(3) nl(2)] w(2) by (simp add: mk_name_def)
  moreover have "solid (k @ s)" for s
    using w(2) by (cases k) (auto simp: mk_name_def mk_name_char_def blank_char_def char_range_def byte_class_def ascii_digit_def)
  moreover have "peg ?g n False (Rule K_define_keyword) (''define'' @ s) = Some (Some ([], s))" for s
    using peg_lit [of ?g n False "''define''" s] by (simp add: peg_rule_silent)
  ultimately have "peg ?g n False (makefile_rule_body upper K_define)
      ((''define'' @ b @ k @ b1 @ ''='' @ b2 @ [CHR 0x0A] @ v @ end_keyword) @ t)
      = Some (Some ([Pair K_variable_name k [], Pair K_define_value v []], t))"
    using mk_blanks.peg_seq_blanks [OF _ w(1)] by simp
  then show ?thesis by (simp only: entry_trees.simps mk_entry_text.simps) (intro peg_rule_normal, simp_all)
qed

section \<open>Reading a document\<close>

abbreviation mk_entry_exp :: "makefile_rule pexp" where
  "mk_entry_exp \<equiv> alts [newline_exp, Rule K_comment_string, Rule K_define, Rule K_variable, Rule K_include, Rule K_target]"

lemma comment_stop: "\<not> prefix ''#'' t \<Longrightarrow> peg (makefile_grammar upper) n False (Rule K_comment_string) t = Some None"
  by (rule peg_rule_fail) (simp add: peg_seq_fail peg_lit_fail)

lemma define_stop: "\<not> prefix ''define'' t \<Longrightarrow> peg (makefile_grammar upper) n False (Rule K_define) t = Some None"
  by (rule peg_rule_fail) (simp add: peg_seq_fail peg_lit_fail peg_rule_fail)

lemma include_stop: "\<not> prefix ''include'' t \<Longrightarrow> peg (makefile_grammar upper) n False (Rule K_include) t = Some None"
  by (rule peg_rule_fail) (simp add: peg_seq_fail peg_lit_fail)

lemma variable_stop:
  assumes "upper_ascii upper" and "list_all mk_name_char k" and "name_end r" and "solid r"
    and "\<not> prefix ''='' r" and "\<not> prefix ''+='' r"
  shows "peg (makefile_grammar upper) n False (Rule K_variable) (k @ r) = Some None"
proof -
  have "peg (makefile_grammar upper) n False (Alt (Rule K_variable_set) (Rule K_variable_add)) r = Some None"
    using assms(5,6) by (simp add: peg_alt_second peg_rule_fail peg_lit_fail)
  with mk_blanks.peg_seq_solid [OF name_read [OF assms(1-3)] assms(4)] show ?thesis
    by (intro peg_rule_fail) (simp add: peg_seq_fail)
qed

lemma first_choices:
  assumes "t = [] \<or> hd t \<notin> {CHR 0x0A, CHR 0x0D, CHR ''#''}"
  shows "peg (makefile_grammar upper) n False mk_entry_exp t
    = peg (makefile_grammar upper) n False (alts [Rule K_define, Rule K_variable, Rule K_include, Rule K_target]) t"
proof -
  have "\<not> prefix ''#'' t" using assms by (cases t) auto
  then have "peg (makefile_grammar upper) n False (Rule K_comment_string) t = Some None" by (rule comment_stop)
  moreover have "peg (makefile_grammar upper) n False newline_exp t = Some None" using assms by (intro newline_stop) auto
  ultimately show ?thesis by (simp add: peg_alt_second)
qed

lemma mk_entry_stop:
  assumes "upper_ascii upper"
  shows "peg (makefile_grammar upper) n False mk_entry_exp [] = Some None"
proof -
  have "peg (makefile_grammar upper) n False (Cls any_char) [] = Some None" by (simp add: reading any_char_def)
  then have "peg (makefile_grammar upper) n False (Rule K_target_character) [] = Some None"
    using mk_blanks.peg_seq_solid [OF peg_not [OF peg_lit_fail] solid_Nil, of "'':''"]
    by (intro peg_rule_fail) simp
  then have "peg (makefile_grammar upper) n False (Rule K_target) [] = Some None"
    by (simp add: peg_rule_fail peg_seq_fail)
  moreover have "peg (makefile_grammar upper) n False (Rule K_variable) [] = Some None"
    using variable_stop [OF assms, of "[]" "[]"] by (simp add: name_end_def)
  ultimately show ?thesis
    by (subst first_choices) (simp_all add: peg_alt_second define_stop include_stop)
qed

lemma assign_choice:
  assumes "upper_ascii upper" and "wf_mk_entry (Mk_Assign k b1 add b2 v)" and "eol t"
  shows "peg (makefile_grammar upper) n False mk_entry_exp (mk_entry_text (Mk_Assign k b1 add b2 v) @ t)
    = Some (Some (entry_trees (Mk_Assign k b1 add b2 v), t))"
proof -
  obtain c k' where k: "k = c # k'" "mk_name_char c" using assms(2) by (cases k) (auto simp: mk_name_def)
  then have "c \<notin> {CHR 0x0A, CHR 0x0D, CHR ''#'', CHR ''d''}"
    by (auto simp: mk_name_char_def char_range_def byte_class_def ascii_digit_def)
  then have "peg (makefile_grammar upper) n False (Rule K_define) (mk_entry_text (Mk_Assign k b1 add b2 v) @ t) = Some None"
    and "hd (mk_entry_text (Mk_Assign k b1 add b2 v) @ t) \<notin> {CHR 0x0A, CHR 0x0D, CHR ''#''}"
    using k by (auto intro!: define_stop)
  with assignment_read [OF assms, of n] show ?thesis
    by (subst first_choices) (simp_all add: peg_alt_second peg_alt_first del: mk_entry_text.simps entry_trees.simps)
qed

lemma include_choice:
  assumes "upper_ascii upper" and "wf_mk_entry (Mk_Include b v)" and "eol t"
  shows "peg (makefile_grammar upper) n False mk_entry_exp (mk_entry_text (Mk_Include b v) @ t)
    = Some (Some (entry_trees (Mk_Include b v), t))"
proof -
  let ?s = "mk_entry_text (Mk_Include b v) @ t"
  have "name_end ?s" "solid ?s" "\<not> prefix ''='' ?s" "\<not> prefix ''+='' ?s" "\<not> prefix ''define'' ?s"
    by (simp_all add: name_end_def mk_name_char_def char_range_def byte_class_def ascii_digit_def blank_char_def)
  then have "peg (makefile_grammar upper) n False (Rule K_variable) ?s = Some None"
    "peg (makefile_grammar upper) n False (Rule K_define) ?s = Some None"
    using variable_stop [OF assms(1), of "[]" ?s] define_stop by simp_all
  moreover have "hd ?s \<notin> {CHR 0x0A, CHR 0x0D, CHR ''#''}" by simp
  ultimately show ?thesis
    using include_read [OF assms(2,3), of upper n]
    by (subst first_choices) (simp_all add: peg_alt_second peg_alt_first del: mk_entry_text.simps entry_trees.simps)
qed

lemma define_choice:
  assumes "upper_ascii upper" and "wf_mk_entry (Mk_Define b k b1 b2 v)"
  shows "peg (makefile_grammar upper) n False mk_entry_exp (mk_entry_text (Mk_Define b k b1 b2 v) @ t)
    = Some (Some (entry_trees (Mk_Define b k b1 b2 v), t))"
proof -
  have "hd (mk_entry_text (Mk_Define b k b1 b2 v) @ t) \<notin> {CHR 0x0A, CHR 0x0D, CHR ''#''}" by simp
  with define_read [OF assms, of n t] show ?thesis
    by (subst first_choices) (simp_all add: peg_alt_first del: mk_entry_text.simps entry_trees.simps)
qed

lemma prefix_append_short: "\<not> prefix l k \<Longrightarrow> c \<notin> set l \<Longrightarrow> \<not> prefix l (k @ c # s)"
  by (auto simp: prefix_append prefix_Cons append_eq_append_conv2 prefix_def Cons_eq_append_conv)

lemma target_choice:
  assumes "upper_ascii upper" and "wf_mk_entry (Mk_Target k b v)" and "eol t"
  shows "peg (makefile_grammar upper) n False mk_entry_exp (mk_entry_text (Mk_Target k b v) @ t)
    = Some (Some (entry_trees (Mk_Target k b v), t))"
proof -
  let ?s = "mk_entry_text (Mk_Target k b v) @ t" and ?m = "takeWhile mk_name_char k" and ?r = "dropWhile mk_name_char k"
  have k: "k \<noteq> []" "hd k \<noteq> CHR ''#''" "list_all target_char k" "\<not> prefix ''define'' k" "\<not> prefix ''include'' k"
    using assms(2) by (simp_all add: mk_target_def)
  have s: "?s = ?m @ ?r @ CHR '':'' # b @ v @ t" by (simp flip: append_assoc)
  have r: "list_all target_char ?r" using k(3) by (auto simp: list_all_iff dest: set_dropWhileD)
  have "name_end (?r @ CHR '':'' # b @ v @ t)"
    using r hd_dropWhile [of mk_name_char k] name_ends(3)
    by (cases ?r) (auto simp: name_end_def target_char_def simp del: dropWhile_eq_Nil_conv)
  moreover have "\<not> prefix ''='' (?r @ CHR '':'' # b @ v @ t)" "\<not> prefix ''+='' (?r @ CHR '':'' # b @ v @ t)"
    using r by (cases ?r; cases "tl ?r"; auto simp: target_char_def simp del: dropWhile_eq_Nil_conv)+
  ultimately have "peg (makefile_grammar upper) n False (Rule K_variable) ?s = Some None"
    unfolding s using r by (intro variable_stop [OF assms(1)] target_solid) (auto simp: list_all_iff dest: set_takeWhileD)
  moreover have "peg (makefile_grammar upper) n False (Rule K_define) ?s = Some None"
    "peg (makefile_grammar upper) n False (Rule K_include) ?s = Some None"
    using prefix_append_short [OF k(4), of "CHR '':''"] prefix_append_short [OF k(5), of "CHR '':''"]
    by (auto intro!: define_stop include_stop)
  moreover have "hd ?s \<notin> {CHR 0x0A, CHR 0x0D, CHR ''#''}" using k(1-3) by (cases k) (auto simp: target_char_def)
  ultimately show ?thesis
    using target_read [OF assms(2,3), of upper n]
    by (subst first_choices) (simp_all add: peg_alt_second del: mk_entry_text.simps entry_trees.simps)
qed

text \<open>The document without the blanks at its start.\<close>

definition mk_lead :: "mk_document \<Rightarrow> string" where
  "mk_lead d = (case d of [] \<Rightarrow> [] | (b, e) # _ \<Rightarrow> b)"

definition mk_body :: "mk_document \<Rightarrow> string" where
  "mk_body d = (case d of [] \<Rightarrow> [] | (b, e) # d' \<Rightarrow> mk_entry_text e @ mk_text d')"

lemma mk_text_simps [simp]: "mk_text [] = []" "mk_text ((b, e) # d) = b @ mk_entry_text e @ mk_text d"
  by (simp_all add: mk_text_def)

lemma mk_body_simps [simp]: "mk_body [] = []" "mk_body ((b, e) # d) = mk_entry_text e @ mk_text d"
  by (simp_all add: mk_body_def)

definition mk_trees :: "mk_document \<Rightarrow> makefile_rule pair list" where
  "mk_trees d = concat (map (\<lambda>(_, e). entry_trees e) d)"

lemma mk_trees_simps [simp]: "mk_trees [] = []" "mk_trees ((b, e) # d) = entry_trees e @ mk_trees d"
  by (simp_all add: mk_trees_def)

lemma mk_text_body: "mk_text d = mk_lead d @ mk_body d"
  by (cases d) (auto simp: mk_lead_def)

lemma mk_lead_blank: "wf_mk_entries d \<Longrightarrow> list_all blank_char (mk_lead d)"
  by (cases d) (auto simp: mk_lead_def)

lemma mk_entry_solid: "wf_mk_entry e \<Longrightarrow> solid (mk_entry_text e @ t)"
proof (cases e)
  case (Mk_Assign k b1 add b2 v)
  assume "wf_mk_entry e"
  with Mk_Assign obtain c k' where "k = c # k'" "mk_name_char c" by (cases k) (auto simp: mk_name_def)
  with Mk_Assign show ?thesis
    by (auto simp: mk_name_char_def char_range_def byte_class_def ascii_digit_def blank_char_def)
next
  case (Mk_Target k b v)
  assume "wf_mk_entry e"
  with Mk_Target target_solid [of k "b @ v @ t"] show ?thesis by (simp add: mk_target_def)
qed (simp_all add: blank_char_def)

lemma mk_body_solid: "wf_mk_entries d \<Longrightarrow> solid (mk_body d)"
  using mk_entry_solid by (cases d) auto

lemma mk_entry_read:
  assumes "upper_ascii upper" and "wf_mk_entries ((b, e) # d)"
  shows "peg (makefile_grammar upper) n False mk_entry_exp (mk_body ((b, e) # d)) = Some (Some (entry_trees e, mk_text d))"
proof -
  have e: "wf_mk_entry e" and eol: "within_line e \<Longrightarrow> eol (mk_text d)"
    using assms(2) by (cases d; auto simp: eol_def)+
  show ?thesis
  proof (cases e)
    case Mk_Break
    with peg_alt_first [OF newline_read] show ?thesis by simp
  next
    case (Mk_Comment c)
    have "peg (makefile_grammar upper) n False newline_exp (mk_body ((b, e) # d)) = Some None"
      using Mk_Comment by (intro newline_stop) simp
    moreover have "peg (makefile_grammar upper) n False (Rule K_comment_string) (mk_body ((b, e) # d)) = Some (Some ([], mk_text d))"
      using mk_comment_read [of c upper n "mk_text d"] e Mk_Comment by simp
    ultimately show ?thesis using Mk_Comment by (simp add: peg_alt_second peg_alt_first)
  next
    case (Mk_Assign k b1 add b2 v)
    with assign_choice [OF assms(1)] e eol show ?thesis by (simp del: mk_entry_text.simps entry_trees.simps alts.simps wf_mk_entry.simps)
  next
    case (Mk_Define b0 k b1 b2 v)
    with define_choice [OF assms(1)] e show ?thesis by (simp del: mk_entry_text.simps entry_trees.simps alts.simps wf_mk_entry.simps)
  next
    case (Mk_Include b0 v)
    with include_choice [OF assms(1)] e eol show ?thesis by (simp del: mk_entry_text.simps entry_trees.simps alts.simps wf_mk_entry.simps)
  next
    case (Mk_Target k b0 v)
    with target_choice [OF assms(1)] e eol show ?thesis by (simp del: mk_entry_text.simps entry_trees.simps alts.simps wf_mk_entry.simps)
  qed
qed

lemma mk_entries_read:
  assumes "upper_ascii upper" and "wf_mk_entries d"
  shows "peg (makefile_grammar upper) n False (Tail mk_entry_exp) (mk_text d) = Some (Some (mk_trees d, []))"
  using assms(2)
proof (induction d)
  case Nil
  show ?case using mk_blanks.peg_tail_blanks_done [OF _ solid_Nil mk_entry_stop [OF assms(1)], of "[]"] by simp
next
  case (Cons x d)
  obtain b e where x: "x = (b, e)" by (cases x)
  with Cons have b: "list_all blank_char b" and IH: "peg (makefile_grammar upper) n False (Tail mk_entry_exp) (mk_text d)
      = Some (Some (mk_trees d, []))" by simp_all
  from mk_blanks.peg_tail_blanks [OF b mk_body_solid mk_entry_read [OF assms(1)] IH, of b e] Cons.prems x show ?case by simp
qed

lemma makefile_read:
  assumes "upper_ascii upper" and "wf_mk_document d"
  shows "peg (makefile_grammar upper) (length (mk_text d)) False (Rule K_makefile) (mk_text d)
    = Some (Some ([Pair K_makefile (mk_text d) (mk_trees d @ [Pair K_EOI [] []])], []))"
proof -
  define n where "n = length (mk_text d)"
  obtain b e d' where d: "d = (b, e) # d'" and wf: "wf_mk_entries d" "wf_mk_entries d'"
    using assms(2) by (cases d) (auto simp: wf_mk_document_def)
  have star: "peg (makefile_grammar upper) n False (Star mk_entry_exp) (mk_body d')
      = Some (Some (mk_trees d', []))"
  proof (cases d')
    case Nil
    with peg_star_done [OF mk_entry_stop [OF assms(1)], of n] show ?thesis by simp
  next
    case (Cons x d2)
    obtain b' e' where "x = (b', e')" by (cases x)
    with peg_star_more [OF mk_entry_read [OF assms(1)] mk_entries_read [OF assms(1)], of b' e' d2 n] Cons wf(2) show ?thesis
      by simp
  qed
  have "peg (makefile_grammar upper) n False (Plus mk_entry_exp) (mk_body d) = Some (Some (mk_trees d, []))"
    using mk_blanks.peg_seq_blanks [OF mk_entry_read [OF assms(1) wf(1) [unfolded d], of n, unfolded mk_text_body [of d']]
        mk_lead_blank [OF wf(2)] mk_body_solid [OF wf(2)]] star by (simp add: d)
  from mk_blanks.peg_seq_solid [OF this solid_Nil]
  have "peg (makefile_grammar upper) n False (Seq (Plus mk_entry_exp) Eoi) (mk_body d)
      = append_peg (mk_trees d) (peg (makefile_grammar upper) n False Eoi [])" .
  also have "peg (makefile_grammar upper) n False Eoi [] = Some (Some ([Pair K_EOI [] []], []))" by (simp add: reading(4,15))
  finally have plus: "peg (makefile_grammar upper) n False (Seq (Plus mk_entry_exp) Eoi) (mk_body d)
      = Some (Some (mk_trees d @ [Pair K_EOI [] []], []))" by simp
  have "peg (makefile_grammar upper) n False Soi (mk_text d) = Some (Some ([], mk_lead d @ mk_body d))"
    by (simp add: peg_equations return_peg_def n_def mk_text_body)
  from mk_blanks.peg_seq_blanks [OF this mk_lead_blank [OF wf(1)] mk_body_solid [OF wf(1)]] plus
  have "peg (makefile_grammar upper) n False (makefile_rule_body upper K_makefile) (mk_text d @ [])
      = Some (Some (mk_trees d @ [Pair K_EOI [] []], []))" by simp
  then have "peg (makefile_grammar upper) n False (Rule K_makefile) (mk_text d @ [])
      = Some (Some ([Pair K_makefile (mk_text d) (mk_trees d @ [Pair K_EOI [] []])], []))"
    by (intro peg_rule_normal) simp_all
  then show ?thesis by (simp add: n_def)
qed

section \<open>What is read\<close>

lemma entry_trees_assignments: "List.map_filter assignment_of (entry_trees e) = entry_assignments e"
  by (cases e) (simp_all add: List.map_filter_simps assignment_of_def entry_assignments_def plain_variable_def pair_text_def
      values_of_def)

lemma entry_trees_includes:
  "concat (map (\<lambda>p. values_of K_variable_value (into_inner p)) (filter (\<lambda>p. as_rule p = K_include) (entry_trees e)))
     = entry_includes e"
  by (cases e) (simp_all add: entry_includes_def values_of_def)

lemma document_trees:
  "List.map_filter assignment_of (mk_trees d @ [Pair K_EOI [] []]) = mk_assignments d"
  "concat (map (\<lambda>p. values_of K_variable_value (into_inner p))
     (filter (\<lambda>p. as_rule p = K_include) (mk_trees d @ [Pair K_EOI [] []]))) = mk_include_list d"
  by (induction d) (auto simp: entry_trees_assignments entry_trees_includes mk_assignments_def
      mk_include_list_def assignment_of_def List.map_filter_simps)

lemma makefile_text_read:
  assumes "upper_ascii upper" and "peg_parser (makefile_grammar upper) parse" and "wf_mk_document d"
  shows "parse_makefile_string parse (mk_text d)
    = Ok \<lparr>mk_path = [], mk_variables = hm_collect (mk_assignments d), mk_includes = mk_include_list d\<rparr>"
proof -
  have "parse K_makefile (mk_text d) = Ok [Pair K_makefile (mk_text d) (mk_trees d @ [Pair K_EOI [] []])]"
    by (rule peg_parser.parse_match [OF assms(2) makefile_read [OF assms(1,3)]])
  then show ?thesis
    by (simp add: parse_makefile_tree [OF peg_parser.axioms(1) [OF assms(2)]] makefile_assignments_def makefile_includes_def
        document_trees [simplified])
qed

section \<open>Properties\<close>

text \<open>
  C18: reading the text of a makefile. Every well-formed document, whatever its blanks and comments, is read without an
  error: each variable is the value that was assigned to it last, \<^verbatim>\<open>=\<close>, \<^verbatim>\<open>+=\<close> and \<^verbatim>\<open>define\<close> alike, and the includes
  are in the order of the text; targets are skipped.
\<close>

theorem makefile_from_text:
  assumes "upper_ascii upper" and "peg_parser (makefile_grammar upper) parse" and "wf_mk_document d"
  shows "Makefile_parse_string parse (mk_text d)
    = Ok \<lparr>mk_path = [], mk_variables = hm_collect (mk_assignments d), mk_includes = mk_include_list d\<rparr>"
  unfolding Makefile_parse_string_def by (rule makefile_text_read [OF assms])

lemma sample_upper_ascii: "upper_ascii (char_range (CHR ''A'') (CHR ''Z''))"
  by (simp add: upper_ascii_def char_range_def byte_class_def)

lemma sample_mk_peg: "peg_parser (makefile_grammar (char_range (CHR ''A'') (CHR ''Z''))) sample_mk_parse"
  unfolding sample_mk_parse_def by (rule ref_peg.peg_parser_axioms)

definition sample_mk_document :: mk_document where
  "sample_mk_document =
     [([], Mk_Comment '' a comment ''), ([], Mk_Assign ''A'' '' '' False '' '' ''1 2''), ([], Mk_Break),
      ([], Mk_Include '' '' ''../x.mk''), ([], Mk_Break), ('' '', Mk_Assign ''A'' [] True [] ''3''), ([], Mk_Break),
      ([], Mk_Define '' '' ''B'' [] [] (''x'' @ [CHR 0x0A] @ ''y'')), ([], Mk_Break), ([], Mk_Target ''all'' '' '' ''install'')]"

theorem makefile_from_text_witness:
  "\<exists>m. Makefile_parse_string sample_mk_parse (mk_text sample_mk_document) = Ok m \<and> mk_includes m = [''../x.mk'']
     \<and> map_option var_values (fmlookup (mk_variables m) ''A'') = Some [''3'']
     \<and> map_option var_values (fmlookup (mk_variables m) ''B'') = Some [''x'' @ [CHR 0x0A] @ ''y'']"
proof -
  have "wf_mk_document sample_mk_document" by code_simp
  from makefile_from_text [OF sample_upper_ascii sample_mk_peg this] show ?thesis
    by (simp add: sample_mk_document_def mk_assignments_def mk_include_list_def entry_assignments_def entry_includes_def
        plain_variable_def hm_collect_def)
qed

text \<open>
  What is not a document. A line that is none of the above, such as a variable in lower case, is the start of a
  target, whose name goes on to the next colon, over the following lines: their assignments are lost. An
  assignment with \<^verbatim>\<open>:=\<close> is a target as well.
\<close>

lemma lines_swallowed:
  "(case parse_makefile_string sample_mk_parse (''a=1'' @ [CHR 0x0A] @ ''B=2'' @ [CHR 0x0A] @ ''all: x'' @ [CHR 0x0A]
        @ ''C:=3'' @ [CHR 0x0A] @ ''D=4'' @ [CHR 0x0A]) of
      Ok m \<Rightarrow> map (\<lambda>k. map_option var_values (fmlookup (mk_variables m) k)) [''B'', ''C'', ''D''] = [None, None, Some [''4'']]
    | _ \<Rightarrow> False)"
  by code_simp

end
