(* ===== verification/Userland_Tree.thy ===== *)
theory Userland_Tree
  imports Userland_Includes Userland_Makefile_Text
begin

text \<open>
  Makefiles that include each other, from their texts. A tree of makefiles is a set of absolute paths, closed under
  includes, with a document for each path. Reading the makefile at a path and following its includes is the
  same as reading one document that has the assignments of the included makefiles, depth first in the order of
  the includes, before those of the including one.
\<close>

section \<open>Trees of makefiles\<close>

definition dir_of :: "string \<Rightarrow> string" where
  "dir_of p = (case path_parent p of Some d \<Rightarrow> d | None \<Rightarrow> ''/'')"

text \<open>\<open>resolve d i\<close> is the path of the name \<open>i\<close> in the directory \<open>d\<close>.\<close>

definition included_paths :: "(string \<Rightarrow> mk_document) \<Rightarrow> (string \<Rightarrow> string \<Rightarrow> string) \<Rightarrow> string \<Rightarrow> string list" where
  "included_paths docs resolve p = map (resolve (dir_of p)) (mk_include_list (docs p))"

text \<open>The assignments of a makefile and of what it includes, to a depth.\<close>

fun tree_assignments ::
  "nat \<Rightarrow> (string \<Rightarrow> mk_document) \<Rightarrow> (string \<Rightarrow> string \<Rightarrow> string) \<Rightarrow> string \<Rightarrow> (string \<times> MakefileVariable) list" where
  "tree_assignments 0 docs resolve p = mk_assignments (docs p)"
| "tree_assignments (Suc n) docs resolve p =
     concat (map (tree_assignments n docs resolve) (included_paths docs resolve p)) @ mk_assignments (docs p)"

text \<open>
  An operating system that serves the tree: absolute paths are read as the texts of their documents from every
  directory, it is possible to change to the directory of every makefile, and names are resolved there.
\<close>

definition serves_tree ::
  "os_calls \<Rightarrow> (string \<Rightarrow> mk_document) \<Rightarrow> (string \<Rightarrow> string \<Rightarrow> string) \<Rightarrow> string set \<Rightarrow> bool" where
  "serves_tree os docs resolve A \<longleftrightarrow>
     (\<forall>p \<in> A. (\<forall>cwd. os_read os cwd p = Ok (mk_text (docs p)) \<and> os_chdir os cwd (dir_of p) = Ok (dir_of p))
        \<and> (\<forall>i \<in> set (mk_include_list (docs p)). os_canonicalize os (dir_of p) i = Ok (resolve (dir_of p) i)))"

text \<open>Includes stay in the tree and do not go round in circles.\<close>

definition ranked_tree ::
  "(string \<Rightarrow> mk_document) \<Rightarrow> (string \<Rightarrow> string \<Rightarrow> string) \<Rightarrow> (string \<Rightarrow> nat) \<Rightarrow> string set \<Rightarrow> bool" where
  "ranked_tree docs resolve rank A \<longleftrightarrow>
     (\<forall>p \<in> A. wf_mk_document (docs p) \<and> (\<forall>q \<in> set (included_paths docs resolve p). q \<in> A \<and> rank q < rank p))"

definition tree_makefile :: "(string \<Rightarrow> mk_document) \<Rightarrow> string \<Rightarrow> Makefile" where
  "tree_makefile docs p = \<lparr>mk_path = p, mk_variables = hm_collect (mk_assignments (docs p)), mk_includes = mk_include_list (docs p)\<rparr>"

section \<open>Reading the tree\<close>

lemma hm_collect_append: "hm_collect (xs @ ys) = hm_collect xs ++\<^sub>f hm_collect ys"
  by (rule fmap_ext) (auto simp: map_add_def hm_collect_dom fmdom_notI fmlookup_dom_iff split: option.split dest: map_of_SomeD)

lemma entry_assignments_set: "(k, v) \<in> set (entry_assignments e) \<Longrightarrow> var_mode v = Mode_Set"
  by (cases e) (auto simp: entry_assignments_def plain_variable_def)

lemma mk_assignments_set: "(k, v) \<in> set (mk_assignments d) \<Longrightarrow> var_mode v = Mode_Set"
  by (auto simp: mk_assignments_def dest: entry_assignments_set)

lemma tree_assignments_set: "(k, v) \<in> set (tree_assignments n docs resolve p) \<Longrightarrow> var_mode v = Mode_Set"
  by (induction n arbitrary: p) (auto dest: mk_assignments_set)

lemma all_set_collect:
  assumes "\<And>k v. (k, v) \<in> set xs \<Longrightarrow> var_mode v = Mode_Set"
  shows "all_set (only_vars (hm_collect xs))"
  using assms by (auto simp: all_set_def only_vars_def dest!: map_of_SomeD)

lemma tree_makefile_set: "all_set (tree_makefile docs p)"
  by (auto simp: all_set_def tree_makefile_def dest!: map_of_SomeD mk_assignments_set)

lemma no_includes_assignments:
  "mk_include_list (docs p) = [] \<Longrightarrow> tree_assignments n docs resolve p = mk_assignments (docs p)"
  by (cases n) (simp_all add: included_paths_def)

lemma served_file:
  assumes "upper_ascii upper" and "peg_parser (makefile_grammar upper) parse" and "serves_tree os docs resolve A"
    and "ranked_tree docs resolve rank A" and "p \<in> A"
  shows "parse_single_file os parse cwd p = Ok (tree_makefile docs p)"
proof -
  have "os_read os cwd p = Ok (mk_text (docs p))" "wf_mk_document (docs p)"
    using assms(3-5) by (auto simp: serves_tree_def ranked_tree_def)
  then show ?thesis
    by (simp add: parse_single_file_def makefile_text_read [OF assms(1,2)] tree_makefile_def)
qed

lemma served_includes:
  assumes "upper_ascii upper" and "peg_parser (makefile_grammar upper) parse" and "serves_tree os docs resolve A"
    and "ranked_tree docs resolve rank A" and "p \<in> A"
  shows "\<exists>cwd'. parse_included_makefiles os parse cwd (tree_makefile docs p) =
    Ok (map (tree_makefile docs) (included_paths docs resolve p), cwd')"
proof (cases "mk_include_list (docs p) = []")
  case True
  then show ?thesis by (simp add: parse_included_makefiles_def get_includes_def tree_makefile_def included_paths_def)
next
  case False
  have step: "include_step os parse (dir_of p) i acc = Ok (acc @ [tree_makefile docs (resolve (dir_of p) i)])"
    if "i \<in> set (mk_include_list (docs p))" for i acc
  proof -
    have "resolve (dir_of p) i \<in> A" "os_canonicalize os (dir_of p) i = Ok (resolve (dir_of p) i)"
      using assms(3-5) that by (auto simp: serves_tree_def ranked_tree_def included_paths_def)
    then show ?thesis by (simp add: include_step_def served_file [OF assms(1-4)])
  qed
  have "fold_res (include_step os parse (dir_of p)) is acc = Ok (acc @ map (tree_makefile docs) (map (resolve (dir_of p)) is))"
    if "set is \<subseteq> set (mk_include_list (docs p))" for "is" acc
    using that by (induction "is" arbitrary: acc) (simp_all add: step)
  moreover have "(case path_parent p of Some d \<Rightarrow> os_chdir os cwd d | None \<Rightarrow> os_chdir os cwd ''/'') = Ok (dir_of p)"
    using assms(3,5) by (auto simp: serves_tree_def dir_of_def split: option.splits)
  ultimately show ?thesis
    using False by (simp add: parse_included_makefiles_def get_includes_def tree_makefile_def included_paths_def)
qed

lemma tree_loop:
  assumes "hash_iteration entries"
    and "\<And>q cwd. q \<in> set qs \<Longrightarrow> has_includes (tree_makefile docs q) \<Longrightarrow>
      \<exists>cwd'. rec cwd (tree_makefile docs q) = Some (Ok (only_vars (hm_collect (tree_assignments n docs resolve q)), cwd'))"
  shows "\<exists>cwd'. include_loop entries rec (map (tree_makefile docs) qs) (only_vars (hm_collect xs)) cwd =
    Some (Ok (only_vars (hm_collect (xs @ concat (map (tree_assignments n docs resolve) qs))), cwd'))"
  using assms(2)
proof (induction qs arbitrary: xs cwd)
  case (Cons q qs)
  let ?q = "tree_makefile docs q" and ?as = "tree_assignments n docs resolve q"
  have rest: "\<exists>cwd'. include_loop entries rec (map (tree_makefile docs) qs) (only_vars (hm_collect (xs @ ?as))) c =
      Some (Ok (only_vars (hm_collect ((xs @ ?as) @ concat (map (tree_assignments n docs resolve) qs))), cwd'))" for c
    by (rule Cons.IH) (simp add: Cons.prems)
  show ?case
  proof (cases "has_includes ?q")
    case True
    with Cons.prems [of q cwd] obtain c where "rec cwd ?q = Some (Ok (only_vars (hm_collect ?as), c))" by auto
    moreover have "merge entries (only_vars (hm_collect xs)) (only_vars (hm_collect ?as)) = only_vars (hm_collect (xs @ ?as))"
      using merge_only_vars [OF assms(1) all_set_collect [OF tree_assignments_set]]
      by (simp add: hm_collect_append only_vars_def)
    ultimately show ?thesis using True rest [of c] by simp
  next
    case False
    then have "mk_variables ?q = hm_collect ?as"
      by (simp add: has_includes_def tree_makefile_def no_includes_assignments)
    then have "merge entries (only_vars (hm_collect xs)) ?q = only_vars (hm_collect (xs @ ?as))"
      by (simp add: merge_only_vars [OF assms(1) tree_makefile_set] hm_collect_append)
    then show ?thesis using False rest [of cwd] by simp
  qed
qed simp

lemma tree_read:
  assumes "upper_ascii upper" and "peg_parser (makefile_grammar upper) parse" and "hash_iteration entries"
    and "serves_tree os docs resolve A" and "ranked_tree docs resolve rank A"
  shows "p \<in> A \<Longrightarrow> rank p \<le> n \<Longrightarrow> \<exists>cwd'. parse_all (Suc n) os parse entries cwd (tree_makefile docs p) =
    Some (Ok (only_vars (hm_collect (tree_assignments n docs resolve p)), cwd'))"
proof (induction n arbitrary: p cwd)
  case 0
  then have "set (included_paths docs resolve p) = {}" using assms(5) by (fastforce simp: ranked_tree_def)
  then have "included_paths docs resolve p = []" by simp
  then obtain c where "parse_included_makefiles os parse cwd (tree_makefile docs p) = Ok ([], c)"
    using served_includes [OF assms(1,2,4,5) 0(1)] by fastforce
  with merge_only_vars [OF assms(3) tree_makefile_set] show ?case
    by (simp add: Makefile_default_vars tree_makefile_def)
next
  case (Suc n)
  let ?qs = "included_paths docs resolve p"
  obtain c where c: "parse_included_makefiles os parse cwd (tree_makefile docs p) = Ok (map (tree_makefile docs) ?qs, c)"
    using served_includes [OF assms(1,2,4,5) Suc.prems(1)] by blast
  have "\<exists>cwd'. parse_all (Suc n) os parse entries cwd (tree_makefile docs q) =
      Some (Ok (only_vars (hm_collect (tree_assignments n docs resolve q)), cwd'))" if "q \<in> set ?qs" for q cwd
  proof (rule Suc.IH)
    show "q \<in> A" using that Suc.prems assms(5) by (auto simp: ranked_tree_def)
    have "rank q < rank p" using that Suc.prems assms(5) by (auto simp: ranked_tree_def)
    then show "rank q \<le> n" using Suc.prems(2) by simp
  qed
  then obtain c' where "include_loop entries (parse_all (Suc n) os parse entries) (map (tree_makefile docs) ?qs) (only_vars fmempty) c =
      Some (Ok (only_vars (hm_collect (concat (map (tree_assignments n docs resolve) ?qs))), c'))"
    using tree_loop [OF assms(3), where xs = "[]" and qs = ?qs and docs = docs and n = n and resolve = resolve
        and rec = "parse_all (Suc n) os parse entries" and cwd = c] by (auto simp: hm_collect_def [of "[]"])
  with c show ?case
    using merge_only_vars [OF assms(3) tree_makefile_set [of docs p]]
    by (simp add: Makefile_default_vars hm_collect_append tree_makefile_def del: parse_all.simps add: parse_all.simps(2) [of "Suc n"])
qed

section \<open>Properties\<close>

text \<open>
  C17: from the texts of makefiles that include each other to the variables of the whole. On a system that serves a tree
  of well-formed makefiles without include cycles, reading the makefile at a path and following its includes returns,
  with one level of recursion more than the rank of the path, and each variable has the value of the last
  assignment when the assignments of included makefiles are put before those of the including one, depth first and in
  the order of the includes. In particular an assignment before an \<^verbatim>\<open>include\<close> line overrides the included one.
\<close>

theorem makefile_tree_from_text:
  assumes "upper_ascii upper" and "peg_parser (makefile_grammar upper) parse" and "hash_iteration entries"
    and "serves_tree os docs resolve A" and "ranked_tree docs resolve rank A" and "p \<in> A"
  shows "\<exists>m cwd'. parse_single_file os parse cwd p = Ok m
    \<and> parse_all (Suc (rank p)) os parse entries cwd m =
        Some (Ok (\<lparr>mk_path = [], mk_variables = hm_collect (tree_assignments (rank p) docs resolve p), mk_includes = []\<rparr>, cwd'))"
  using tree_read [OF assms order_refl] served_file [OF assms(1,2,4,5,6)] by (auto simp: only_vars_def)

text \<open>A makefile that assigns \<^verbatim>\<open>A\<close>, includes a file that assigns \<^verbatim>\<open>A\<close> and \<^verbatim>\<open>B\<close>, and assigns nothing after it.\<close>

definition tree_docs :: "string \<Rightarrow> mk_document" where
  "tree_docs p =
     (if p = ''/w/Makefile'' then [([], Mk_Assign ''A'' [] False [] ''1''), ([], Mk_Break), ([], Mk_Include '' '' ''b.mk'')]
      else [([], Mk_Assign ''A'' [] False [] ''2''), ([], Mk_Break), ([], Mk_Assign ''B'' [] False [] ''3'')])"

definition tree_os :: os_calls where
  "tree_os = \<lparr>os_read = (\<lambda>cwd p. Ok (mk_text (tree_docs p))), os_canonicalize = (\<lambda>cwd p. Ok (path_join cwd p)),
     os_chdir = (\<lambda>cwd d. Ok d)\<rparr>"

definition tree_rank :: "string \<Rightarrow> nat" where
  "tree_rank p = (if p = ''/w/Makefile'' then 1 else 0)"

theorem makefile_tree_from_text_witness:
  "\<exists>m fin cwd'. parse_single_file tree_os sample_mk_parse ''/'' ''/w/Makefile'' = Ok m
     \<and> parse_all 2 tree_os sample_mk_parse sorted_list_of_fmap ''/'' m = Some (Ok (fin, cwd'))
     \<and> map_option var_values (fmlookup (mk_variables fin) ''A'') = Some [''1'']
     \<and> map_option var_values (fmlookup (mk_variables fin) ''B'') = Some [''3'']"
proof -
  let ?A = "{''/w/Makefile'', ''/w/b.mk''}"
  have "included_paths tree_docs path_join ''/w/Makefile'' = [''/w/b.mk'']" "included_paths tree_docs path_join ''/w/b.mk'' = []"
    "wf_mk_document (tree_docs ''/w/Makefile'')" "wf_mk_document (tree_docs ''/w/b.mk'')" by code_simp+
  then have "ranked_tree tree_docs path_join tree_rank ?A" by (simp add: ranked_tree_def tree_rank_def)
  moreover have "serves_tree tree_os tree_docs path_join ?A" by (simp add: serves_tree_def tree_os_def)
  moreover have "tree_assignments 1 tree_docs path_join ''/w/Makefile'' =
      [(''A'', plain_variable ''2''), (''B'', plain_variable ''3''), (''A'', plain_variable ''1'')]" by code_simp
  ultimately show ?thesis
    using makefile_tree_from_text [OF sample_upper_ascii sample_mk_peg sorted_iter.hash_iteration_axioms,
        of tree_os tree_docs path_join ?A tree_rank "''/w/Makefile''" "''/''"]
    by (auto simp: tree_rank_def plain_variable_def numeral_2_eq_2)
qed

end
