(* ===== verification/Spec2Isabelle.thy ===== *)
theory Spec2Isabelle
  imports Pkg6dev_Main Ports_Document Pkg6_Stubs Ips_Image Ips_Manifest_Invariant Ips_Tests_Pass Specfile_Tests
    Userland_Tree
begin

text \<open>
  A verification development for the Image Packaging System tools in Rust: the library \<^verbatim>\<open>libips\<close>, the crates
  \<^verbatim>\<open>userland\<close> and \<^verbatim>\<open>specfile\<close>, and the programs \<^verbatim>\<open>pkg6dev\<close> and \<^verbatim>\<open>ports\<close>.

  \<^bold>\<open>The program.\<close> \<^verbatim>\<open>libips\<close> reads package manifests: a text of actions (\<^verbatim>\<open>file\<close>, \<^verbatim>\<open>dir\<close>, \<^verbatim>\<open>depend\<close>, \<^verbatim>\<open>set\<close>, \<^verbatim>\<open>license\<close>,
  \<^verbatim>\<open>link\<close>, ...) becomes a \<^verbatim>\<open>Manifest\<close> of typed actions; file actions carry payloads identified by digests. \<^verbatim>\<open>userland\<close> reads
  the makefiles of a component, follows their includes, merges their variables and resolves references. \<^verbatim>\<open>specfile\<close> reads
  RPM spec files and replaces macros in their scripts. \<^verbatim>\<open>pkg6dev\<close> compares the manifests of a component with a sample and
  shows a component; \<^verbatim>\<open>ports\<close> builds a package from a spec file in a workspace.

  \<^bold>\<open>Foundations.\<close>
  \<^item> \<open>Rust_Prelude\<close>: outcomes (\<open>Ok\<close>, \<open>Err\<close>, and \<open>Panic\<close> for a call that ends in \<^verbatim>\<open>panic!\<close>, \<^verbatim>\<open>todo!\<close> or a failing
    \<^verbatim>\<open>unwrap\<close>), loops that may leave early (\<open>fold_res\<close>), hash maps as finite maps, and the locale \<open>hash_iteration\<close> for the
    unspecified iteration order of a hash map. The locale is interpreted by the order of the keys (\<open>sorted_iter\<close>).
  \<^item> \<open>Rust_Strings\<close>: strings as byte lists, with the operations of \<^verbatim>\<open>str\<close> and \<^verbatim>\<open>Path\<close> the program uses.
  \<^item> \<open>Rust_IO\<close>: computations with effects, as functions on the list of the calls made so far; the answers are parameters
    that may depend on that list. \<open>performs\<close> bounds the calls a computation can make.
  \<^item> \<open>Pest_Grammar\<close>: grammars of the parser generator \<^verbatim>\<open>pest\<close> as data, derivations, the pairs a rule can contain, and
    the locale \<open>pest_parser\<close>, the contract of a generated parser: what it returns is a derivation, and it does not panic.
    The generated parsers are not under \<^verbatim>\<open>src/\<close>; every theorem about reading holds for all parsers with this contract.
  \<^item> \<open>Pest_Reference\<close>: the reading of a grammar as a parsing expression grammar, with ordered choice, greedy repetition,
    lookahead and implicit blanks, as a partial function (not returning is \<open>None\<close>). The parser made of it satisfies the
    contract (\<open>ref_parser\<close>) and is evaluated in the examples. The locale \<open>peg_parser\<close> is the stronger contract that a
    parser returns the reading of the grammar whenever there is one; theorems about which texts are accepted rest on it.
  \<^item> \<open>Pest_Text\<close>: how the reading goes over characters, blanks, line breaks and runs of UTF-8 text; the locale
    \<open>blank_grammar\<close> for grammars whose implicit blanks are spaces and tabs, interpreted for the four grammars.

  \<^bold>\<open>Components.\<close>
  \<^item> \<open>Ips_Digest\<close> (\<^verbatim>\<open>libips/src/digest/mod.rs\<close>): digest strings. Printing and parsing round-trip, the outcome of parsing for
    every string, which digests can be computed. Locale \<open>string_codec\<close>, interpreted for algorithms and sources.
  \<^item> \<open>Ips_Payload\<close> (\<^verbatim>\<open>libips/src/payload/mod.rs\<close>): payloads of files. What \<^verbatim>\<open>compute_payload\<close> returns; what \<^verbatim>\<open>is_elf\<close> means.
  \<^item> \<open>Ips_Actions\<close> (\<^verbatim>\<open>libips/src/actions/mod.rs\<close>): actions, facets and the conversions from a generic action, field by
    field and with their panics. Locale \<open>faceted_action\<close> for the trait \<^verbatim>\<open>FacetedAction\<close>, interpreted for its four
    implementations; locales \<open>prop_field\<close>, \<open>prop_append\<close> and \<open>prop_map\<close> for the loops over properties, interpreted for every
    field of every action.
  \<^item> \<open>Ips_Manifest\<close> (same file and \<^verbatim>\<open>manifest.pest\<close>): the grammar and the reader. Reading refines adding the actions of the
    tree; what a manifest holds; exactly when reading panics.
  \<^item> \<open>Ips_Manifest_Text\<close>: the concrete texts of manifests, as documents of lines with their blanks, continuations, quotes
    and comments. A well-formed document is read as its actions, and printing followed by reading is the identity on
    actions that can be printed. \<open>Ips_Manifest_Invariant\<close>: what every manifest that was read satisfies.
  \<^item> \<open>Ips_Tests\<close> and \<open>Ips_Tests_Pass\<close> (\<^verbatim>\<open>libips/src/lib.rs\<close>): the unit tests of the crate and that all of them pass.
  \<^item> \<open>Ips_Image\<close> (\<^verbatim>\<open>libips/src/image/\<close>): opening an image always gives one.
  \<^item> \<open>Userland_Makefile\<close> (\<^verbatim>\<open>userland/src/lib.rs\<close>, \<^verbatim>\<open>makefile.pest\<close>): grammar, reading, merging; \<open>Userland_Resolve\<close>: when
    \<^verbatim>\<open>get\<close> returns and what; \<open>Userland_Includes\<close>: \<^verbatim>\<open>parse_all\<close> implements the big-step relation \<open>flattened\<close>, when it returns
    and when it cannot. \<open>Userland_Makefile_Text\<close>: the concrete texts of makefiles and that each is read as the
    assignments and includes it shows. \<open>Userland_Tree\<close>: makefiles that include each other, from their texts to the
    variables of the whole.
  \<^item> \<open>Userland_Component\<close> (\<^verbatim>\<open>userland/src/component.rs\<close>, \<^verbatim>\<open>repology.rs\<close>): components and newest versions.
  \<^item> \<open>Specfile_Parser\<close> (\<^verbatim>\<open>specfile/src/lib.rs\<close>, \<^verbatim>\<open>specfile.pest\<close>) and \<open>Specfile_Macros\<close> (\<^verbatim>\<open>macros.rs\<close>, \<^verbatim>\<open>macro.pest\<close>):
    reading spec files and replacing macros, with the exact conditions of their panics. \<open>Specfile_Text\<close> and
    \<open>Specfile_Macro_Text\<close>: the concrete texts of spec files and of the lines of scripts; what reading them gives, and
    that a line without a macro is refused. \<open>Specfile_Tests\<close>: the tests of the crate and its test file.
  \<^item> \<open>Pkg6dev_Diff\<close>, \<open>Pkg6dev_Commands\<close> and \<open>Pkg6dev_Main\<close> (\<^verbatim>\<open>pkg6dev/src/main.rs\<close>): the comparison of manifests, the two
    commands with their effects, and the program: what each command prints and writes.
  \<^item> \<open>Ports_Workspace\<close> and \<open>Ports_Main\<close> (\<^verbatim>\<open>ports/src/\<close>): sources, workspaces, the command that packages a port, and the
    program. \<open>Ports_Document\<close>: from the text of a spec file, through the reader, the macros and the workspace, to the
    script that is run; its example is \<^verbatim>\<open>src/ports.spec\<close>.
  \<^item> \<open>Pkg6_Stubs\<close>: the programs \<^verbatim>\<open>pkg6\<close>, \<^verbatim>\<open>pkg6depotd\<close> and \<^verbatim>\<open>pkg6repo\<close>, which do nothing or print a greeting.
  \<^item> this theory: properties across components. The unit tests of all crates pass. The program \<^verbatim>\<open>ports\<close> never fetches a source, because the spec file reader
    never fills the list of sources.

  \<^bold>\<open>How state and operations correspond.\<close> A struct is a record, an enum a datatype, a method that changes \<^verbatim>\<open>self\<close> a function
  that returns the changed record, a loop body a definition of its own (\<open>dir_step\<close> is the body of the loop in \<^verbatim>\<open>Dir::from\<close>).
  Names are those of the source, with a prefix where a name would clash (\<open>file_path\<close>, \<open>spec_files\<close>, \<open>mk_variables\<close>).

  \<^bold>\<open>Bounds and fuel.\<close> Two recursions of the code can run for ever and carry fuel: \<open>get\<close> and \<open>parse_all\<close>. \<open>get\<close> needs at most
  one level more than the makefile has variables (\<open>get_fuel_bound\<close>), and returns exactly when references are well-founded;
  \<open>parse_all\<close> needs one level more than the rank of the makefile in any ranking of includes. On cycles no fuel is enough.
  The reference parser has no fuel; that it returns is shown for every well-formed manifest, spec file, script line and
  makefile. Integers: the revision of a component is an \<^verbatim>\<open>i32\<close> and stays within its bounds. The line counter of the spec
  file reader is an \<^verbatim>\<open>i32\<close> and overflows after \<open>2\<^sup>31 - 1\<close> lines of a section, with overflow checks as a panic.

  \<^bold>\<open>What is not modelled.\<close> Turning the arguments of a process into a command line (\<^verbatim>\<open>clap\<close>): the programs take the parsed
  command line; the code that serde and \<^verbatim>\<open>diff\<close> derive; the texts of error messages; diagnostic output of the macro parser.
  Parameters stand for crates that are not under \<^verbatim>\<open>src/\<close>: \<^verbatim>\<open>pest\<close>'s
  generated code, \<^verbatim>\<open>sha2\<close>, \<^verbatim>\<open>sha3\<close>, \<^verbatim>\<open>object\<close>, \<^verbatim>\<open>semver\<close>, \<^verbatim>\<open>url\<close>, \<^verbatim>\<open>reqwest\<close>, \<^verbatim>\<open>serde_json\<close>, \<^verbatim>\<open>shellexpand\<close>, \<^verbatim>\<open>which\<close>.
\<close>

section \<open>The unit tests\<close>

text \<open>
  C3: every unit test of the repository passes, the six of \<^verbatim>\<open>libips\<close>, the two of \<^verbatim>\<open>specfile\<close> and the one of
  \<^verbatim>\<open>userland\<close>: reading the test manifests and the test spec file returns without error or panic, no index is
  out of range and every assertion holds, for every parser that makes the choices of the grammars and every
  iteration order of hash maps.
\<close>

theorem unit_tests_pass:
  assumes "peg_parser manifest_grammar parse" and "peg_parser spec_grammar spec_parser" and "hash_iteration entries"
    and "read ''src/test_data/simple.spec'' = Ok simple_spec"
  shows "parse_attributes parse = Ok ()
    \<and> parse_direcory_actions parse = Ok ()
    \<and> parse_file_actions parse = Ok ()
    \<and> parse_dependency_actions entries parse = Ok ()
    \<and> parse_line_breaks parse = Ok ()
    \<and> parse_unicode parse = Ok ()
    \<and> test_parse read spec_parser = Ok ()
    \<and> it_works_specfile = Ok ()
    \<and> it_works_userland = Ok ()"
proof -
  have "it_works_userland = Ok ()" by (simp add: it_works_userland_def assert_that_def)
  with libips_tests_pass [OF assms(1,3)] specfile_tests_pass [where read = read, OF assms(2,4)] show ?thesis by blast
qed

theorem unit_tests_pass_witness:
  "parse_file_actions sample_parse = Ok () \<and> parse_dependency_actions sorted_list_of_fmap sample_parse = Ok ()
     \<and> test_parse (\<lambda>_. Ok simple_spec) sample_spec_parse = Ok ()"
  using unit_tests_pass [where read = "\<lambda>_. Ok simple_spec", OF ref_peg_contract sample_spec_peg sorted_iter.hash_iteration_axioms]
  by blast

section \<open>No source is ever fetched\<close>

text \<open>The list of sources of a spec file is never filled.\<close>

lemma spec_variable_part_sources: "spec_sources (snd (snd (spec_variable_part p st))) = spec_sources (snd (snd st))"
  by (cases st) (simp add: spec_variable_part_def split: spec_rule.split KnownVariableControl.split)

lemma spec_section_text_sources:
  "spec_section_text nm p st = Ok st' \<Longrightarrow> spec_sources (snd st') = spec_sources (snd st)"
  by (cases st) (auto simp: spec_section_text_def Let_def split: if_splits)

lemma spec_section_part_sources:
  assumes "spec_section_part p st = Ok st'"
  shows "spec_sources (snd (snd st')) = spec_sources (snd (snd st))"
proof -
  obtain tmp n spec where st: "st = (tmp, n, spec)" by (cases st) auto
  have "spec_sources (snd q) = spec_sources spec" if "fold_res (spec_section_text tmp) ls (n, spec) = Ok q" for ls q
    using that by (rule fold_res_invariant [where P = "\<lambda>q. spec_sources (snd q) = spec_sources spec"])
      (simp_all add: spec_section_text_sources)
  with assms show ?thesis by (auto simp: st spec_section_part_def split: spec_rule.splits)
qed

lemma spec_pair_sources:
  assumes "spec_pair p spec = Ok spec'"
  shows "spec_sources spec' = spec_sources spec"
proof -
  have var: "spec_sources (snd (snd (fold spec_variable_part ts st))) = spec_sources (snd (snd st))" for ts st
    by (induction ts arbitrary: st) (simp_all add: spec_variable_part_sources)
  have sec: "spec_sources (snd (snd q)) = spec_sources spec" if "fold_res spec_section_part ts ([], 0, spec) = Ok q" for ts q
    using that by (rule fold_res_invariant [where P = "\<lambda>q. spec_sources (snd (snd q)) = spec_sources spec"])
      (simp_all add: spec_section_part_sources)
  from assms var sec show ?thesis by (auto simp: spec_pair_def split: spec_rule.splits)
qed

lemma spec_parse_sources: "spec_parse parse c = Ok spec \<Longrightarrow> spec_sources spec = []"
  unfolding spec_parse_def
  by (auto elim!: fold_res_invariant [where P = "\<lambda>s. spec_sources s = []"]
      simp: spec_pair_sources SpecFile_default_def)

lemmas ws_ops = Workspace_new_def init_root_def ws_build_def wait_success_def package_def package_file_def
  rust_calls Let_def

lemma ws_performs:
  "performs (\<lambda>op. op \<noteq> Fetch u \<and> op \<noteq> Wait ''tar'') (Workspace_new S shellexpand root)"
  "performs (\<lambda>op. op \<noteq> Fetch u \<and> op \<noteq> Wait ''tar'') (ws_build S ws script)"
  "performs (\<lambda>op. op \<noteq> Fetch u \<and> op \<noteq> Wait ''tar'') (package S parse_object H debug ws fs)"
  unfolding ws_ops
  by (intro performs_bind performs_call performs_res performs_fold; simp)+

lemma package_command_performs:
  "performs (\<lambda>op. op \<noteq> Fetch u \<and> op \<noteq> Wait ''tar'')
     (run_package_command S U shellexpand parse_object H debug spec_parser macro_parser entries spec_file)"
  (is "performs ?P _")
  unfolding run_package_command_def
proof (rule performs_bind [OF performs_call performs_bind_res])
  fix c spec
  assume "map_err PortsSpecError (spec_parse spec_parser c) = (Ok spec :: (SpecFile, 'a ports_error) res)"
  then have src: "spec_sources spec = []" by (simp add: spec_parse_sources)
  show "performs ?P
     (io_bind (io_map_err PortsWorkspaceError (Workspace_new S shellexpand [])) (\<lambda>ws.
      io_bind (io_map_err PortsWorkspaceError (get_sources S U ws (spec_sources spec))) (\<lambda>downloaded.
      io_bind (io_map_err PortsWorkspaceError (unpack_all_sources S ws downloaded)) (\<lambda>_.
      io_bind (io_res (fold_res macro_entry (entries (get_macros ws)) fmempty)) (\<lambda>macro_map.
      io_bind (io_res (map_err PortsMacroError (macro_parse macro_parser \<lparr>macros = macro_map\<rparr> (build_script spec)))) (\<lambda>script.
      io_bind (io_map_err PortsWorkspaceError (ws_build S ws script)) (\<lambda>_.
      io_bind (io_map_err PortsWorkspaceError (package S parse_object H debug ws (spec_files spec))) (\<lambda>_.
        io_return ())))))))
     )"
    unfolding src no_sources_no_calls by (intro performs_bind performs_map_err performs_res ws_performs)
qed simp

lemma main_ports_performs:
  "performs (\<lambda>op. op \<noteq> Fetch u \<and> op \<noteq> Wait ''tar'')
     (main_ports S U shellexpand parse_object H debug display spec_parser macro_parser entries cli)"
  unfolding main_ports_def Let_def
  by (intro performs_bind; cases "cli_config cli"; cases "cli_command cli")
    (auto intro!: performs_bind performs_call package_command_performs)

text \<open>
  C40: the program \<^verbatim>\<open>ports\<close> never downloads or unpacks a source. The spec file parser has no branch that fills
  the list of sources, so for every command line, on every system and whatever the outcome, the program makes
  no request for a source and never runs \<^verbatim>\<open>tar\<close>.
\<close>

theorem ports_fetches_nothing:
  assumes "main_ports S U shellexpand parse_object H debug display spec_parser macro_parser entries cli tr = Some (r, tr')"
  shows "\<exists>new. tr' = tr @ new \<and> Wait ''tar'' \<notin> set new \<and> (\<forall>u. Fetch u \<notin> set new)"
proof -
  have calls: "\<exists>new. tr' = tr @ new \<and> list_all (\<lambda>op. op \<noteq> Fetch u \<and> op \<noteq> Wait ''tar'') new" for u
    using main_ports_performs assms unfolding performs_def by blast
  then obtain new where new: "tr' = tr @ new" by blast
  have "Fetch u \<notin> set new \<and> Wait ''tar'' \<notin> set new" for u
    using calls [of u] new by (auto simp: list_all_iff)
  with new show ?thesis by blast
qed

definition spec_sys :: sys where
  "spec_sys = sample_sys\<lparr>sys_read := \<lambda>_ p. Ok (if p = ''x.spec'' then sample_spec else ''data'')\<rparr>"

definition sample_cli :: Cli where
  "sample_cli = \<lparr>cli_command = Package ''build'' ''x.spec'', cli_config = Some ''ports.conf'', cli_verbose = 2\<rparr>"

theorem ports_fetches_nothing_witness:
  "\<exists>r tr'. main_ports spec_sys sample_url Ok (\<lambda>_. None) sample_hashers (\<lambda>_. []) id sample_spec_parse
       sample_macro_parse sorted_list_of_fmap sample_cli [] = Some (r :: (unit, string ports_error) res, tr')
     \<and> Wait ''build_script'' \<in> set tr' \<and> (\<forall>u. Fetch u \<notin> set tr')"
proof -
  have "case main_ports spec_sys sample_url Ok (\<lambda>_. None) sample_hashers (\<lambda>_. []) id sample_spec_parse
      sample_macro_parse sorted_list_of_fmap sample_cli [] of
        Some (r :: (unit, string ports_error) res, tr') \<Rightarrow> list_ex (\<lambda>x. x = Wait ''build_script'') tr' | None \<Rightarrow> False"
    by code_simp
  then obtain r tr' where run: "main_ports spec_sys sample_url Ok (\<lambda>_. None) sample_hashers (\<lambda>_. []) id
      sample_spec_parse sample_macro_parse sorted_list_of_fmap sample_cli [] = Some (r :: (unit, string ports_error) res, tr')"
    and w: "Wait ''build_script'' \<in> set tr'"
    by (auto simp: list_ex_iff split: option.splits)
  from ports_fetches_nothing [OF run] run w show ?thesis by auto
qed

end
